theory Spec2Isabelle
  imports Main "HOL-Library.Word"
begin

unbundle bit_operations_syntax

section \<open>Strings and buffers\<close>

text \<open>
  A JavaScript string is a sequence of UTF-16 code units and \<open>.length\<close> counts code
  units; a Node \<open>Buffer\<close> is a sequence of bytes.
\<close>

type_synonym byte = "8 word"
type_synonym jsstring = "16 word list"

definition COLON :: "16 word" where
  "COLON = 0x3A"

subsection \<open>\<open>Buffer.from(s)\<close> and \<open>cipher.update(s, 'utf8', _)\<close>: UTF-8 encoding\<close>

definition is_lead :: "16 word \<Rightarrow> bool" where
  "is_lead c = (0xD800 \<le> c \<and> c \<le> 0xDBFF)"

definition is_trail :: "16 word \<Rightarrow> bool" where
  "is_trail c = (0xDC00 \<le> c \<and> c \<le> 0xDFFF)"

text \<open>The UTF-8 bytes of one code point.\<close>

definition utf8_cp :: "nat \<Rightarrow> byte list" where
  "utf8_cp n =
     (if n < 0x80 then [of_nat n]
      else if n < 0x800 then [of_nat (0xC0 + n div 64), of_nat (0x80 + n mod 64)]
      else if n < 0x10000 then
        [of_nat (0xE0 + n div 4096), of_nat (0x80 + n div 64 mod 64), of_nat (0x80 + n mod 64)]
      else
        [of_nat (0xF0 + n div 262144), of_nat (0x80 + n div 4096 mod 64),
         of_nat (0x80 + n div 64 mod 64), of_nat (0x80 + n mod 64)])"

text \<open>
  A lead surrogate followed by a trail surrogate is one code point; a surrogate on its
  own is written as U+FFFD, the replacement character.
\<close>

fun utf8_encode :: "jsstring \<Rightarrow> byte list" where
  "utf8_encode [] = []"
| "utf8_encode [c] =
     (if is_lead c \<or> is_trail c then utf8_cp 0xFFFD else utf8_cp (unat c))"
| "utf8_encode (c # d # cs) =
     (if is_lead c then
        (if is_trail d then
           utf8_cp (0x10000 + (unat c - 0xD800) * 1024 + (unat d - 0xDC00)) @ utf8_encode cs
         else utf8_cp 0xFFFD @ utf8_encode (d # cs))
      else if is_trail c then utf8_cp 0xFFFD @ utf8_encode (d # cs)
      else utf8_cp (unat c) @ utf8_encode (d # cs))"

subsection \<open>\<open>decipher.update(_, _, 'utf8')\<close>: UTF-8 decoding\<close>

definition utf16_cp :: "nat \<Rightarrow> jsstring" where
  "utf16_cp n =
     (if n < 0x10000 then [of_nat n]
      else [of_nat (0xD800 + (n - 0x10000) div 1024), of_nat (0xDC00 + (n - 0x10000) mod 1024)])"

definition between :: "nat \<Rightarrow> nat \<Rightarrow> byte \<Rightarrow> bool" where
  "between lo hi b = (lo \<le> unat b \<and> unat b \<le> hi)"

definition REPLACEMENT :: "16 word" where
  "REPLACEMENT = 0xFFFD"

text \<open>
  Decoding never fails: a byte that cannot start or continue a sequence yields U+FFFD and
  decoding goes on at the offending byte; a sequence cut off by the end of the input
  yields one U+FFFD. Overlong forms, surrogates and values above U+10FFFF are excluded by
  the bounds on the first continuation byte.
\<close>

fun utf8_decode :: "byte list \<Rightarrow> jsstring" where
  "utf8_decode [] = []"
| "utf8_decode (b # bs) =
     (if unat b < 0x80 then of_nat (unat b) # utf8_decode bs
      else if 0xC2 \<le> unat b \<and> unat b \<le> 0xDF then
        (case bs of
           [] \<Rightarrow> [REPLACEMENT]
         | b1 # r1 \<Rightarrow>
             if between 0x80 0xBF b1 then
               utf16_cp ((unat b - 0xC0) * 64 + (unat b1 - 0x80)) @ utf8_decode r1
             else REPLACEMENT # utf8_decode bs)
      else if 0xE0 \<le> unat b \<and> unat b \<le> 0xEF then
        (case bs of
           [] \<Rightarrow> [REPLACEMENT]
         | b1 # r1 \<Rightarrow>
             if between (if unat b = 0xE0 then 0xA0 else 0x80)
                        (if unat b = 0xED then 0x9F else 0xBF) b1 then
               (case r1 of
                  [] \<Rightarrow> [REPLACEMENT]
                | b2 # r2 \<Rightarrow>
                    if between 0x80 0xBF b2 then
                      utf16_cp ((unat b - 0xE0) * 4096 + (unat b1 - 0x80) * 64 + (unat b2 - 0x80))
                        @ utf8_decode r2
                    else REPLACEMENT # utf8_decode r1)
             else REPLACEMENT # utf8_decode bs)
      else if 0xF0 \<le> unat b \<and> unat b \<le> 0xF4 then
        (case bs of
           [] \<Rightarrow> [REPLACEMENT]
         | b1 # r1 \<Rightarrow>
             if between (if unat b = 0xF0 then 0x90 else 0x80)
                        (if unat b = 0xF4 then 0x8F else 0xBF) b1 then
               (case r1 of
                  [] \<Rightarrow> [REPLACEMENT]
                | b2 # r2 \<Rightarrow>
                    if between 0x80 0xBF b2 then
                      (case r2 of
                         [] \<Rightarrow> [REPLACEMENT]
                       | b3 # r3 \<Rightarrow>
                           if between 0x80 0xBF b3 then
                             utf16_cp ((unat b - 0xF0) * 262144 + (unat b1 - 0x80) * 4096
                                        + (unat b2 - 0x80) * 64 + (unat b3 - 0x80))
                               @ utf8_decode r3
                           else REPLACEMENT # utf8_decode r2)
                    else REPLACEMENT # utf8_decode r1)
             else REPLACEMENT # utf8_decode bs)
      else REPLACEMENT # utf8_decode bs)"

text \<open>A string is well formed when every surrogate is half of a pair.\<close>

fun well_formed :: "jsstring \<Rightarrow> bool" where
  "well_formed [] = True"
| "well_formed [c] = (\<not> is_lead c \<and> \<not> is_trail c)"
| "well_formed (c # d # cs) =
     (if is_lead c then is_trail d \<and> well_formed cs
      else \<not> is_trail c \<and> well_formed (d # cs))"

subsection \<open>Hexadecimal\<close>

definition hex_digit :: "nat \<Rightarrow> 16 word" where
  "hex_digit n = (if n < 10 then of_nat (0x30 + n) else of_nat (0x57 + n))"

text \<open>\<open>buf.toString('hex')\<close> and the \<open>'hex'\<close> output encoding: two lower-case digits a byte.\<close>

definition hex_encode :: "byte list \<Rightarrow> jsstring" where
  "hex_encode bs = concat (map (\<lambda>b. [hex_digit (unat b div 16), hex_digit (unat b mod 16)]) bs)"

text \<open>
  The decoder of the \<open>'hex'\<close> input encoding reads the characters of the string through
  a table of 256 entries, indexed with the code unit converted to one byte: of a code unit
  it sees the low byte only, so that U+3031 is read as the digit \<open>1\<close>. Digits and letters
  of both cases are accepted.
\<close>

definition unhex :: "16 word \<Rightarrow> nat option" where
  "unhex c =
     (let b = unat c mod 256
      in if 0x30 \<le> b \<and> b \<le> 0x39 then Some (b - 0x30)
         else if 0x61 \<le> b \<and> b \<le> 0x66 then Some (b - 0x57)
         else if 0x41 \<le> b \<and> b \<le> 0x46 then Some (b - 0x37)
         else None)"

text \<open>
  \<open>Buffer.from(s, 'hex')\<close> and the \<open>'hex'\<close> input encoding do not fail: decoding stops
  at the first pair that is not two hexadecimal digits, and a last single character is
  dropped.
\<close>

fun hex_decode :: "jsstring \<Rightarrow> byte list" where
  "hex_decode (a # b # r) =
     (case unhex a of
        None \<Rightarrow> []
      | Some x \<Rightarrow> (case unhex b of None \<Rightarrow> [] | Some y \<Rightarrow> of_nat (x * 16 + y) # hex_decode r))"
| "hex_decode _ = []"

subsection \<open>\<open>split\<close>, \<open>shift\<close> and \<open>join\<close>\<close>

fun split_on :: "16 word \<Rightarrow> jsstring \<Rightarrow> jsstring list" where
  "split_on c [] = [[]]"
| "split_on c (x # xs) =
     (if x = c then [] # split_on c xs
      else (case split_on c xs of [] \<Rightarrow> [[x]] | p # ps \<Rightarrow> (x # p) # ps))"

fun join_with :: "16 word \<Rightarrow> jsstring list \<Rightarrow> jsstring" where
  "join_with c [] = []"
| "join_with c [p] = p"
| "join_with c (p # q # ps) = p @ c # join_with c (q # ps)"

section \<open>AES-256 in CBC mode with PKCS#7 padding\<close>

text \<open>
  \<open>crypto.createCipheriv('aes-256-cbc', key, iv)\<close> and its inverse are the platform's;
  they are written out here after FIPS 197 (the block cipher), SP 800-38A (CBC) and the
  padding check of the platform's \<open>final()\<close>. A block and a round key are 16 bytes, in the
  order of the input (byte \<open>r + 4 * c\<close> is row \<open>r\<close>, column \<open>c\<close> of the state).
\<close>

subsection \<open>The block cipher\<close>

text \<open>
  The substitution table of FIPS 197, Figure 7, and its inverse, Figure 14: the row is the
  high half of the byte, the column the low half.
\<close>

definition SBOX :: "nat \<Rightarrow> byte list" where
  "SBOX r =
     (if r = 0 then
        [0x63, 0x7C, 0x77, 0x7B, 0xF2, 0x6B, 0x6F, 0xC5, 0x30, 0x01, 0x67, 0x2B, 0xFE, 0xD7, 0xAB, 0x76]
      else if r = 1 then
        [0xCA, 0x82, 0xC9, 0x7D, 0xFA, 0x59, 0x47, 0xF0, 0xAD, 0xD4, 0xA2, 0xAF, 0x9C, 0xA4, 0x72, 0xC0]
      else if r = 2 then
        [0xB7, 0xFD, 0x93, 0x26, 0x36, 0x3F, 0xF7, 0xCC, 0x34, 0xA5, 0xE5, 0xF1, 0x71, 0xD8, 0x31, 0x15]
      else if r = 3 then
        [0x04, 0xC7, 0x23, 0xC3, 0x18, 0x96, 0x05, 0x9A, 0x07, 0x12, 0x80, 0xE2, 0xEB, 0x27, 0xB2, 0x75]
      else if r = 4 then
        [0x09, 0x83, 0x2C, 0x1A, 0x1B, 0x6E, 0x5A, 0xA0, 0x52, 0x3B, 0xD6, 0xB3, 0x29, 0xE3, 0x2F, 0x84]
      else if r = 5 then
        [0x53, 0xD1, 0x00, 0xED, 0x20, 0xFC, 0xB1, 0x5B, 0x6A, 0xCB, 0xBE, 0x39, 0x4A, 0x4C, 0x58, 0xCF]
      else if r = 6 then
        [0xD0, 0xEF, 0xAA, 0xFB, 0x43, 0x4D, 0x33, 0x85, 0x45, 0xF9, 0x02, 0x7F, 0x50, 0x3C, 0x9F, 0xA8]
      else if r = 7 then
        [0x51, 0xA3, 0x40, 0x8F, 0x92, 0x9D, 0x38, 0xF5, 0xBC, 0xB6, 0xDA, 0x21, 0x10, 0xFF, 0xF3, 0xD2]
      else if r = 8 then
        [0xCD, 0x0C, 0x13, 0xEC, 0x5F, 0x97, 0x44, 0x17, 0xC4, 0xA7, 0x7E, 0x3D, 0x64, 0x5D, 0x19, 0x73]
      else if r = 9 then
        [0x60, 0x81, 0x4F, 0xDC, 0x22, 0x2A, 0x90, 0x88, 0x46, 0xEE, 0xB8, 0x14, 0xDE, 0x5E, 0x0B, 0xDB]
      else if r = 10 then
        [0xE0, 0x32, 0x3A, 0x0A, 0x49, 0x06, 0x24, 0x5C, 0xC2, 0xD3, 0xAC, 0x62, 0x91, 0x95, 0xE4, 0x79]
      else if r = 11 then
        [0xE7, 0xC8, 0x37, 0x6D, 0x8D, 0xD5, 0x4E, 0xA9, 0x6C, 0x56, 0xF4, 0xEA, 0x65, 0x7A, 0xAE, 0x08]
      else if r = 12 then
        [0xBA, 0x78, 0x25, 0x2E, 0x1C, 0xA6, 0xB4, 0xC6, 0xE8, 0xDD, 0x74, 0x1F, 0x4B, 0xBD, 0x8B, 0x8A]
      else if r = 13 then
        [0x70, 0x3E, 0xB5, 0x66, 0x48, 0x03, 0xF6, 0x0E, 0x61, 0x35, 0x57, 0xB9, 0x86, 0xC1, 0x1D, 0x9E]
      else if r = 14 then
        [0xE1, 0xF8, 0x98, 0x11, 0x69, 0xD9, 0x8E, 0x94, 0x9B, 0x1E, 0x87, 0xE9, 0xCE, 0x55, 0x28, 0xDF]
      else
        [0x8C, 0xA1, 0x89, 0x0D, 0xBF, 0xE6, 0x42, 0x68, 0x41, 0x99, 0x2D, 0x0F, 0xB0, 0x54, 0xBB, 0x16])"

definition INV_SBOX :: "nat \<Rightarrow> byte list" where
  "INV_SBOX r =
     (if r = 0 then
        [0x52, 0x09, 0x6A, 0xD5, 0x30, 0x36, 0xA5, 0x38, 0xBF, 0x40, 0xA3, 0x9E, 0x81, 0xF3, 0xD7, 0xFB]
      else if r = 1 then
        [0x7C, 0xE3, 0x39, 0x82, 0x9B, 0x2F, 0xFF, 0x87, 0x34, 0x8E, 0x43, 0x44, 0xC4, 0xDE, 0xE9, 0xCB]
      else if r = 2 then
        [0x54, 0x7B, 0x94, 0x32, 0xA6, 0xC2, 0x23, 0x3D, 0xEE, 0x4C, 0x95, 0x0B, 0x42, 0xFA, 0xC3, 0x4E]
      else if r = 3 then
        [0x08, 0x2E, 0xA1, 0x66, 0x28, 0xD9, 0x24, 0xB2, 0x76, 0x5B, 0xA2, 0x49, 0x6D, 0x8B, 0xD1, 0x25]
      else if r = 4 then
        [0x72, 0xF8, 0xF6, 0x64, 0x86, 0x68, 0x98, 0x16, 0xD4, 0xA4, 0x5C, 0xCC, 0x5D, 0x65, 0xB6, 0x92]
      else if r = 5 then
        [0x6C, 0x70, 0x48, 0x50, 0xFD, 0xED, 0xB9, 0xDA, 0x5E, 0x15, 0x46, 0x57, 0xA7, 0x8D, 0x9D, 0x84]
      else if r = 6 then
        [0x90, 0xD8, 0xAB, 0x00, 0x8C, 0xBC, 0xD3, 0x0A, 0xF7, 0xE4, 0x58, 0x05, 0xB8, 0xB3, 0x45, 0x06]
      else if r = 7 then
        [0xD0, 0x2C, 0x1E, 0x8F, 0xCA, 0x3F, 0x0F, 0x02, 0xC1, 0xAF, 0xBD, 0x03, 0x01, 0x13, 0x8A, 0x6B]
      else if r = 8 then
        [0x3A, 0x91, 0x11, 0x41, 0x4F, 0x67, 0xDC, 0xEA, 0x97, 0xF2, 0xCF, 0xCE, 0xF0, 0xB4, 0xE6, 0x73]
      else if r = 9 then
        [0x96, 0xAC, 0x74, 0x22, 0xE7, 0xAD, 0x35, 0x85, 0xE2, 0xF9, 0x37, 0xE8, 0x1C, 0x75, 0xDF, 0x6E]
      else if r = 10 then
        [0x47, 0xF1, 0x1A, 0x71, 0x1D, 0x29, 0xC5, 0x89, 0x6F, 0xB7, 0x62, 0x0E, 0xAA, 0x18, 0xBE, 0x1B]
      else if r = 11 then
        [0xFC, 0x56, 0x3E, 0x4B, 0xC6, 0xD2, 0x79, 0x20, 0x9A, 0xDB, 0xC0, 0xFE, 0x78, 0xCD, 0x5A, 0xF4]
      else if r = 12 then
        [0x1F, 0xDD, 0xA8, 0x33, 0x88, 0x07, 0xC7, 0x31, 0xB1, 0x12, 0x10, 0x59, 0x27, 0x80, 0xEC, 0x5F]
      else if r = 13 then
        [0x60, 0x51, 0x7F, 0xA9, 0x19, 0xB5, 0x4A, 0x0D, 0x2D, 0xE5, 0x7A, 0x9F, 0x93, 0xC9, 0x9C, 0xEF]
      else if r = 14 then
        [0xA0, 0xE0, 0x3B, 0x4D, 0xAE, 0x2A, 0xF5, 0xB0, 0xC8, 0xEB, 0xBB, 0x3C, 0x83, 0x53, 0x99, 0x61]
      else
        [0x17, 0x2B, 0x04, 0x7E, 0xBA, 0x77, 0xD6, 0x26, 0xE1, 0x69, 0x14, 0x63, 0x55, 0x21, 0x0C, 0x7D])"

definition sbox :: "byte \<Rightarrow> byte" where
  "sbox b = SBOX (unat b div 16) ! (unat b mod 16)"

definition inv_sbox :: "byte \<Rightarrow> byte" where
  "inv_sbox b = INV_SBOX (unat b div 16) ! (unat b mod 16)"

text \<open>Multiplication by \<open>x\<close> in GF(2^8) modulo \<open>x^8 + x^4 + x^3 + x + 1\<close>.\<close>

definition xtime :: "byte \<Rightarrow> byte" where
  "xtime b = (if bit b 7 then push_bit 1 b XOR 0x1B else push_bit 1 b)"

definition mul3 :: "byte \<Rightarrow> byte" where
  "mul3 b = xtime b XOR b"

definition mul9 :: "byte \<Rightarrow> byte" where
  "mul9 b = xtime (xtime (xtime b)) XOR b"

definition mul11 :: "byte \<Rightarrow> byte" where
  "mul11 b = xtime (xtime (xtime b)) XOR xtime b XOR b"

definition mul13 :: "byte \<Rightarrow> byte" where
  "mul13 b = xtime (xtime (xtime b)) XOR xtime (xtime b) XOR b"

definition mul14 :: "byte \<Rightarrow> byte" where
  "mul14 b = xtime (xtime (xtime b)) XOR xtime (xtime b) XOR xtime b"

definition xor_block :: "byte list \<Rightarrow> byte list \<Rightarrow> byte list" where
  "xor_block a b = map (\<lambda>i. a ! i XOR b ! i) [0..<16]"

definition add_round_key :: "byte list \<Rightarrow> byte list \<Rightarrow> byte list" where
  "add_round_key k st = xor_block st k"

definition sub_bytes :: "byte list \<Rightarrow> byte list" where
  "sub_bytes st = map sbox st"

definition inv_sub_bytes :: "byte list \<Rightarrow> byte list" where
  "inv_sub_bytes st = map inv_sbox st"

text \<open>Row \<open>r\<close> is rotated left by \<open>r\<close> columns.\<close>

definition shift_rows :: "byte list \<Rightarrow> byte list" where
  "shift_rows st = map (\<lambda>i. st ! ((i + 4 * (i mod 4)) mod 16)) [0..<16]"

definition inv_shift_rows :: "byte list \<Rightarrow> byte list" where
  "inv_shift_rows st = map (\<lambda>i. st ! ((i + 16 - 4 * (i mod 4)) mod 16)) [0..<16]"

definition col :: "byte list \<Rightarrow> nat \<Rightarrow> nat \<Rightarrow> byte" where
  "col st i d = st ! (4 * (i div 4) + (i mod 4 + d) mod 4)"

definition mix_columns :: "byte list \<Rightarrow> byte list" where
  "mix_columns st =
     map (\<lambda>i. xtime (col st i 0) XOR mul3 (col st i 1) XOR col st i 2 XOR col st i 3) [0..<16]"

definition inv_mix_columns :: "byte list \<Rightarrow> byte list" where
  "inv_mix_columns st =
     map (\<lambda>i. mul14 (col st i 0) XOR mul11 (col st i 1) XOR mul13 (col st i 2)
               XOR mul9 (col st i 3)) [0..<16]"

definition aes_round :: "byte list \<Rightarrow> byte list \<Rightarrow> byte list" where
  "aes_round k st = add_round_key k (mix_columns (shift_rows (sub_bytes st)))"

definition final_round :: "byte list \<Rightarrow> byte list \<Rightarrow> byte list" where
  "final_round k st = add_round_key k (shift_rows (sub_bytes st))"

definition inv_round :: "byte list \<Rightarrow> byte list \<Rightarrow> byte list" where
  "inv_round k st = inv_sub_bytes (inv_shift_rows (inv_mix_columns (add_round_key k st)))"

definition inv_final_round :: "byte list \<Rightarrow> byte list \<Rightarrow> byte list" where
  "inv_final_round k st = inv_sub_bytes (inv_shift_rows (add_round_key k st))"

text \<open>The round keys are \<open>k0 # mid @ [kn]\<close>: first, middle rounds, last.\<close>

definition cipher :: "byte list list \<Rightarrow> byte list \<Rightarrow> byte list" where
  "cipher rks st =
     final_round (last rks) (fold aes_round (butlast (tl rks)) (add_round_key (hd rks) st))"

definition inv_cipher :: "byte list list \<Rightarrow> byte list \<Rightarrow> byte list" where
  "inv_cipher rks st =
     add_round_key (hd rks)
       (fold inv_round (rev (butlast (tl rks))) (inv_final_round (last rks) st))"

subsection \<open>Key expansion for a 256-bit key\<close>

definition RCON :: "byte list" where
  "RCON = [0x01, 0x02, 0x04, 0x08, 0x10, 0x20, 0x40]"

definition xor_word :: "byte list \<Rightarrow> byte list \<Rightarrow> byte list" where
  "xor_word a b = map (\<lambda>i. a ! i XOR b ! i) [0..<4]"

text \<open>
  The words of the key schedule are kept newest first: when word \<open>i\<close> is made, the head
  of \<open>ws\<close> is word \<open>i - 1\<close> and \<open>ws ! 7\<close> is word \<open>i - 8\<close>.
\<close>

definition next_word :: "nat \<Rightarrow> byte list list \<Rightarrow> byte list" where
  "next_word i ws =
     (let temp = hd ws
      in xor_word (ws ! 7)
           (if i mod 8 = 0 then
              xor_word (map sbox (rotate1 temp)) [RCON ! (i div 8 - 1), 0, 0, 0]
            else if i mod 8 = 4 then map sbox temp
            else temp))"

fun expand :: "nat \<Rightarrow> nat \<Rightarrow> byte list list \<Rightarrow> byte list list" where
  "expand 0 i ws = ws"
| "expand (Suc n) i ws = expand n (Suc i) (next_word i ws # ws)"

text \<open>The 60 words of the schedule, four to a round key.\<close>

definition key_expansion :: "byte list \<Rightarrow> byte list list" where
  "key_expansion key =
     (let ws = rev (expand 52 8 (rev (map (\<lambda>i. take 4 (drop (4 * i) key)) [0..<8])))
      in map (\<lambda>r. concat (take 4 (drop (4 * r) ws))) [0..<15])"

subsection \<open>CBC and padding\<close>

text \<open>
  What the source and the platform throw: \<open>InvalidEncryptedText\<close> and
  \<open>FailedToDecrypt\<close> are the two \<open>Error\<close>s of \<open>decrypt\<close>, the others come from
  \<open>createCipheriv\<close>, \<open>createDecipheriv\<close>, \<open>update\<close> and \<open>final\<close>.
\<close>

datatype error = InvalidIV | InvalidKeyLength | InvalidHexLength
  | WrongFinalBlockLength | BadDecrypt | InvalidEncryptedText | FailedToDecrypt

definition blocks :: "byte list \<Rightarrow> byte list list" where
  "blocks bs = map (\<lambda>i. take 16 (drop (16 * i) bs)) [0..<length bs div 16]"

fun cbc_enc :: "byte list list \<Rightarrow> byte list \<Rightarrow> byte list list \<Rightarrow> byte list list" where
  "cbc_enc rks prev [] = []"
| "cbc_enc rks prev (p # ps) =
     (let c = cipher rks (xor_block p prev) in c # cbc_enc rks c ps)"

fun cbc_dec :: "byte list list \<Rightarrow> byte list \<Rightarrow> byte list list \<Rightarrow> byte list list" where
  "cbc_dec rks prev [] = []"
| "cbc_dec rks prev (c # cs) = xor_block (inv_cipher rks c) prev # cbc_dec rks c cs"

definition pkcs7_pad :: "byte list \<Rightarrow> byte list" where
  "pkcs7_pad bs = (let n = 16 - length bs mod 16 in bs @ replicate n (of_nat n))"

text \<open>
  \<open>final()\<close> of a decipher reads the last byte \<open>n\<close> of the last block, rejects
  \<open>n = 0\<close> and \<open>n > 16\<close>, and requires the last \<open>n\<close> bytes to be \<open>n\<close>.
\<close>

definition pkcs7_unpad :: "byte list \<Rightarrow> error + byte list" where
  "pkcs7_unpad bs =
     (let n = unat (last bs)
      in if n = 0 \<or> 16 < n then Inl BadDecrypt
         else if list_all (\<lambda>b. unat b = n) (drop (length bs - n) bs)
           then Inr (take (length bs - n) bs)
         else Inl BadDecrypt)"

definition aes256cbc_encrypt :: "byte list \<Rightarrow> byte list \<Rightarrow> byte list \<Rightarrow> byte list" where
  "aes256cbc_encrypt key iv pt = concat (cbc_enc (key_expansion key) iv (blocks (pkcs7_pad pt)))"

text \<open>
  An input that is empty or not a whole number of blocks is refused by \<open>final()\<close>
  (wrong final block length) before any padding is looked at.
\<close>

definition aes256cbc_decrypt :: "byte list \<Rightarrow> byte list \<Rightarrow> byte list \<Rightarrow> error + byte list" where
  "aes256cbc_decrypt key iv ct =
     (if ct = [] \<or> length ct mod 16 \<noteq> 0 then Inl WrongFinalBlockLength
      else pkcs7_unpad (concat (cbc_dec (key_expansion key) iv (blocks ct))))"

section \<open>Configuration: the encryption key\<close>

text \<open>
  \<open>String.prototype.trim\<close> removes white space and line terminators from both ends.
\<close>

definition is_space :: "16 word \<Rightarrow> bool" where
  "is_space c =
     (c \<in> {0x09, 0x0A, 0x0B, 0x0C, 0x0D, 0x20, 0xA0, 0x1680, 0x2028, 0x2029, 0x202F, 0x205F,
            0x3000, 0xFEFF}
      \<or> (0x2000 \<le> c \<and> c \<le> 0x200A))"

definition trim :: "jsstring \<Rightarrow> jsstring" where
  "trim s = rev (dropWhile is_space (rev (dropWhile is_space s)))"

text \<open>
  Lines 11 to 17 of \<open>index.js\<close>. The argument is \<open>process.env.ENCRYPTION_KEY\<close>,
  \<open>None\<close> when the variable is not set. The result is the exit code of the process, or
  the key the process goes on with.
\<close>

datatype startup = Exit nat | Running jsstring

definition startup_check :: "jsstring option \<Rightarrow> startup" where
  "startup_check env =
     (case map_option trim env of
        None \<Rightarrow> Exit 1
      | Some ENCRYPTION_KEY \<Rightarrow>
          if ENCRYPTION_KEY = [] \<or> length ENCRYPTION_KEY \<noteq> 32 then Exit 1
          else Running ENCRYPTION_KEY)"

section \<open>Encryption helpers\<close>

definition IV_LENGTH :: nat where
  "IV_LENGTH = 16"

text \<open>\<open>crypto.randomBytes(n)\<close>: the source of randomness is an argument.\<close>

definition randomBytes :: "(nat \<Rightarrow> byte) \<Rightarrow> nat \<Rightarrow> byte list" where
  "randomBytes rng n = map rng [0..<n]"

text \<open>
  \<open>createCipheriv('aes-256-cbc', key, iv)\<close> throws unless the initialisation vector has
  16 bytes and the key 32; \<open>createDecipheriv\<close> makes the same checks.
\<close>

definition createCipheriv :: "byte list \<Rightarrow> byte list \<Rightarrow> error + byte list \<times> byte list" where
  "createCipheriv key iv =
     (if length iv \<noteq> 16 then Inl InvalidIV
      else if length key \<noteq> 32 then Inl InvalidKeyLength
      else Inr (key, iv))"

definition createDecipheriv :: "byte list \<Rightarrow> byte list \<Rightarrow> error + byte list \<times> byte list" where
  "createDecipheriv key iv = createCipheriv key iv"

text \<open>
  \<open>encrypt\<close>, lines 33 to 39. The first argument is the constant \<open>ENCRYPTION_KEY\<close>.
  Nothing is caught: an error of \<open>createCipheriv\<close> is thrown to the caller.
\<close>

definition encrypt :: "jsstring \<Rightarrow> (nat \<Rightarrow> byte) \<Rightarrow> jsstring \<Rightarrow> error + jsstring" where
  "encrypt ENCRYPTION_KEY rng text =
     (let iv = randomBytes rng IV_LENGTH
      in case createCipheriv (utf8_encode ENCRYPTION_KEY) iv of
           Inl e \<Rightarrow> Inl e
         | Inr (key, iv') \<Rightarrow>
             Inr (hex_encode iv @ COLON # hex_encode (aes256cbc_encrypt key iv' (utf8_encode text))))"

text \<open>
  The body of the \<open>try\<close> in \<open>decrypt\<close>, lines 43 to 50. \<open>update\<close> refuses a
  hexadecimal string of odd length; \<open>final\<close> refuses what \<open>aes256cbc_decrypt\<close>
  refuses. When \<open>final\<close> throws, what \<open>update\<close> had returned is dropped with the
  exception.
\<close>

definition decrypt_body :: "jsstring \<Rightarrow> jsstring \<Rightarrow> error + jsstring" where
  "decrypt_body ENCRYPTION_KEY text =
     (let parts = split_on COLON text
      in if length parts < 2 then Inl InvalidEncryptedText
         else
           let iv = hex_decode (hd parts);
               encryptedText = join_with COLON (tl parts)
           in case createDecipheriv (utf8_encode ENCRYPTION_KEY) iv of
                Inl e \<Rightarrow> Inl e
              | Inr (key, iv') \<Rightarrow>
                  if odd (length encryptedText) then Inl InvalidHexLength
                  else (case aes256cbc_decrypt key iv' (hex_decode encryptedText) of
                          Inl e \<Rightarrow> Inl e
                        | Inr decrypted \<Rightarrow> Inr (utf8_decode decrypted)))"

text \<open>\<open>decrypt\<close>, lines 41 to 54: whatever is thrown becomes \<open>'Failed to decrypt text'\<close>.\<close>

definition decrypt :: "jsstring \<Rightarrow> jsstring \<Rightarrow> error + jsstring" where
  "decrypt ENCRYPTION_KEY text =
     (case decrypt_body ENCRYPTION_KEY text of
        Inl e \<Rightarrow> Inl FailedToDecrypt
      | Inr decrypted \<Rightarrow> Inr decrypted)"

text \<open>\<open>decrypt(encrypt(s))\<close>, where an error of \<open>encrypt\<close> is thrown on.\<close>

definition decrypt_encrypt :: "jsstring \<Rightarrow> (nat \<Rightarrow> byte) \<Rightarrow> jsstring \<Rightarrow> error + jsstring" where
  "decrypt_encrypt ENCRYPTION_KEY rng s =
     (case encrypt ENCRYPTION_KEY rng s of
        Inl e \<Rightarrow> Inl e
      | Inr token \<Rightarrow> decrypt ENCRYPTION_KEY token)"

section \<open>The bot\<close>

text \<open>
  The state of the process is the variables of the module (\<open>userData\<close>,
  \<open>ACTIVE_SESSIONS\<close>), the file \<open>DATA_FILE\<close>, the collectors that were created and
  the list of what the process has sent and logged. The calls to the platform
  (\<open>interaction.reply\<close>, \<open>client.channels.fetch\<close>, \<open>m.reply\<close>,
  \<open>sendTyping\<close>, \<open>channel.send\<close>) are taken to return; the write of the file may
  fail, and the request to the backend may fail or give a body of any form. A handler runs
  to its end or to an \<open>await\<close>; the one \<open>await\<close> between the test of line 144 and
  the \<open>add\<close> of line 180 is that of \<open>saveUserData()\<close>, and it is the one point where
  the model lets another event in.
\<close>

subsection \<open>State\<close>

type_synonym userId = jsstring
type_synonym channelId = jsstring

text \<open>One entry of \<open>userData\<close>: both properties may be missing.\<close>

record user =
  promptId :: "jsstring option"
  openaiKey :: "jsstring option"

text \<open>
  The texts of the source, one constructor for each template, with the values the
  template interpolates.
\<close>

datatype notice =
    AlreadyActive userId  \<comment> \<open>\<open><@id>, you already have an active session. Type "exit" to end it first.\<close>\<close>
  | NoSavedKey            \<comment> \<open>\<open>You have no saved OpenAI API key. Use /setkey first.\<close>\<close>
  | KeyUnreadable         \<comment> \<open>\<open>Failed to read your key. Please reset it with /setkey.\<close>\<close>
  | NoPromptFound         \<comment> \<open>\<open>No custom prompt found. Use /setprompt or provide one with /chat.\<close>\<close>
  | SystemPrompt jsstring \<comment> \<open>\<open>Custom system prompt: ... What would you like to ask?\<close>\<close>
  | SessionEnded          \<comment> \<open>\<open>Chat session ended.\<close>\<close>
  | Completion jsstring   \<comment> \<open>the content of the first choice of the response\<close>
  | NoResponse            \<comment> \<open>\<open>No response from OpenAI.\<close>\<close>
  | InvalidResponse       \<comment> \<open>\<open>Failed to get a valid response from OpenAI.\<close>\<close>
  | CommunicationError    \<comment> \<open>\<open>Error communicating with OpenAI API.\<close>\<close>
  | SessionExpired userId \<comment> \<open>\<open><@id>, your chat session has expired after 5 minutes. ...\<close>\<close>
  | PromptTooLong userId nat  \<comment> \<open>\<open><@id>, your prompt is too long ... n / 4000 characters\<close>\<close>
  | PromptSaved userId nat    \<comment> \<open>\<open><@id>, your custom prompt has been saved! ... n / 4000\<close>\<close>
  | PromptLimitIs userId  \<comment> \<open>\<open><@id>, your prompt can be up to 4000 characters.\<close>\<close>
  | KeySaved              \<comment> \<open>\<open>Your OpenAI API key has been saved securely!\<close>\<close>
  | PromptDeleted         \<comment> \<open>\<open>Your custom prompt was deleted.\<close>\<close>
  | NoPromptToDelete      \<comment> \<open>\<open>No custom prompt to delete.\<close>\<close>
  | KeyDeleted            \<comment> \<open>\<open>Your OpenAI API key was deleted.\<close>\<close>
  | NoKeyToDelete         \<comment> \<open>\<open>No OpenAI API key to delete.\<close>\<close>
  | CurrentSetup bool bool  \<comment> \<open>\<open>Your current setup: API key ..., Prompt ...\<close>\<close>
  | CommandList           \<comment> \<open>the text of \<open>/help\<close>\<close>
  | UnknownCommand        \<comment> \<open>\<open>Unknown command.\<close>\<close>
  | ErrorOccurred         \<comment> \<open>\<open>An error occurred.\<close>\<close>

datatype logline =
    SessionEndLog userId nat  \<comment> \<open>\<open>Chat session with id ended. Messages collected: n\<close>\<close>
  | DataSaved                 \<comment> \<open>\<open>User data saved successfully.\<close>\<close>
  | DataSaveFailed            \<comment> \<open>\<open>Failed to save user data: ...\<close>\<close>
  | PromptSavedLog userId nat \<comment> \<open>\<open>User id saved a new prompt. Character count: n\<close>\<close>
  | KeySavedLog userId        \<comment> \<open>\<open>User id saved an API key.\<close>\<close>
  | PromptDeletedLog userId   \<comment> \<open>\<open>User id deleted their prompt.\<close>\<close>
  | KeyDeletedLog userId      \<comment> \<open>\<open>User id deleted their API key.\<close>\<close>
  | CommandErrorLog error     \<comment> \<open>\<open>Error handling command ...\<close>\<close>

text \<open>
  What the bot does to the outside, in order: replies to an interaction (all of them
  ephemeral), the timer that deletes the reply, replies to a message, messages to a
  channel, the typing indicator, a request to the completion backend (the bearer key, the
  system message, the user message; model and \<open>max_tokens\<close> are constants) and lines of
  the log.
\<close>

datatype action =
    InteractionReply notice
  | DeleteReplyAfter nat
  | MessageReply notice
  | ChannelSend channelId notice
  | SendTyping channelId
  | Request jsstring jsstring jsstring
  | LogMessage logline

text \<open>
  A message collector with what its two listeners close over (\<open>userId\<close>, the channel,
  \<open>prompt\<close>, \<open>openaiKey\<close>), its collection \<open>collected\<close> and its flag \<open>ended\<close>.
\<close>

record collector =
  c_userId :: userId
  c_channelId :: channelId
  c_prompt :: jsstring
  c_openaiKey :: jsstring
  collected :: "jsstring list"
  ended :: bool

text \<open>
  The globals \<open>userData\<close> and \<open>ACTIVE_SESSIONS\<close>, the contents of the file
  \<open>user_data.json\<close>, the collectors created so far and the outputs so far.
\<close>

record bot =
  userData :: "userId \<rightharpoonup> user"
  DATA_FILE :: "userId \<rightharpoonup> user"
  ACTIVE_SESSIONS :: "userId set"
  collectors :: "collector list"
  outputs :: "action list"

definition emit :: "action list \<Rightarrow> bot \<Rightarrow> bot" where
  "emit os s = s\<lparr>outputs := outputs s @ os\<rparr>"

text \<open>
  A value in a condition: \<open>undefined\<close>, \<open>null\<close> and the empty string count as
  false. \<open>truthy v\<close> is the string when \<open>v\<close> counts as true.
\<close>

definition truthy :: "jsstring option \<Rightarrow> jsstring option" where
  "truthy v = (case v of None \<Rightarrow> None | Some x \<Rightarrow> if x = [] then None else Some x)"

definition get_user :: "bot \<Rightarrow> userId \<Rightarrow> user" where
  "get_user s userId =
     (case userData s userId of None \<Rightarrow> \<lparr>promptId = None, openaiKey = None\<rparr> | Some u \<Rightarrow> u)"

definition set_user :: "userId \<Rightarrow> user \<Rightarrow> bot \<Rightarrow> bot" where
  "set_user userId u s = s\<lparr>userData := (userData s)(userId \<mapsto> u)\<rparr>"

subsection \<open>Suspension at \<open>await saveUserData()\<close>\<close>

text \<open>
  A command handler runs without interruption up to its first \<open>await\<close>. The only
  \<open>await\<close> between a change of the state and a later change of the state is
  \<open>await saveUserData()\<close>: the handler has handed \<open>JSON.stringify(userData)\<close> to the file
  system and is resumed when the write has ended, and any other event may be handled
  in between. A suspended handler is the snapshot being written and what the handler does
  when it is resumed. The other \<open>await\<close>s wait for a reply or a channel to be delivered and
  are followed by outputs only; they are not modelled as suspensions.
\<close>

datatype rest =
    StartSession userId channelId jsstring jsstring
  | Outputs "action list"

datatype suspended = AwaitSave "userId \<rightharpoonup> user" rest

text \<open>The end of \<open>saveUserData\<close>, lines 72 to 77: \<open>written\<close> tells whether \<open>writeFile\<close> succeeded.\<close>

definition saveUserData_end :: "bool \<Rightarrow> (userId \<rightharpoonup> user) \<Rightarrow> bot \<Rightarrow> bot" where
  "saveUserData_end written snapshot s =
     (if written then emit [LogMessage DataSaved] (s\<lparr>DATA_FILE := snapshot\<rparr>)
      else emit [LogMessage DataSaveFailed] s)"

subsection \<open>The chat handler\<close>

text \<open>
  Lines 175 to 191 of \<open>handleChatCommand\<close>: the check of the prompt, the registration
  of the session, the announcement with its timer, and the collector.
\<close>

definition start_session :: "userId \<Rightarrow> channelId \<Rightarrow> jsstring option \<Rightarrow> jsstring \<Rightarrow> bot \<Rightarrow> bot" where
  "start_session userId channelId prompt key s =
     (case truthy prompt of
        None \<Rightarrow> emit [InteractionReply NoPromptFound] s
      | Some p \<Rightarrow>
          s\<lparr>ACTIVE_SESSIONS := insert userId (ACTIVE_SESSIONS s),
            outputs := outputs s @ [InteractionReply (SystemPrompt p), DeleteReplyAfter 60000],
            collectors := collectors s @
              [\<lparr>c_userId = userId, c_channelId = channelId, c_prompt = p,
                c_openaiKey = key, collected = [], ended = False\<rparr>]\<rparr>)"

text \<open>
  \<open>handleChatCommand\<close>, lines 143 to 173, up to the \<open>await saveUserData()\<close> of line 170
  when the command has a prompt, and to its end otherwise.
\<close>

definition handleChatCommand ::
  "jsstring \<Rightarrow> userId \<Rightarrow> channelId \<Rightarrow> jsstring option \<Rightarrow> bot \<Rightarrow> bot \<times> suspended option" where
  "handleChatCommand ENCRYPTION_KEY userId channelId prompt_id s =
     (if userId \<in> ACTIVE_SESSIONS s then (emit [InteractionReply (AlreadyActive userId)] s, None)
      else
        case truthy (case userData s userId of None \<Rightarrow> None | Some u \<Rightarrow> openaiKey u) of
          None \<Rightarrow> (emit [InteractionReply NoSavedKey] s, None)
        | Some encryptedKey \<Rightarrow>
            (case decrypt ENCRYPTION_KEY encryptedKey of
               Inl e \<Rightarrow> (emit [InteractionReply KeyUnreadable] s, None)
             | Inr key \<Rightarrow>
                 (case truthy prompt_id of
                    Some prompt \<Rightarrow>
                      (let s' = set_user userId ((get_user s userId)\<lparr>promptId := Some prompt\<rparr>) s
                       in (s', Some (AwaitSave (userData s')
                                      (StartSession userId channelId prompt key))))
                  | None \<Rightarrow>
                      (start_session userId channelId (promptId (get_user s userId)) key s,
                       None))))"

subsection \<open>The commands\<close>

datatype command =
    Chat "jsstring option"
  | SetPrompt jsstring
  | PromptLimit
  | SetKey jsstring
  | DeletePrompt
  | DeleteKey
  | Info
  | Help
  | Other

definition charLimit :: nat where
  "charLimit = 4000"

text \<open>
  The listener of \<open>interactionCreate\<close>, lines 251 to 350, for a chat input command of
  \<open>userId\<close> in \<open>channelId\<close>, up to the first \<open>await saveUserData()\<close>. Line 254 gives
  the user an empty entry first. The \<open>catch\<close> of line 346 is reached by \<open>setkey\<close> when
  \<open>encrypt\<close> throws.
\<close>

definition interactionCreate ::
  "jsstring \<Rightarrow> (nat \<Rightarrow> byte) \<Rightarrow> userId \<Rightarrow> channelId \<Rightarrow> command \<Rightarrow> bot
     \<Rightarrow> bot \<times> suspended option" where
  "interactionCreate ENCRYPTION_KEY rng userId channelId cmd s0 =
     (let s = set_user userId (get_user s0 userId) s0;
          u = get_user s userId
      in case cmd of
           SetPrompt prompt \<Rightarrow>
             (let charCount = length prompt
              in if charCount > charLimit then
                   (emit [InteractionReply (PromptTooLong userId charCount)] s, None)
                 else
                   (let s' = set_user userId (u\<lparr>promptId := Some prompt\<rparr>) s
                    in (s', Some (AwaitSave (userData s')
                                   (Outputs [LogMessage (PromptSavedLog userId charCount),
                                             InteractionReply (PromptSaved userId charCount)])))))
         | PromptLimit \<Rightarrow> (emit [InteractionReply (PromptLimitIs userId)] s, None)
         | SetKey openai_key \<Rightarrow>
             (case encrypt ENCRYPTION_KEY rng openai_key of
                Inl e \<Rightarrow> (emit [LogMessage (CommandErrorLog e), InteractionReply ErrorOccurred] s, None)
              | Inr token \<Rightarrow>
                  (let s' = set_user userId (u\<lparr>openaiKey := Some token\<rparr>) s
                   in (s', Some (AwaitSave (userData s')
                                  (Outputs [LogMessage (KeySavedLog userId),
                                            InteractionReply KeySaved])))))
         | DeletePrompt \<Rightarrow>
             (case truthy (promptId u) of
                Some p \<Rightarrow>
                  (let s' = set_user userId (u\<lparr>promptId := None\<rparr>) s
                   in (s', Some (AwaitSave (userData s')
                                  (Outputs [LogMessage (PromptDeletedLog userId),
                                            InteractionReply PromptDeleted]))))
              | None \<Rightarrow> (emit [InteractionReply NoPromptToDelete] s, None))
         | DeleteKey \<Rightarrow>
             (case truthy (openaiKey u) of
                Some k \<Rightarrow>
                  (let s' = set_user userId (u\<lparr>openaiKey := None\<rparr>) s
                   in (s', Some (AwaitSave (userData s')
                                  (Outputs [LogMessage (KeyDeletedLog userId),
                                            InteractionReply KeyDeleted]))))
              | None \<Rightarrow> (emit [InteractionReply NoKeyToDelete] s, None))
         | Info \<Rightarrow>
             (emit [InteractionReply (CurrentSetup (truthy (openaiKey u) \<noteq> None)
                                                  (truthy (promptId u) \<noteq> None))] s, None)
         | Help \<Rightarrow> (emit [InteractionReply CommandList] s, None)
         | Chat prompt_id \<Rightarrow> handleChatCommand ENCRYPTION_KEY userId channelId prompt_id s
         | Other \<Rightarrow> (emit [InteractionReply UnknownCommand] s, None))"

text \<open>A suspended handler is resumed when its write has ended.\<close>

fun resume :: "bool \<Rightarrow> suspended \<Rightarrow> bot \<Rightarrow> bot" where
  "resume written (AwaitSave snapshot (Outputs os)) s =
     emit os (saveUserData_end written snapshot s)"
| "resume written (AwaitSave snapshot (StartSession userId channelId prompt key)) s =
     start_session userId channelId (Some prompt) key (saveUserData_end written snapshot s)"

text \<open>A command handled to its end before anything else happens.\<close>

definition command_done ::
  "jsstring \<Rightarrow> (nat \<Rightarrow> byte) \<Rightarrow> bool \<Rightarrow> userId \<Rightarrow> channelId \<Rightarrow> command \<Rightarrow> bot \<Rightarrow> bot" where
  "command_done ENCRYPTION_KEY rng written userId channelId cmd s =
     (case interactionCreate ENCRYPTION_KEY rng userId channelId cmd s of
        (s', None) \<Rightarrow> s'
      | (s', Some k) \<Rightarrow> resume written k s')"

subsection \<open>The collector\<close>

definition toLowerCase :: "jsstring \<Rightarrow> jsstring" where
  "toLowerCase s = map (\<lambda>c. if 0x41 \<le> c \<and> c \<le> 0x5A then c + 0x20 else c) s"

text \<open>
  \<open>toLowerCase\<close> is written for the letters A to Z only. It is used for one test, the
  comparison with \<open>exit\<close> and \<open>stop\<close>, and no other character becomes a string of their
  letters.
\<close>

definition EXIT_WORDS :: "jsstring list" where
  "EXIT_WORDS = [[0x65, 0x78, 0x69, 0x74], [0x73, 0x74, 0x6F, 0x70]]"

text \<open>The listener of \<open>end\<close>, lines 243 to 247, of collector \<open>i\<close>. It is not given the reason.\<close>

definition on_end :: "nat \<Rightarrow> bot \<Rightarrow> bot" where
  "on_end i s =
     (let c = collectors s ! i
      in s\<lparr>ACTIVE_SESSIONS := ACTIVE_SESSIONS s - {c_userId c},
           outputs := outputs s @
             [LogMessage (SessionEndLog (c_userId c) (length (collected c))),
              ChannelSend (c_channelId c) (SessionExpired (c_userId c))]\<rparr>)"

text \<open>
  \<open>collector.stop(reason)\<close>: a collector ends once, and its \<open>end\<close> listener runs then.
  The reason is a string, \<open>user\<close> when \<open>stop\<close> is called without one and \<open>time\<close> when
  the timer of the collector calls it.
\<close>

definition stop :: "nat \<Rightarrow> string \<Rightarrow> bot \<Rightarrow> bot" where
  "stop i reason s =
     (if i < length (collectors s) \<and> \<not> ended (collectors s ! i) then
        on_end i (s\<lparr>collectors := (collectors s)[i := (collectors s ! i)\<lparr>ended := True\<rparr>]\<rparr>)
      else s)"

text \<open>The listener of \<open>collect\<close>, lines 193 to 241, of collector \<open>i\<close>, up to the request.\<close>

definition on_collect :: "nat \<Rightarrow> jsstring \<Rightarrow> bot \<Rightarrow> bot" where
  "on_collect i content s =
     (let c = collectors s ! i;
          userMsg = trim content
      in if toLowerCase userMsg \<in> set EXIT_WORDS then
           stop i ''user'' (emit [MessageReply SessionEnded] s)
         else
           emit [SendTyping (c_channelId c), Request (c_openaiKey c) (c_prompt c) userMsg] s)"

text \<open>
  A message for collector \<open>i\<close>: a collector that has not ended adds a message that passes
  its filter (line 190) to \<open>collected\<close> and calls the listener of \<open>collect\<close>.
\<close>

definition handleCollect :: "nat \<Rightarrow> userId \<Rightarrow> channelId \<Rightarrow> jsstring \<Rightarrow> bot \<Rightarrow> bot" where
  "handleCollect i author channelId content s =
     (let c = collectors s ! i
      in if i < length (collectors s) \<and> \<not> ended c \<and> author = c_userId c
            \<and> channelId = c_channelId c then
           on_collect i content
             (s\<lparr>collectors := (collectors s)[i := c\<lparr>collected := collected c @ [content]\<rparr>]\<rparr>)
         else s)"

text \<open>A message is offered to every collector, in the order of their creation.\<close>

definition messageCreate :: "userId \<Rightarrow> channelId \<Rightarrow> jsstring \<Rightarrow> bot \<Rightarrow> bot" where
  "messageCreate author channelId content s =
     fold (\<lambda>i. handleCollect i author channelId content) [0..<length (collectors s)] s"

text \<open>
  The end of a request, lines 221 to 237: the request failed (\<open>error\<close>), the response
  could not be read (\<open>JSON.parse\<close> or the access to the first choice threw), or it was
  read and \<open>choices[0].message.content\<close> is the value given, \<open>None\<close> when a link of the
  chain is missing. Each case is one reply and nothing else.
\<close>

datatype response = RequestError | Unparsable | Parsed "jsstring option"

definition on_response :: "response \<Rightarrow> bot \<Rightarrow> bot" where
  "on_response r s =
     emit [MessageReply
            (case r of
               RequestError \<Rightarrow> CommunicationError
             | Unparsable \<Rightarrow> InvalidResponse
             | Parsed content \<Rightarrow>
                 (case truthy content of None \<Rightarrow> NoResponse | Some reply \<Rightarrow> Completion reply))] s"

subsection \<open>Events\<close>

text \<open>
  What can happen to the bot: a command (with the randomness and the outcome of the write
  it may need), a message in a channel, the timer of collector \<open>i\<close> (\<open>time: 300000\<close>),
  the end of a request. \<open>step\<close> handles a command to its end; the two halves of a
  command, \<open>interactionCreate\<close> and \<open>resume\<close>, are used where other events come between
  them.
\<close>

datatype event =
    Command "nat \<Rightarrow> byte" bool userId channelId command
  | Message userId channelId jsstring
  | Timer nat
  | Response response

fun step :: "jsstring \<Rightarrow> event \<Rightarrow> bot \<Rightarrow> bot" where
  "step KEY (Command rng written userId channelId cmd) s =
     command_done KEY rng written userId channelId cmd s"
| "step KEY (Message author channelId content) s = messageCreate author channelId content s"
| "step KEY (Timer i) s = stop i ''time'' s"
| "step KEY (Response r) s = on_response r s"

definition run :: "jsstring \<Rightarrow> event list \<Rightarrow> bot \<Rightarrow> bot" where
  "run KEY evs s = fold (step KEY) evs s"

definition start :: "(userId \<rightharpoonup> user) \<Rightarrow> bot" where
  "start loaded =
     \<lparr>userData = loaded, DATA_FILE = loaded, ACTIVE_SESSIONS = {}, collectors = [], outputs = []\<rparr>"

text \<open>
  Two \<open>chat\<close> commands of one user, the second received while the first waits for its
  write: both run to their \<open>await\<close>, then the first is resumed, then the second.
\<close>

definition two_chats ::
  "jsstring \<Rightarrow> (nat \<Rightarrow> byte) \<Rightarrow> userId \<Rightarrow> channelId \<Rightarrow> jsstring option \<Rightarrow> jsstring option
     \<Rightarrow> bot \<Rightarrow> bot" where
  "two_chats KEY rng userId channelId first second s =
     (case interactionCreate KEY rng userId channelId (Chat first) s of
        (s1, k1) \<Rightarrow>
          (case interactionCreate KEY rng userId channelId (Chat second) s1 of
             (s2, k2) \<Rightarrow>
               (let s3 = (case k1 of None \<Rightarrow> s2 | Some k \<Rightarrow> resume True k s2)
                in case k2 of None \<Rightarrow> s3 | Some k \<Rightarrow> resume True k s3)))"

text \<open>The collectors of a user that have not ended.\<close>

definition live :: "bot \<Rightarrow> userId \<Rightarrow> collector list" where
  "live s userId = filter (\<lambda>c. c_userId c = userId \<and> \<not> ended c) (collectors s)"

definition stored_prompt :: "bot \<Rightarrow> userId \<Rightarrow> jsstring option" where
  "stored_prompt s userId = (case userData s userId of None \<Rightarrow> None | Some u \<Rightarrow> promptId u)"

definition stored_key :: "bot \<Rightarrow> userId \<Rightarrow> jsstring option" where
  "stored_key s userId = (case userData s userId of None \<Rightarrow> None | Some u \<Rightarrow> openaiKey u)"

section \<open>Notions used in the statements\<close>

text \<open>
  A user has at most one collector that has not ended, and is in \<open>ACTIVE_SESSIONS\<close>
  while there is one.
\<close>

definition one_session :: "bot \<Rightarrow> bool" where
  "one_session s = (\<forall>u. length (live s u) \<le> 1 \<and> (live s u \<noteq> [] \<longrightarrow> u \<in> ACTIVE_SESSIONS s))"

text \<open>The text of a token before its first colon, and the text after it.\<close>

definition nonce_part :: "jsstring \<Rightarrow> jsstring" where
  "nonce_part t = takeWhile (\<lambda>c. c \<noteq> COLON) t"

definition cipher_part :: "jsstring \<Rightarrow> jsstring" where
  "cipher_part t = tl (dropWhile (\<lambda>c. c \<noteq> COLON) t)"

text \<open>A Unicode scalar value: a code point that is not a surrogate.\<close>

definition scalar :: "nat \<Rightarrow> bool" where
  "scalar n = (n < 0x110000 \<and> \<not> (0xD800 \<le> n \<and> n \<le> 0xDFFF))"

text \<open>
  The string with U+FFFD in the place of every surrogate that is not half of a pair
  (\<open>String.prototype.toWellFormed\<close>).
\<close>

fun toWellFormed :: "jsstring \<Rightarrow> jsstring" where
  "toWellFormed [] = []"
| "toWellFormed [c] = (if is_lead c \<or> is_trail c then [REPLACEMENT] else [c])"
| "toWellFormed (c # d # cs) =
     (if is_lead c then
        (if is_trail d then c # d # toWellFormed cs else REPLACEMENT # toWellFormed (d # cs))
      else if is_trail c then REPLACEMENT # toWellFormed (d # cs)
      else c # toWellFormed (d # cs))"

text \<open>A string of characters that are one byte each in UTF-8.\<close>

definition ascii :: "jsstring \<Rightarrow> bool" where
  "ascii s = list_all (\<lambda>c. c < 0x80) s"

text \<open>
  The failures of \<open>decrypt\<close> as the specification lists them: fewer than two parts, a
  part that is not hexadecimal digits in pairs, or a cipher that was set up and rejects
  the data.
\<close>

definition hex_char :: "16 word \<Rightarrow> bool" where
  "hex_char c = (0x30 \<le> c \<and> c \<le> 0x39 \<or> 0x61 \<le> c \<and> c \<le> 0x66 \<or> 0x41 \<le> c \<and> c \<le> 0x46)"

definition hex_string :: "jsstring \<Rightarrow> bool" where
  "hex_string x = (even (length x) \<and> list_all hex_char x)"

definition cipher_rejects :: "jsstring \<Rightarrow> byte list \<Rightarrow> byte list \<Rightarrow> bool" where
  "cipher_rejects KEY iv ct =
     (case createDecipheriv (utf8_encode KEY) iv of
        Inl e \<Rightarrow> False
      | Inr (key, iv') \<Rightarrow> (case aes256cbc_decrypt key iv' ct of Inl e \<Rightarrow> True | Inr p \<Rightarrow> False))"

definition spec_decrypt_fails :: "jsstring \<Rightarrow> jsstring \<Rightarrow> bool" where
  "spec_decrypt_fails KEY t =
     (let parts = split_on COLON t
      in length parts < 2
         \<or> \<not> hex_string (hd parts)
         \<or> \<not> hex_string (join_with COLON (tl parts))
         \<or> cipher_rejects KEY (hex_decode (hd parts)) (hex_decode (join_with COLON (tl parts))))"

subsection \<open>Concrete values\<close>

text \<open>A key of 32 letters \<open>a\<close>, and a key of 31 letters \<open>a\<close> and one \<open>e\<close> with an acute accent.\<close>

definition KEY_A :: jsstring where
  "KEY_A = replicate 32 0x61"

definition KEY_ACCENT :: jsstring where
  "KEY_ACCENT = replicate 31 0x61 @ [0xE9]"

text \<open>A source of randomness: byte \<open>i\<close> is \<open>i\<close>.\<close>

definition rng_count :: "nat \<Rightarrow> byte" where
  "rng_count i = of_nat i"

text \<open>The strings \<open>sk-abc\<close>, \<open>hello\<close>, \<open>hi there\<close>, \<open>exit\<close>, \<open>U1\<close>, \<open>C1\<close> and \<open>be brief\<close>.\<close>

definition SK_ABC :: jsstring where
  "SK_ABC = [0x73, 0x6B, 0x2D, 0x61, 0x62, 0x63]"

definition HELLO :: jsstring where
  "HELLO = [0x68, 0x65, 0x6C, 0x6C, 0x6F]"

definition HI_THERE :: jsstring where
  "HI_THERE = [0x68, 0x69, 0x20, 0x74, 0x68, 0x65, 0x72, 0x65]"

definition EXIT :: jsstring where
  "EXIT = [0x65, 0x78, 0x69, 0x74]"

definition U1 :: userId where
  "U1 = [0x55, 0x31]"

definition C1 :: channelId where
  "C1 = [0x43, 0x31]"

definition BE_BRIEF :: jsstring where
  "BE_BRIEF = [0x62, 0x65, 0x20, 0x62, 0x72, 0x69, 0x65, 0x66]"

text \<open>The token \<open>ab:00000000000000000000000000000000\<close>, and the string \<open>abcd\<close>.\<close>

definition TOKEN_AB :: jsstring where
  "TOKEN_AB = [0x61, 0x62, 0x3A] @ replicate 32 0x30"

definition ABCD :: jsstring where
  "ABCD = [0x61, 0x62, 0x63, 0x64]"

text \<open>A prompt of 4001 letters \<open>a\<close>.\<close>

definition LONG_PROMPT :: jsstring where
  "LONG_PROMPT = replicate 4001 0x61"

text \<open>The key, the block and its encryption of FIPS 197, Appendix C.3.\<close>

definition FIPS_KEY :: "byte list" where
  "FIPS_KEY =
     [0x00, 0x01, 0x02, 0x03, 0x04, 0x05, 0x06, 0x07, 0x08, 0x09, 0x0A, 0x0B, 0x0C, 0x0D, 0x0E, 0x0F,
      0x10, 0x11, 0x12, 0x13, 0x14, 0x15, 0x16, 0x17, 0x18, 0x19, 0x1A, 0x1B, 0x1C, 0x1D, 0x1E, 0x1F]"

definition FIPS_PLAIN :: "byte list" where
  "FIPS_PLAIN =
     [0x00, 0x11, 0x22, 0x33, 0x44, 0x55, 0x66, 0x77, 0x88, 0x99, 0xAA, 0xBB, 0xCC, 0xDD, 0xEE, 0xFF]"

definition FIPS_CIPHER :: "byte list" where
  "FIPS_CIPHER =
     [0x8E, 0xA2, 0xB7, 0xCA, 0x51, 0x67, 0x45, 0xBF, 0xEA, 0xFC, 0x49, 0x90, 0x4B, 0x49, 0x60, 0x89]"

text \<open>The token that \<open>encrypt\<close> makes of \<open>sk-abc\<close> with \<open>KEY_A\<close> and \<open>rng_count\<close>.\<close>

definition TOKEN_SK :: jsstring where
  "TOKEN_SK =
     hex_encode (randomBytes rng_count 16) @ COLON #
     hex_encode (aes256cbc_encrypt (utf8_encode KEY_A) (randomBytes rng_count 16) (utf8_encode SK_ABC))"

text \<open>The same token followed by \<open>zz\<close>.\<close>

definition TOKEN_SK_ZZ :: jsstring where
  "TOKEN_SK_ZZ = TOKEN_SK @ [0x7A, 0x7A]"

text \<open>
  A string of 22 characters, 15 letters \<open>a\<close>, U+0001 and 6 letters \<open>a\<close>; the token
  \<open>000102030405060708090a0b0c0d0e0f:9b8ea89d20834d01ddfdd1bfd3cd15ea0e97b392ed80e85169fba96e1aa0a339\<close>;
  and that token with \<open>zz\<close> between the two blocks of its ciphertext.
\<close>

definition PLAIN_22 :: jsstring where
  "PLAIN_22 = replicate 15 0x61 @ [0x01] @ replicate 6 0x61"

definition TOKEN_22 :: jsstring where
  "TOKEN_22 =
     [0x30, 0x30, 0x30, 0x31, 0x30, 0x32, 0x30, 0x33, 0x30, 0x34, 0x30, 0x35, 0x30, 0x36, 0x30, 0x37,
      0x30, 0x38, 0x30, 0x39, 0x30, 0x61, 0x30, 0x62, 0x30, 0x63, 0x30, 0x64, 0x30, 0x65, 0x30, 0x66,
      0x3A, 0x39, 0x62, 0x38, 0x65, 0x61, 0x38, 0x39, 0x64, 0x32, 0x30, 0x38, 0x33, 0x34, 0x64, 0x30,
      0x31, 0x64, 0x64, 0x66, 0x64, 0x64, 0x31, 0x62, 0x66, 0x64, 0x33, 0x63, 0x64, 0x31, 0x35, 0x65,
      0x61, 0x30, 0x65, 0x39, 0x37, 0x62, 0x33, 0x39, 0x32, 0x65, 0x64, 0x38, 0x30, 0x65, 0x38, 0x35,
      0x31, 0x36, 0x39, 0x66, 0x62, 0x61, 0x39, 0x36, 0x65, 0x31, 0x61, 0x61, 0x30, 0x61, 0x33, 0x33,
      0x39]"

definition TOKEN_22_ZZ :: jsstring where
  "TOKEN_22_ZZ = take 65 TOKEN_22 @ [0x7A, 0x7A] @ drop 65 TOKEN_22"

text \<open>
  The token of \<open>sk-abc\<close> with U+3031 in the place of the digit \<open>1\<close> that its
  ciphertext starts with.
\<close>

definition TOKEN_SK_WIDE :: jsstring where
  "TOKEN_SK_WIDE = take 33 TOKEN_SK @ [0x3031] @ drop 34 TOKEN_SK"

text \<open>
  A bot started with no data, where \<open>U1\<close> has saved the key \<open>sk-abc\<close>; then has saved
  the prompt \<open>be brief\<close>; then has started a chat in channel \<open>C1\<close>.
\<close>

definition BOT_KEY :: bot where
  "BOT_KEY = run KEY_A [Command rng_count True U1 C1 (SetKey SK_ABC)] (start Map.empty)"

definition BOT_PROMPT :: bot where
  "BOT_PROMPT = run KEY_A [Command rng_count True U1 C1 (SetPrompt BE_BRIEF)] BOT_KEY"

definition BOT_CHAT :: bot where
  "BOT_CHAT = run KEY_A [Command rng_count True U1 C1 (Chat None)] BOT_PROMPT"

text \<open>Then \<open>U1\<close> has sent \<open>hello\<close> in \<open>C1\<close> and the backend has answered \<open>hi there\<close>.\<close>

definition BOT_HELLO :: bot where
  "BOT_HELLO = run KEY_A [Message U1 C1 HELLO, Response (Parsed (Some HI_THERE))] BOT_CHAT"

section \<open>The cipher is inverted by its inverse\<close>

lemma upt_256: "[0..<256] = 0 # 1 # [2..<256]"
  by (simp add: upt_conv_Cons numeral_2_eq_2)
lemmas sbox_eval =
  sbox_def [of "numeral k"] sbox_def [of 0] sbox_def [of 1]
  inv_sbox_def [of "numeral k"] inv_sbox_def [of 0] inv_sbox_def [of 1]
  SBOX_def [of "numeral k"] SBOX_def [of 0] SBOX_def [of "Suc 0"]
  INV_SBOX_def [of "numeral k"] INV_SBOX_def [of 0] INV_SBOX_def [of "Suc 0"]
  for k
lemma sbox_all: "list_all (\<lambda>n. inv_sbox (sbox (of_nat n)) = (of_nat n :: byte)) [0..<256]"
  unfolding upt_256
  by (simp add: sbox_eval)
lemma inv_sbox_sbox: "inv_sbox (sbox b) = b"
proof -
  have "unat b < 2 ^ LENGTH(8)" by (rule unsigned_less)
  then have "unat b \<in> set [0..<256]" by simp
  with sbox_all have "inv_sbox (sbox (of_nat (unat b))) = (of_nat (unat b) :: byte)"
    unfolding list_all_iff by blast
  then show ?thesis by simp
qed


lemma xtime_xor: "xtime (a XOR b) = xtime a XOR xtime b"
  by (simp add: xtime_def bit_xor_iff push_bit_xor ac_simps)

lemma xor_cancel: "(a::byte) XOR (a XOR b) = b"
  by (simp add: xor.assoc [symmetric])

lemma mix_col_inv:
  "mul14 (xtime a XOR mul3 b XOR c XOR d) XOR mul11 (xtime b XOR mul3 c XOR d XOR a)
     XOR mul13 (xtime c XOR mul3 d XOR a XOR b) XOR mul9 (xtime d XOR mul3 a XOR b XOR c) = a"
  by (simp add: mul3_def mul9_def mul11_def mul13_def mul14_def xtime_xor xor_cancel ac_simps)

lemma len16:
  "length st = 16 \<Longrightarrow> \<exists>a0 a1 a2 a3 a4 a5 a6 a7 a8 a9 a10 a11 a12 a13 a14 a15.
     st = [a0, a1, a2, a3, a4, a5, a6, a7, a8, a9, a10, a11, a12, a13, a14, a15]"
  by (auto simp: numeral_eq_Suc length_Suc_conv)

lemma upt_16: "[0..<16] = [0, 1, 2, 3, 4, 5, 6, 7, 8, 9, 10, 11, 12, 13, 14, 15]"
  by (simp add: upt_conv_Cons numeral_2_eq_2)

lemma inv_shift_rows_shift_rows: "length st = 16 \<Longrightarrow> inv_shift_rows (shift_rows st) = st"
  by (drule len16) (auto simp: shift_rows_def inv_shift_rows_def upt_16)

lemma xor_block_xor_block: "length a = 16 \<Longrightarrow> xor_block (xor_block a k) k = a"
  by (drule len16) (auto simp: xor_block_def upt_16 xor.assoc)

lemma inv_mix_columns_mix_columns: "length st = 16 \<Longrightarrow> inv_mix_columns (mix_columns st) = st"
  apply (drule len16)
  apply (auto simp: mix_columns_def inv_mix_columns_def col_def upt_16)
  apply (simp_all add: mul3_def mul9_def mul11_def mul13_def mul14_def xtime_xor xor_cancel ac_simps)
  done





lemma length_xor_block [simp]: "length (xor_block a b) = 16"
  by (simp add: xor_block_def)
lemma length_sub_bytes [simp]: "length (sub_bytes st) = length st"
  by (simp add: sub_bytes_def)
lemma length_shift_rows [simp]: "length (shift_rows st) = 16"
  by (simp add: shift_rows_def)
lemma length_mix_columns [simp]: "length (mix_columns st) = 16"
  by (simp add: mix_columns_def)
lemma length_aes_round [simp]: "length (aes_round k st) = 16"
  by (simp add: aes_round_def add_round_key_def)
lemma length_cipher [simp]: "length (cipher rks st) = 16"
  by (simp add: cipher_def final_round_def add_round_key_def)

lemma inv_sub_bytes_sub_bytes: "inv_sub_bytes (sub_bytes st) = st"
  by (simp add: inv_sub_bytes_def sub_bytes_def inv_sbox_sbox map_idI)

lemma inv_round_aes_round: "length st = 16 \<Longrightarrow> inv_round k (aes_round k st) = st"
  by (simp add: inv_round_def aes_round_def add_round_key_def xor_block_xor_block
      inv_mix_columns_mix_columns inv_shift_rows_shift_rows inv_sub_bytes_sub_bytes)

lemma inv_final_round_final_round: "length st = 16 \<Longrightarrow> inv_final_round k (final_round k st) = st"
  by (simp add: inv_final_round_def final_round_def add_round_key_def xor_block_xor_block
      inv_shift_rows_shift_rows inv_sub_bytes_sub_bytes)

lemma length_fold_aes_round: "length st = 16 \<Longrightarrow> length (fold aes_round ks st) = 16"
  by (induction ks arbitrary: st) simp_all

lemma fold_inv_round: "length st = 16 \<Longrightarrow> fold inv_round (rev ks) (fold aes_round ks st) = st"
proof (induction ks arbitrary: st)
  case Nil
  then show ?case by simp
next
  case (Cons k ks)
  have "fold inv_round (rev ks) (fold aes_round ks (aes_round k st)) = aes_round k st"
    by (rule Cons.IH) simp
  with Cons.prems show ?case by (simp add: inv_round_aes_round)
qed

lemma inv_cipher_cipher: "length st = 16 \<Longrightarrow> inv_cipher rks (cipher rks st) = st"
  by (simp add: inv_cipher_def cipher_def inv_final_round_final_round length_fold_aes_round
      fold_inv_round add_round_key_def xor_block_xor_block)

lemma cbc_dec_cbc_enc:
  "length iv = 16 \<Longrightarrow> \<forall>p \<in> set ps. length p = 16 \<Longrightarrow> cbc_dec rks iv (cbc_enc rks iv ps) = ps"
  by (induction ps arbitrary: iv) (simp_all add: Let_def inv_cipher_cipher xor_block_xor_block)

lemma length_cbc_enc: "\<forall>c \<in> set (cbc_enc rks iv ps). length c = 16"
  by (induction ps arbitrary: iv) (simp_all add: Let_def)

lemma length_cbc_enc2: "length (cbc_enc rks iv ps) = length ps"
  by (induction ps arbitrary: iv) (simp_all add: Let_def)

lemma concat_chunks: "concat (map (\<lambda>i. take k (drop (k * i) bs)) [0..<n]) = take (k * n) bs"
proof (induction n)
  case 0
  then show ?case by simp
next
  case (Suc n)
  have "take (k * Suc n) bs = take (k * n) bs @ take k (drop (k * n) bs)"
    using take_add [of "k * n" k bs] by (simp add: add.commute)
  with Suc show ?case by simp
qed

lemma concat_blocks: "length bs mod 16 = 0 \<Longrightarrow> concat (blocks bs) = bs"
proof -
  assume "length bs mod 16 = 0"
  then have "16 * (length bs div 16) = length bs" by presburger
  then show ?thesis by (simp add: blocks_def concat_chunks)
qed

lemma length_blocks: "\<forall>p \<in> set (blocks bs). length p = 16"
  by (auto simp: blocks_def)

lemma blocks_concat: "\<forall>p \<in> set ps. length p = 16 \<Longrightarrow> blocks (concat ps) = ps"
proof (induction ps)
  case Nil
  then show ?case by (simp add: blocks_def)
next
  case (Cons p ps)
  then have p: "length p = 16" and ih: "blocks (concat ps) = ps" by simp_all
  have "length (concat (p # ps)) div 16 = Suc (length (concat ps) div 16)"
    using p by simp
  then have "blocks (concat (p # ps)) =
      map (\<lambda>i. take 16 (drop (16 * i) (p @ concat ps))) [0..<Suc (length (concat ps) div 16)]"
    by (simp add: blocks_def)
  also have "\<dots> = p # map (\<lambda>i. take 16 (drop (16 * i) (concat ps))) [0..<length (concat ps) div 16]"
    using p by (simp add: upt_conv_Cons map_Suc_upt [symmetric] del: upt_Suc)
  also have "\<dots> = p # ps" using ih by (simp add: blocks_def)
  finally show ?case .
qed

lemma length_concat16: "\<forall>p \<in> set ps. length p = 16 \<Longrightarrow> length (concat ps) = 16 * length ps"
  by (induction ps) simp_all

lemma pad_len: "length (pkcs7_pad bs) mod 16 = 0"
proof -
  have "(length bs + (16 - length bs mod 16)) mod 16 = 0" by presburger
  then show ?thesis by (simp add: pkcs7_pad_def Let_def)
qed

lemma pad_nonempty: "pkcs7_pad bs \<noteq> []"
  by (simp add: pkcs7_pad_def Let_def)

lemma unpad_pad: "pkcs7_unpad (pkcs7_pad bs) = Inr bs"
proof -
  define n where "n = 16 - length bs mod 16"
  have n: "0 < n" "n \<le> 16" by (simp_all add: n_def)
  then have u: "unat (of_nat n :: byte) = n" by (simp add: unat_of_nat)
  have l: "last (bs @ replicate n (of_nat n :: byte)) = of_nat n" using n by simp
  show ?thesis
    unfolding pkcs7_pad_def pkcs7_unpad_def Let_def n_def [symmetric] l u
    using n by (simp add: list_all_iff u)
qed

lemma aes256cbc_roundtrip:
  assumes "length iv = 16"
  shows "aes256cbc_decrypt key iv (aes256cbc_encrypt key iv pt) = Inr pt"
proof -
  let ?ps = "blocks (pkcs7_pad pt)"
  let ?cs = "cbc_enc (key_expansion key) iv ?ps"
  have c16: "\<forall>c \<in> set ?cs. length c = 16" by (rule length_cbc_enc)
  have len: "length (concat ?cs) = 16 * length ?ps"
    using length_concat16 [OF c16] by (simp add: length_cbc_enc2)
  have "?ps \<noteq> []"
    using pad_nonempty [of pt] concat_blocks [OF pad_len, of pt] by auto
  then have "0 < length (concat ?cs)" using len by simp
  then have ne: "concat ?cs \<noteq> []" by fastforce
  have "cbc_dec (key_expansion key) iv (blocks (concat ?cs)) = ?ps"
    using assms by (simp add: blocks_concat [OF c16] cbc_dec_cbc_enc length_blocks)
  then show ?thesis
    using ne len by (simp add: aes256cbc_decrypt_def aes256cbc_encrypt_def concat_blocks pad_len unpad_pad)
qed


lemma unat16: "n < 65536 \<Longrightarrow> unat (of_nat n :: 16 word) = n"
  by (simp add: unat_of_nat)

lemma unat_hex_digit: "n < 16 \<Longrightarrow> unat (hex_digit n) = (if n < 10 then 0x30 + n else 0x57 + n)"
  unfolding hex_digit_def by (simp add: unat16 del: of_nat_add)

lemma unhex_hex_digit: "n < 16 \<Longrightarrow> unhex (hex_digit n) = Some n"
  by (simp add: unhex_def Let_def unat_hex_digit)

lemma hex_digit_not_colon: "n < 16 \<Longrightarrow> hex_digit n \<noteq> COLON"
proof
  assume n: "n < 16" and "hex_digit n = COLON"
  then have "unat (hex_digit n) = 0x3A" by (simp add: COLON_def)
  with n show False by (simp add: unat_hex_digit split: if_splits)
qed

lemma colon_notin_hex: "COLON \<notin> set (hex_encode bs)"
proof (induction bs)
  case Nil
  then show ?case by (simp add: hex_encode_def)
next
  case (Cons b bs)
  have "unat b < 256" using unsigned_less [of b, where 'a=nat] by simp
  then have "unat b div 16 < 16" "unat b mod 16 < 16" by simp_all
  then have "hex_digit (unat b div 16) \<noteq> COLON" "hex_digit (unat b mod 16) \<noteq> COLON"
    by (simp_all add: hex_digit_not_colon)
  with Cons show ?case by (auto simp: hex_encode_def)
qed


lemma hex_decode_hex_encode_append: "hex_decode (hex_encode bs @ r) = bs @ hex_decode r"
proof (induction bs)
  case Nil
  then show ?case by (simp add: hex_encode_def)
next
  case (Cons b bs)
  have "unat b < 256" using unsigned_less [of b, where 'a=nat] by simp
  then have d: "unat b div 16 < 16" by simp
  have m: "unat b mod 16 < 16" by simp
  have "(of_nat (unat b div 16 * 16 + unat b mod 16) :: byte) = b" by simp
  with Cons show ?case
    by (simp add: hex_encode_def unhex_hex_digit d m)
qed

lemma hex_decode_hex_encode: "hex_decode (hex_encode bs) = bs"
  using hex_decode_hex_encode_append [of bs "[]"] by simp

lemma length_hex_encode: "length (hex_encode bs) = 2 * length bs"
  by (induction bs) (simp_all add: hex_encode_def)

lemma split_on_no_sep: "c \<notin> set xs \<Longrightarrow> split_on c xs = [xs]"
  by (induction xs) auto

lemma split_on_first: "c \<notin> set xs \<Longrightarrow> split_on c (xs @ c # r) = xs # split_on c r"
  by (induction xs) auto

lemma split_on_nonempty: "split_on c xs \<noteq> []"
  by (induction xs) (auto split: list.splits)

lemma join_split: "join_with c (split_on c xs) = xs"
proof (induction xs)
  case Nil
  then show ?case by simp
next
  case (Cons x xs)
  then show ?case
    by (cases "split_on c xs"; cases "tl (split_on c xs)") (auto split: list.splits)
qed


lemma u8: "n < 256 \<Longrightarrow> unat (of_nat n :: byte) = n"
  by (simp add: unat_of_nat)

lemma dec1: "n < 0x80 \<Longrightarrow> utf8_decode (utf8_cp n @ bs) = utf16_cp n @ utf8_decode bs"
  by (simp add: utf8_cp_def utf16_cp_def u8)

lemma dec2:
  assumes "0x80 \<le> n" "n < 0x800"
  shows "utf8_decode (utf8_cp n @ bs) = utf16_cp n @ utf8_decode bs"
proof -
  define q where "q = n div 64"
  define r where "r = n mod 64"
  have n: "q * 64 + r = n" by (simp add: q_def r_def)
  have "r < 64" by (simp add: r_def)
  with n assms have qr: "2 \<le> q" "q \<le> 31" "r \<le> 63" by arith+
  have b0: "unat (of_nat (0xC0 + q) :: byte) = 0xC0 + q" using qr by (intro u8) simp
  have b1: "unat (of_nat (0x80 + r) :: byte) = 0x80 + r" using qr by (intro u8) simp
  have "utf8_cp n = [of_nat (0xC0 + q), of_nat (0x80 + r)]"
    using assms by (simp add: utf8_cp_def q_def r_def)
  then show ?thesis using qr
    by (simp add: b0 b1 between_def n del: of_nat_add)
qed

lemma dec3:
  assumes "0x800 \<le> n" "n < 0x10000" "\<not> (0xD800 \<le> n \<and> n \<le> 0xDFFF)"
  shows "utf8_decode (utf8_cp n @ bs) = utf16_cp n @ utf8_decode bs"
proof -
  define q2 where "q2 = n div 4096"
  define q1 where "q1 = n div 64 mod 64"
  define r where "r = n mod 64"
  have "n div 64 div 64 = q2" by (simp add: q2_def div_mult2_eq)
  then have "q2 * 64 + q1 = n div 64" using div_mult_mod_eq [of "n div 64" 64] by (simp add: q1_def)
  moreover have "n div 64 * 64 + r = n" by (simp add: r_def)
  ultimately have n: "q2 * 4096 + q1 * 64 + r = n" by arith
  have "q1 < 64" "r < 64" by (simp_all add: q1_def r_def)
  with n assms have qr: "q2 \<le> 15" "q1 \<le> 63" "r \<le> 63" "q2 = 0 \<longrightarrow> 32 \<le> q1"
      "q2 = 13 \<longrightarrow> q1 \<le> 31"
    by arith+
  have b0: "unat (of_nat (0xE0 + q2) :: byte) = 0xE0 + q2" using qr by (intro u8) simp
  have b1: "unat (of_nat (0x80 + q1) :: byte) = 0x80 + q1" using qr by (intro u8) simp
  have b2: "unat (of_nat (0x80 + r) :: byte) = 0x80 + r" using qr by (intro u8) simp
  have "utf8_cp n = [of_nat (0xE0 + q2), of_nat (0x80 + q1), of_nat (0x80 + r)]"
    using assms by (simp add: utf8_cp_def q2_def q1_def r_def)
  then show ?thesis using qr
    by (simp add: b0 b1 b2 between_def n del: of_nat_add)
qed

lemma dec4:
  assumes "0x10000 \<le> n" "n < 0x110000"
  shows "utf8_decode (utf8_cp n @ bs) = utf16_cp n @ utf8_decode bs"
proof -
  define q3 where "q3 = n div 262144"
  define q2 where "q2 = n div 4096 mod 64"
  define q1 where "q1 = n div 64 mod 64"
  define r where "r = n mod 64"
  have "n div 4096 div 64 = q3" by (simp add: q3_def div_mult2_eq)
  then have a: "q3 * 64 + q2 = n div 4096" using div_mult_mod_eq [of "n div 4096" 64] by (simp add: q2_def)
  have "n div 64 div 64 = n div 4096" by (simp add: div_mult2_eq)
  then have "n div 4096 * 64 + q1 = n div 64" using div_mult_mod_eq [of "n div 64" 64] by (simp add: q1_def)
  moreover have "n div 64 * 64 + r = n" by (simp add: r_def)
  ultimately have n: "q3 * 262144 + q2 * 4096 + q1 * 64 + r = n" using a by arith
  have "q2 < 64" "q1 < 64" "r < 64" by (simp_all add: q2_def q1_def r_def)
  with n assms have qr: "q3 \<le> 4" "q2 \<le> 63" "q1 \<le> 63" "r \<le> 63" "q3 = 0 \<longrightarrow> 16 \<le> q2"
      "q3 = 4 \<longrightarrow> q2 \<le> 15"
    by arith+
  have b0: "unat (of_nat (0xF0 + q3) :: byte) = 0xF0 + q3" using qr by (intro u8) simp
  have b1: "unat (of_nat (0x80 + q2) :: byte) = 0x80 + q2" using qr by (intro u8) simp
  have b2: "unat (of_nat (0x80 + q1) :: byte) = 0x80 + q1" using qr by (intro u8) simp
  have b3: "unat (of_nat (0x80 + r) :: byte) = 0x80 + r" using qr by (intro u8) simp
  have "utf8_cp n = [of_nat (0xF0 + q3), of_nat (0x80 + q2), of_nat (0x80 + q1), of_nat (0x80 + r)]"
    using assms by (simp add: utf8_cp_def q3_def q2_def q1_def r_def)
  then show ?thesis using qr
    by (simp add: b0 b1 b2 b3 between_def n del: of_nat_add)
qed

lemma utf8_decode_cp:
  "scalar n \<Longrightarrow> utf8_decode (utf8_cp n @ bs) = utf16_cp n @ utf8_decode bs"
  unfolding scalar_def
  using dec1 [of n bs] dec2 [of n bs] dec3 [of n bs] dec4 [of n bs]
  by (cases "n < 0x80"; cases "n < 0x800"; cases "n < 0x10000") auto

lemma unat_lt_65536: "unat (c :: 16 word) < 65536"
  using unsigned_less [of c, where 'a=nat] by simp

lemma utf16_cp_unit: "utf16_cp (unat c) = [c]"
  by (simp add: utf16_cp_def unat_lt_65536)

lemma scalar_unit: "\<not> is_lead c \<Longrightarrow> \<not> is_trail c \<Longrightarrow> scalar (unat c)"
  using unat_lt_65536 [of c]
  by (auto simp: scalar_def is_lead_def is_trail_def word_le_nat_alt)

lemma pair:
  assumes "is_lead c" "is_trail d"
  shows "scalar (0x10000 + (unat c - 0xD800) * 1024 + (unat d - 0xDC00))"
    and "utf16_cp (0x10000 + (unat c - 0xD800) * 1024 + (unat d - 0xDC00)) = [c, d]"
proof -
  define h where "h = unat c - 0xD800"
  define l where "l = unat d - 0xDC00"
  have c: "0xD800 + h = unat c" and h: "h < 1024"
    using assms(1) by (auto simp: h_def is_lead_def word_le_nat_alt)
  have d: "0xDC00 + l = unat d" and l: "l < 1024"
    using assms(2) by (auto simp: l_def is_trail_def word_le_nat_alt)
  show "scalar (0x10000 + (unat c - 0xD800) * 1024 + (unat d - 0xDC00))"
    using h l unfolding h_def [symmetric] l_def [symmetric] scalar_def by simp
  have "(h * 1024 + l) div 1024 = h" "(h * 1024 + l) mod 1024 = l" using l by simp_all
  then show "utf16_cp (0x10000 + (unat c - 0xD800) * 1024 + (unat d - 0xDC00)) = [c, d]"
    unfolding h_def [symmetric] l_def [symmetric] utf16_cp_def
    by (simp add: c d del: of_nat_add)
qed

lemma utf8_roundtrip: "well_formed s \<Longrightarrow> utf8_decode (utf8_encode s) = s"
proof (induction s rule: utf8_encode.induct)
  case 1
  then show ?case by simp
next
  case (2 c)
  then show ?case
    using utf8_decode_cp [OF scalar_unit, of c "[]"] by (simp add: utf16_cp_unit)
next
  case (3 c d cs)
  show ?case
  proof (cases "is_lead c")
    case True
    with "3.prems" have t: "is_trail d" and w: "well_formed cs" by simp_all
    from "3.IH"(1) [OF True t w] show ?thesis
      using True t by (simp add: utf8_decode_cp pair)
  next
    case False
    with "3.prems" have t: "\<not> is_trail c" and w: "well_formed (d # cs)" by simp_all
    from "3.IH"(4) [OF False t w] show ?thesis
      using False t by (simp add: utf8_decode_cp scalar_unit utf16_cp_unit)
  qed
qed

text \<open>Decoding what was encoded replaces the surrogates that are not half of a pair.\<close>

lemma utf8_decode_replacement:
  "utf8_decode (utf8_cp 0xFFFD @ bs) = REPLACEMENT # utf8_decode bs"
proof -
  have "scalar 0xFFFD" by (simp add: scalar_def)
  from utf8_decode_cp [OF this, of bs] show ?thesis
    by (simp add: utf16_cp_def REPLACEMENT_def)
qed

lemma utf8_decode_encode: "utf8_decode (utf8_encode s) = toWellFormed s"
proof (induction s rule: utf8_encode.induct)
  case 1
  then show ?case by simp
next
  case (2 c)
  then show ?case
    using utf8_decode_cp [OF scalar_unit, of c "[]"] utf8_decode_replacement [of "[]"]
    by (simp add: utf16_cp_unit)
next
  case (3 c d cs)
  show ?case
  proof (cases "is_lead c")
    case True
    show ?thesis
    proof (cases "is_trail d")
      case t: True
      from "3.IH"(1) [OF True t] show ?thesis
        using True t by (simp add: utf8_decode_cp pair)
    next
      case f: False
      from "3.IH"(2) [OF True f] show ?thesis
        using True f by (simp add: utf8_decode_replacement)
    qed
  next
    case False
    show ?thesis
    proof (cases "is_trail c")
      case t: True
      from "3.IH"(3) [OF False t] show ?thesis
        using False t by (simp add: utf8_decode_replacement)
    next
      case f: False
      from "3.IH"(4) [OF False f] show ?thesis
        using False f by (simp add: utf8_decode_cp scalar_unit utf16_cp_unit)
    qed
  qed
qed

lemma toWellFormed_id: "well_formed s \<Longrightarrow> toWellFormed s = s"
  by (induction s rule: well_formed.induct) (auto split: if_splits)

section \<open>Test vectors\<close>

text \<open>The steps of a round on a state written out, for evaluation.\<close>

lemma upt_4: "[0..<4] = [0, 1, 2, 3]"
  by (simp add: upt_conv_Cons numeral_2_eq_2)

lemma upt_8: "[0..<8] = [0, 1, 2, 3, 4, 5, 6, 7]"
  by (simp add: upt_conv_Cons numeral_2_eq_2)

lemma upt_15: "[0..<15] = [0, 1, 2, 3, 4, 5, 6, 7, 8, 9, 10, 11, 12, 13, 14]"
  by (simp add: upt_conv_Cons numeral_2_eq_2)

lemma expand_numeral:
  "expand (numeral k) i ws = expand (pred_numeral k) (Suc i) (next_word i ws # ws)"
  by (simp add: numeral_eq_Suc)

lemma replicate_numeral: "replicate (numeral k) x = x # replicate (pred_numeral k) x"
  by (simp add: numeral_eq_Suc)

lemma shift_rows_16:
  "shift_rows [a0, a1, a2, a3, a4, a5, a6, a7, a8, a9, a10, a11, a12, a13, a14, a15] =
     [a0, a5, a10, a15, a4, a9, a14, a3, a8, a13, a2, a7, a12, a1, a6, a11]"
  by (simp add: shift_rows_def upt_16)

lemma mix_columns_16:
  "mix_columns [a0, a1, a2, a3, a4, a5, a6, a7, a8, a9, a10, a11, a12, a13, a14, a15] =
     [xtime a0 XOR mul3 a1 XOR a2 XOR a3,
      xtime a1 XOR mul3 a2 XOR a3 XOR a0,
      xtime a2 XOR mul3 a3 XOR a0 XOR a1,
      xtime a3 XOR mul3 a0 XOR a1 XOR a2,
      xtime a4 XOR mul3 a5 XOR a6 XOR a7,
      xtime a5 XOR mul3 a6 XOR a7 XOR a4,
      xtime a6 XOR mul3 a7 XOR a4 XOR a5,
      xtime a7 XOR mul3 a4 XOR a5 XOR a6,
      xtime a8 XOR mul3 a9 XOR a10 XOR a11,
      xtime a9 XOR mul3 a10 XOR a11 XOR a8,
      xtime a10 XOR mul3 a11 XOR a8 XOR a9,
      xtime a11 XOR mul3 a8 XOR a9 XOR a10,
      xtime a12 XOR mul3 a13 XOR a14 XOR a15,
      xtime a13 XOR mul3 a14 XOR a15 XOR a12,
      xtime a14 XOR mul3 a15 XOR a12 XOR a13,
      xtime a15 XOR mul3 a12 XOR a13 XOR a14]"
  by (simp add: mix_columns_def col_def upt_16)

lemma xor_block_16:
  "xor_block [a0, a1, a2, a3, a4, a5, a6, a7, a8, a9, a10, a11, a12, a13, a14, a15]
     [b0, b1, b2, b3, b4, b5, b6, b7, b8, b9, b10, b11, b12, b13, b14, b15] =
     [a0 XOR b0, a1 XOR b1, a2 XOR b2, a3 XOR b3, a4 XOR b4, a5 XOR b5, a6 XOR b6, a7 XOR b7, a8 XOR b8, a9 XOR b9, a10 XOR b10, a11 XOR b11, a12 XOR b12, a13 XOR b13, a14 XOR b14, a15 XOR b15]"
  by (simp add: xor_block_def upt_16)

lemmas key_eval = key_expansion_def expand_numeral next_word_def Let_def xor_word_def upt_4 upt_8
  upt_15 sbox_eval RCON_def

lemmas aes_eval = aes_round_def final_round_def add_round_key_def sub_bytes_def shift_rows_16
  mix_columns_16 xor_block_16 sbox_eval xtime_def mul3_def

text \<open>The example vector of FIPS 197, Appendix C.3, round by round.\<close>

lemma fips_keys:
  "key_expansion FIPS_KEY =
    [[0x00, 0x01, 0x02, 0x03, 0x04, 0x05, 0x06, 0x07, 0x08, 0x09, 0x0A, 0x0B, 0x0C, 0x0D, 0x0E, 0x0F],
     [0x10, 0x11, 0x12, 0x13, 0x14, 0x15, 0x16, 0x17, 0x18, 0x19, 0x1A, 0x1B, 0x1C, 0x1D, 0x1E, 0x1F],
     [0xA5, 0x73, 0xC2, 0x9F, 0xA1, 0x76, 0xC4, 0x98, 0xA9, 0x7F, 0xCE, 0x93, 0xA5, 0x72, 0xC0, 0x9C],
     [0x16, 0x51, 0xA8, 0xCD, 0x02, 0x44, 0xBE, 0xDA, 0x1A, 0x5D, 0xA4, 0xC1, 0x06, 0x40, 0xBA, 0xDE],
     [0xAE, 0x87, 0xDF, 0xF0, 0x0F, 0xF1, 0x1B, 0x68, 0xA6, 0x8E, 0xD5, 0xFB, 0x03, 0xFC, 0x15, 0x67],
     [0x6D, 0xE1, 0xF1, 0x48, 0x6F, 0xA5, 0x4F, 0x92, 0x75, 0xF8, 0xEB, 0x53, 0x73, 0xB8, 0x51, 0x8D],
     [0xC6, 0x56, 0x82, 0x7F, 0xC9, 0xA7, 0x99, 0x17, 0x6F, 0x29, 0x4C, 0xEC, 0x6C, 0xD5, 0x59, 0x8B],
     [0x3D, 0xE2, 0x3A, 0x75, 0x52, 0x47, 0x75, 0xE7, 0x27, 0xBF, 0x9E, 0xB4, 0x54, 0x07, 0xCF, 0x39],
     [0x0B, 0xDC, 0x90, 0x5F, 0xC2, 0x7B, 0x09, 0x48, 0xAD, 0x52, 0x45, 0xA4, 0xC1, 0x87, 0x1C, 0x2F],
     [0x45, 0xF5, 0xA6, 0x60, 0x17, 0xB2, 0xD3, 0x87, 0x30, 0x0D, 0x4D, 0x33, 0x64, 0x0A, 0x82, 0x0A],
     [0x7C, 0xCF, 0xF7, 0x1C, 0xBE, 0xB4, 0xFE, 0x54, 0x13, 0xE6, 0xBB, 0xF0, 0xD2, 0x61, 0xA7, 0xDF],
     [0xF0, 0x1A, 0xFA, 0xFE, 0xE7, 0xA8, 0x29, 0x79, 0xD7, 0xA5, 0x64, 0x4A, 0xB3, 0xAF, 0xE6, 0x40],
     [0x25, 0x41, 0xFE, 0x71, 0x9B, 0xF5, 0x00, 0x25, 0x88, 0x13, 0xBB, 0xD5, 0x5A, 0x72, 0x1C, 0x0A],
     [0x4E, 0x5A, 0x66, 0x99, 0xA9, 0xF2, 0x4F, 0xE0, 0x7E, 0x57, 0x2B, 0xAA, 0xCD, 0xF8, 0xCD, 0xEA],
     [0x24, 0xFC, 0x79, 0xCC, 0xBF, 0x09, 0x79, 0xE9, 0x37, 0x1A, 0xC2, 0x3C, 0x6D, 0x68, 0xDE, 0x36]]"
  by (simp add: FIPS_KEY_def key_eval)

lemma fips_round_0:
  "add_round_key [0x00, 0x01, 0x02, 0x03, 0x04, 0x05, 0x06, 0x07, 0x08, 0x09, 0x0A, 0x0B, 0x0C, 0x0D, 0x0E, 0x0F]
     FIPS_PLAIN =
     [0x00, 0x10, 0x20, 0x30, 0x40, 0x50, 0x60, 0x70, 0x80, 0x90, 0xA0, 0xB0, 0xC0, 0xD0, 0xE0, 0xF0]"
  by (simp add: FIPS_PLAIN_def aes_eval)

lemma fips_round_1:
  "aes_round [0x10, 0x11, 0x12, 0x13, 0x14, 0x15, 0x16, 0x17, 0x18, 0x19, 0x1A, 0x1B, 0x1C, 0x1D, 0x1E, 0x1F]
     [0x00, 0x10, 0x20, 0x30, 0x40, 0x50, 0x60, 0x70, 0x80, 0x90, 0xA0, 0xB0, 0xC0, 0xD0, 0xE0, 0xF0] =
     [0x4F, 0x63, 0x76, 0x06, 0x43, 0xE0, 0xAA, 0x85, 0xEF, 0xA7, 0x21, 0x32, 0x01, 0xA4, 0xE7, 0x05]"
  by (simp add: aes_eval)

lemma fips_round_2:
  "aes_round [0xA5, 0x73, 0xC2, 0x9F, 0xA1, 0x76, 0xC4, 0x98, 0xA9, 0x7F, 0xCE, 0x93, 0xA5, 0x72, 0xC0, 0x9C]
     [0x4F, 0x63, 0x76, 0x06, 0x43, 0xE0, 0xAA, 0x85, 0xEF, 0xA7, 0x21, 0x32, 0x01, 0xA4, 0xE7, 0x05] =
     [0x18, 0x59, 0xFB, 0xC2, 0x8A, 0x1C, 0x00, 0xA0, 0x78, 0xED, 0x8A, 0xAD, 0xC4, 0x2F, 0x61, 0x09]"
  by (simp add: aes_eval)

lemma fips_round_3:
  "aes_round [0x16, 0x51, 0xA8, 0xCD, 0x02, 0x44, 0xBE, 0xDA, 0x1A, 0x5D, 0xA4, 0xC1, 0x06, 0x40, 0xBA, 0xDE]
     [0x18, 0x59, 0xFB, 0xC2, 0x8A, 0x1C, 0x00, 0xA0, 0x78, 0xED, 0x8A, 0xAD, 0xC4, 0x2F, 0x61, 0x09] =
     [0x97, 0x5C, 0x66, 0xC1, 0xCB, 0x9F, 0x3F, 0xA8, 0xA9, 0x3A, 0x28, 0xDF, 0x8E, 0xE1, 0x0F, 0x63]"
  by (simp add: aes_eval)

lemma fips_round_4:
  "aes_round [0xAE, 0x87, 0xDF, 0xF0, 0x0F, 0xF1, 0x1B, 0x68, 0xA6, 0x8E, 0xD5, 0xFB, 0x03, 0xFC, 0x15, 0x67]
     [0x97, 0x5C, 0x66, 0xC1, 0xCB, 0x9F, 0x3F, 0xA8, 0xA9, 0x3A, 0x28, 0xDF, 0x8E, 0xE1, 0x0F, 0x63] =
     [0x1C, 0x05, 0xF2, 0x71, 0xA4, 0x17, 0xE0, 0x4F, 0xF9, 0x21, 0xC5, 0xC1, 0x04, 0x70, 0x15, 0x54]"
  by (simp add: aes_eval)

lemma fips_round_5:
  "aes_round [0x6D, 0xE1, 0xF1, 0x48, 0x6F, 0xA5, 0x4F, 0x92, 0x75, 0xF8, 0xEB, 0x53, 0x73, 0xB8, 0x51, 0x8D]
     [0x1C, 0x05, 0xF2, 0x71, 0xA4, 0x17, 0xE0, 0x4F, 0xF9, 0x21, 0xC5, 0xC1, 0x04, 0x70, 0x15, 0x54] =
     [0xC3, 0x57, 0xAA, 0xE1, 0x1B, 0x45, 0xB7, 0xB0, 0xA2, 0xC7, 0xBD, 0x28, 0xA8, 0xDC, 0x99, 0xFA]"
  by (simp add: aes_eval)

lemma fips_round_6:
  "aes_round [0xC6, 0x56, 0x82, 0x7F, 0xC9, 0xA7, 0x99, 0x17, 0x6F, 0x29, 0x4C, 0xEC, 0x6C, 0xD5, 0x59, 0x8B]
     [0xC3, 0x57, 0xAA, 0xE1, 0x1B, 0x45, 0xB7, 0xB0, 0xA2, 0xC7, 0xBD, 0x28, 0xA8, 0xDC, 0x99, 0xFA] =
     [0x7F, 0x07, 0x41, 0x43, 0xCB, 0x4E, 0x24, 0x3E, 0xC1, 0x0C, 0x81, 0x5D, 0x83, 0x75, 0xD5, 0x4C]"
  by (simp add: aes_eval)

lemma fips_round_7:
  "aes_round [0x3D, 0xE2, 0x3A, 0x75, 0x52, 0x47, 0x75, 0xE7, 0x27, 0xBF, 0x9E, 0xB4, 0x54, 0x07, 0xCF, 0x39]
     [0x7F, 0x07, 0x41, 0x43, 0xCB, 0x4E, 0x24, 0x3E, 0xC1, 0x0C, 0x81, 0x5D, 0x83, 0x75, 0xD5, 0x4C] =
     [0xD6, 0x53, 0xA4, 0x69, 0x6C, 0xA0, 0xBC, 0x0F, 0x5A, 0xCA, 0xAB, 0x5D, 0xB9, 0x6C, 0x5E, 0x7D]"
  by (simp add: aes_eval)

lemma fips_round_8:
  "aes_round [0x0B, 0xDC, 0x90, 0x5F, 0xC2, 0x7B, 0x09, 0x48, 0xAD, 0x52, 0x45, 0xA4, 0xC1, 0x87, 0x1C, 0x2F]
     [0xD6, 0x53, 0xA4, 0x69, 0x6C, 0xA0, 0xBC, 0x0F, 0x5A, 0xCA, 0xAB, 0x5D, 0xB9, 0x6C, 0x5E, 0x7D] =
     [0x5A, 0xA8, 0x58, 0x39, 0x5F, 0xD2, 0x8D, 0x7D, 0x05, 0xE1, 0xA3, 0x88, 0x68, 0xF3, 0xB9, 0xC5]"
  by (simp add: aes_eval)

lemma fips_round_9:
  "aes_round [0x45, 0xF5, 0xA6, 0x60, 0x17, 0xB2, 0xD3, 0x87, 0x30, 0x0D, 0x4D, 0x33, 0x64, 0x0A, 0x82, 0x0A]
     [0x5A, 0xA8, 0x58, 0x39, 0x5F, 0xD2, 0x8D, 0x7D, 0x05, 0xE1, 0xA3, 0x88, 0x68, 0xF3, 0xB9, 0xC5] =
     [0x4A, 0x82, 0x48, 0x51, 0xC5, 0x7E, 0x7E, 0x47, 0x64, 0x3D, 0xE5, 0x0C, 0x2A, 0xF3, 0xE8, 0xC9]"
  by (simp add: aes_eval)

lemma fips_round_10:
  "aes_round [0x7C, 0xCF, 0xF7, 0x1C, 0xBE, 0xB4, 0xFE, 0x54, 0x13, 0xE6, 0xBB, 0xF0, 0xD2, 0x61, 0xA7, 0xDF]
     [0x4A, 0x82, 0x48, 0x51, 0xC5, 0x7E, 0x7E, 0x47, 0x64, 0x3D, 0xE5, 0x0C, 0x2A, 0xF3, 0xE8, 0xC9] =
     [0xC1, 0x49, 0x07, 0xF6, 0xCA, 0x3B, 0x3A, 0xA0, 0x70, 0xE9, 0xAA, 0x31, 0x3B, 0x52, 0xB5, 0xEC]"
  by (simp add: aes_eval)

lemma fips_round_11:
  "aes_round [0xF0, 0x1A, 0xFA, 0xFE, 0xE7, 0xA8, 0x29, 0x79, 0xD7, 0xA5, 0x64, 0x4A, 0xB3, 0xAF, 0xE6, 0x40]
     [0xC1, 0x49, 0x07, 0xF6, 0xCA, 0x3B, 0x3A, 0xA0, 0x70, 0xE9, 0xAA, 0x31, 0x3B, 0x52, 0xB5, 0xEC] =
     [0x5F, 0x9C, 0x6A, 0xBF, 0xBA, 0xC6, 0x34, 0xAA, 0x50, 0x40, 0x9F, 0xA7, 0x66, 0x67, 0x76, 0x53]"
  by (simp add: aes_eval)

lemma fips_round_12:
  "aes_round [0x25, 0x41, 0xFE, 0x71, 0x9B, 0xF5, 0x00, 0x25, 0x88, 0x13, 0xBB, 0xD5, 0x5A, 0x72, 0x1C, 0x0A]
     [0x5F, 0x9C, 0x6A, 0xBF, 0xBA, 0xC6, 0x34, 0xAA, 0x50, 0x40, 0x9F, 0xA7, 0x66, 0x67, 0x76, 0x53] =
     [0x51, 0x66, 0x04, 0x95, 0x43, 0x53, 0x95, 0x03, 0x14, 0xFB, 0x86, 0xE4, 0x01, 0x92, 0x25, 0x21]"
  by (simp add: aes_eval)

lemma fips_round_13:
  "aes_round [0x4E, 0x5A, 0x66, 0x99, 0xA9, 0xF2, 0x4F, 0xE0, 0x7E, 0x57, 0x2B, 0xAA, 0xCD, 0xF8, 0xCD, 0xEA]
     [0x51, 0x66, 0x04, 0x95, 0x43, 0x53, 0x95, 0x03, 0x14, 0xFB, 0x86, 0xE4, 0x01, 0x92, 0x25, 0x21] =
     [0x62, 0x7B, 0xCE, 0xB9, 0x99, 0x9D, 0x5A, 0xAA, 0xC9, 0x45, 0xEC, 0xF4, 0x23, 0xF5, 0x6D, 0xA5]"
  by (simp add: aes_eval)

lemma fips_round_14:
  "final_round [0x24, 0xFC, 0x79, 0xCC, 0xBF, 0x09, 0x79, 0xE9, 0x37, 0x1A, 0xC2, 0x3C, 0x6D, 0x68, 0xDE, 0x36]
     [0x62, 0x7B, 0xCE, 0xB9, 0x99, 0x9D, 0x5A, 0xAA, 0xC9, 0x45, 0xEC, 0xF4, 0x23, 0xF5, 0x6D, 0xA5] =
     [0x8E, 0xA2, 0xB7, 0xCA, 0x51, 0x67, 0x45, 0xBF, 0xEA, 0xFC, 0x49, 0x90, 0x4B, 0x49, 0x60, 0x89]"
  by (simp add: aes_eval)

lemmas fips_rounds =
  fips_round_0 fips_round_1 fips_round_2 fips_round_3 fips_round_4
  fips_round_5 fips_round_6 fips_round_7 fips_round_8 fips_round_9
  fips_round_10 fips_round_11 fips_round_12 fips_round_13 fips_round_14

text \<open>
  The cipher on the example of FIPS 197, Appendix C.3: the key \<open>00 01 ... 1f\<close> takes the
  block \<open>00 11 ... ff\<close> to \<open>8e a2 b7 ca 51 67 45 bf ea fc 49 90 4b 49 60 89\<close>, and the
  inverse cipher takes it back.
\<close>

theorem fips_197_c3:
  "cipher (key_expansion FIPS_KEY) FIPS_PLAIN = FIPS_CIPHER"
  "inv_cipher (key_expansion FIPS_KEY) FIPS_CIPHER = FIPS_PLAIN"
proof -
  show c: "cipher (key_expansion FIPS_KEY) FIPS_PLAIN = FIPS_CIPHER"
    unfolding fips_keys cipher_def by (simp add: fips_rounds FIPS_CIPHER_def)
  have "length FIPS_PLAIN = 16" by (simp add: FIPS_PLAIN_def)
  from inv_cipher_cipher [OF this, of "key_expansion FIPS_KEY"] show
    "inv_cipher (key_expansion FIPS_KEY) FIPS_CIPHER = FIPS_PLAIN"
    by (simp add: c)
qed

lemma utf8_encode_KEY_A:
  "utf8_encode KEY_A =
     [0x61, 0x61, 0x61, 0x61, 0x61, 0x61, 0x61, 0x61, 0x61, 0x61, 0x61, 0x61, 0x61, 0x61, 0x61, 0x61, 0x61, 0x61, 0x61, 0x61, 0x61, 0x61, 0x61, 0x61, 0x61, 0x61, 0x61, 0x61, 0x61, 0x61, 0x61, 0x61]"
  by (simp add: KEY_A_def replicate_numeral is_lead_def is_trail_def utf8_cp_def)

lemma utf8_encode_SK_ABC: "utf8_encode SK_ABC = [0x73, 0x6B, 0x2D, 0x61, 0x62, 0x63]"
  by (simp add: SK_ABC_def is_lead_def is_trail_def utf8_cp_def)

lemma randomBytes_count:
  "randomBytes rng_count 16 = [0x00, 0x01, 0x02, 0x03, 0x04, 0x05, 0x06, 0x07, 0x08, 0x09, 0x0A, 0x0B, 0x0C, 0x0D, 0x0E, 0x0F]"
  by (simp add: randomBytes_def rng_count_def upt_16)

text \<open>The block of \<open>sk-abc\<close> under the key of 32 letters \<open>a\<close>, round by round.\<close>

lemma sk_keys:
  "key_expansion (utf8_encode KEY_A) =
    [[0x61, 0x61, 0x61, 0x61, 0x61, 0x61, 0x61, 0x61, 0x61, 0x61, 0x61, 0x61, 0x61, 0x61, 0x61, 0x61],
     [0x61, 0x61, 0x61, 0x61, 0x61, 0x61, 0x61, 0x61, 0x61, 0x61, 0x61, 0x61, 0x61, 0x61, 0x61, 0x61],
     [0x8F, 0x8E, 0x8E, 0x8E, 0xEE, 0xEF, 0xEF, 0xEF, 0x8F, 0x8E, 0x8E, 0x8E, 0xEE, 0xEF, 0xEF, 0xEF],
     [0x49, 0xBE, 0xBE, 0xBE, 0x28, 0xDF, 0xDF, 0xDF, 0x49, 0xBE, 0xBE, 0xBE, 0x28, 0xDF, 0xDF, 0xDF],
     [0x13, 0x10, 0x10, 0xBA, 0xFD, 0xFF, 0xFF, 0x55, 0x72, 0x71, 0x71, 0xDB, 0x9C, 0x9E, 0x9E, 0x34],
     [0x97, 0xB5, 0xB5, 0xA6, 0xBF, 0x6A, 0x6A, 0x79, 0xF6, 0xD4, 0xD4, 0xC7, 0xDE, 0x0B, 0x0B, 0x18],
     [0x3C, 0x3B, 0xBD, 0xA7, 0xC1, 0xC4, 0x42, 0xF2, 0xB3, 0xB5, 0x33, 0x29, 0x2F, 0x2B, 0xAD, 0x1D],
     [0x82, 0x44, 0x20, 0x02, 0x3D, 0x2E, 0x4A, 0x7B, 0xCB, 0xFA, 0x9E, 0xBC, 0x15, 0xF1, 0x95, 0xA4],
     [0x95, 0x11, 0xF4, 0xFE, 0x54, 0xD5, 0xB6, 0x0C, 0xE7, 0x60, 0x85, 0x25, 0xC8, 0x4B, 0x28, 0x38],
     [0x6A, 0xF7, 0x14, 0x05, 0x57, 0xD9, 0x5E, 0x7E, 0x9C, 0x23, 0xC0, 0xC2, 0x89, 0xD2, 0x55, 0x66],
     [0x30, 0xED, 0xC7, 0x59, 0x64, 0x38, 0x71, 0x55, 0x83, 0x58, 0xF4, 0x70, 0x4B, 0x13, 0xDC, 0x48],
     [0xD9, 0x8A, 0x92, 0x57, 0x8E, 0x53, 0xCC, 0x29, 0x12, 0x70, 0x0C, 0xEB, 0x9B, 0xA2, 0x59, 0x8D],
     [0x2A, 0x26, 0x9A, 0x4D, 0x4E, 0x1E, 0xEB, 0x18, 0xCD, 0x46, 0x1F, 0x68, 0x86, 0x55, 0xC3, 0x20],
     [0x9D, 0x76, 0xBC, 0xE0, 0x13, 0x25, 0x70, 0xC9, 0x01, 0x55, 0x7C, 0x22, 0x9A, 0xF7, 0x25, 0xAF],
     [0x02, 0x19, 0xE3, 0xF5, 0x4C, 0x07, 0x08, 0xED, 0x81, 0x41, 0x17, 0x85, 0x07, 0x14, 0xD4, 0xA5]]"
  by (simp add: utf8_encode_KEY_A key_eval)

lemma sk_round_0:
  "add_round_key [0x61, 0x61, 0x61, 0x61, 0x61, 0x61, 0x61, 0x61, 0x61, 0x61, 0x61, 0x61, 0x61, 0x61, 0x61, 0x61]
     [0x73, 0x6A, 0x2F, 0x62, 0x66, 0x66, 0x0C, 0x0D, 0x02, 0x03, 0x00, 0x01, 0x06, 0x07, 0x04, 0x05] =
     [0x12, 0x0B, 0x4E, 0x03, 0x07, 0x07, 0x6D, 0x6C, 0x63, 0x62, 0x61, 0x60, 0x67, 0x66, 0x65, 0x64]"
  by (simp add:  aes_eval)

lemma sk_round_1:
  "aes_round [0x61, 0x61, 0x61, 0x61, 0x61, 0x61, 0x61, 0x61, 0x61, 0x61, 0x61, 0x61, 0x61, 0x61, 0x61, 0x61]
     [0x12, 0x0B, 0x4E, 0x03, 0x07, 0x07, 0x6D, 0x6C, 0x63, 0x62, 0x61, 0x60, 0x67, 0x66, 0x65, 0x64] =
     [0x10, 0x50, 0x6D, 0x8D, 0x23, 0x47, 0x19, 0x24, 0xA6, 0xDD, 0x07, 0xCB, 0xE1, 0x26, 0xDC, 0x59]"
  by (simp add: aes_eval)

lemma sk_round_2:
  "aes_round [0x8F, 0x8E, 0x8E, 0x8E, 0xEE, 0xEF, 0xEF, 0xEF, 0x8F, 0x8E, 0x8E, 0x8E, 0xEE, 0xEF, 0xEF, 0xEF]
     [0x10, 0x50, 0x6D, 0x8D, 0x23, 0x47, 0x19, 0x24, 0xA6, 0xDD, 0x07, 0xCB, 0xE1, 0x26, 0xDC, 0x59] =
     [0xF5, 0x80, 0x33, 0x23, 0x21, 0x9C, 0xF8, 0x78, 0xCF, 0x2D, 0x7F, 0x45, 0x3B, 0xC9, 0xD6, 0x45]"
  by (simp add: aes_eval)

lemma sk_round_3:
  "aes_round [0x49, 0xBE, 0xBE, 0xBE, 0x28, 0xDF, 0xDF, 0xDF, 0x49, 0xBE, 0xBE, 0xBE, 0x28, 0xDF, 0xDF, 0xDF]
     [0xF5, 0x80, 0x33, 0x23, 0x21, 0x9C, 0xF8, 0x78, 0xCF, 0x2D, 0x7F, 0x45, 0x3B, 0xC9, 0xD6, 0x45] =
     [0x5B, 0xFC, 0x8B, 0x5F, 0x6A, 0xAE, 0x67, 0xA1, 0x45, 0x77, 0xAB, 0x46, 0x94, 0x11, 0xC0, 0xB2]"
  by (simp add: aes_eval)

lemma sk_round_4:
  "aes_round [0x13, 0x10, 0x10, 0xBA, 0xFD, 0xFF, 0xFF, 0x55, 0x72, 0x71, 0x71, 0xDB, 0x9C, 0x9E, 0x9E, 0x34]
     [0x5B, 0xFC, 0x8B, 0x5F, 0x6A, 0xAE, 0x67, 0xA1, 0x45, 0x77, 0xAB, 0x46, 0x94, 0x11, 0xC0, 0xB2] =
     [0x03, 0x6B, 0x50, 0x19, 0x88, 0x16, 0x2D, 0x99, 0x3C, 0x75, 0xB1, 0xB2, 0xCC, 0x09, 0xF3, 0xD3]"
  by (simp add: aes_eval)

lemma sk_round_5:
  "aes_round [0x97, 0xB5, 0xB5, 0xA6, 0xBF, 0x6A, 0x6A, 0x79, 0xF6, 0xD4, 0xD4, 0xC7, 0xDE, 0x0B, 0x0B, 0x18]
     [0x03, 0x6B, 0x50, 0x19, 0x88, 0x16, 0x2D, 0x99, 0x3C, 0x75, 0xB1, 0xB2, 0xCC, 0x09, 0xF3, 0xD3] =
     [0x06, 0x65, 0xA8, 0x68, 0x49, 0x4C, 0x4E, 0x0D, 0x85, 0x26, 0xB1, 0x74, 0x26, 0xFA, 0xCD, 0x0C]"
  by (simp add: aes_eval)

lemma sk_round_6:
  "aes_round [0x3C, 0x3B, 0xBD, 0xA7, 0xC1, 0xC4, 0x42, 0xF2, 0xB3, 0xB5, 0x33, 0x29, 0x2F, 0x2B, 0xAD, 0x1D]
     [0x06, 0x65, 0xA8, 0x68, 0x49, 0x4C, 0x4E, 0x0D, 0x85, 0x26, 0xB1, 0x74, 0x26, 0xFA, 0xCD, 0x0C] =
     [0xAF, 0xBB, 0x69, 0x10, 0x4D, 0x93, 0x20, 0x7F, 0xE4, 0xF2, 0x74, 0xD1, 0xB0, 0xA5, 0xE4, 0x42]"
  by (simp add: aes_eval)

lemma sk_round_7:
  "aes_round [0x82, 0x44, 0x20, 0x02, 0x3D, 0x2E, 0x4A, 0x7B, 0xCB, 0xFA, 0x9E, 0xBC, 0x15, 0xF1, 0x95, 0xA4]
     [0xAF, 0xBB, 0x69, 0x10, 0x4D, 0x93, 0x20, 0x7F, 0xE4, 0xF2, 0x74, 0xD1, 0xB0, 0xA5, 0xE4, 0x42] =
     [0xB1, 0x1F, 0xCE, 0x9F, 0xC3, 0xB5, 0xB7, 0x2A, 0x38, 0x5D, 0x75, 0x47, 0x6C, 0x25, 0xAF, 0xB7]"
  by (simp add: aes_eval)

lemma sk_round_8:
  "aes_round [0x95, 0x11, 0xF4, 0xFE, 0x54, 0xD5, 0xB6, 0x0C, 0xE7, 0x60, 0x85, 0x25, 0xC8, 0x4B, 0x28, 0x38]
     [0xB1, 0x1F, 0xCE, 0x9F, 0xC3, 0xB5, 0xB7, 0x2A, 0x38, 0x5D, 0x75, 0x47, 0x6C, 0x25, 0xAF, 0xB7] =
     [0x4E, 0x7D, 0x28, 0xBC, 0x7E, 0x33, 0x50, 0xE6, 0xC6, 0x7A, 0x84, 0x49, 0x3A, 0xC0, 0x0A, 0xFA]"
  by (simp add: aes_eval)

lemma sk_round_9:
  "aes_round [0x6A, 0xF7, 0x14, 0x05, 0x57, 0xD9, 0x5E, 0x7E, 0x9C, 0x23, 0xC0, 0xC2, 0x89, 0xD2, 0x55, 0x66]
     [0x4E, 0x7D, 0x28, 0xBC, 0x7E, 0x33, 0x50, 0xE6, 0xC6, 0x7A, 0x84, 0x49, 0x3A, 0xC0, 0x0A, 0xFA] =
     [0x18, 0x89, 0x31, 0xB2, 0xDD, 0x49, 0x16, 0x07, 0x80, 0x2A, 0x2F, 0x8C, 0xE0, 0x79, 0xC1, 0x27]"
  by (simp add: aes_eval)

lemma sk_round_10:
  "aes_round [0x30, 0xED, 0xC7, 0x59, 0x64, 0x38, 0x71, 0x55, 0x83, 0x58, 0xF4, 0x70, 0x4B, 0x13, 0xDC, 0x48]
     [0x18, 0x89, 0x31, 0xB2, 0xDD, 0x49, 0x16, 0x07, 0x80, 0x2A, 0x2F, 0x8C, 0xE0, 0x79, 0xC1, 0x27] =
     [0xE5, 0xC5, 0x34, 0x18, 0x86, 0x97, 0xFC, 0xFE, 0xC1, 0x75, 0x4E, 0xDC, 0x43, 0x0A, 0xB8, 0x58]"
  by (simp add: aes_eval)

lemma sk_round_11:
  "aes_round [0xD9, 0x8A, 0x92, 0x57, 0x8E, 0x53, 0xCC, 0x29, 0x12, 0x70, 0x0C, 0xEB, 0x9B, 0xA2, 0x59, 0x8D]
     [0xE5, 0xC5, 0x34, 0x18, 0x86, 0x97, 0xFC, 0xFE, 0xC1, 0x75, 0x4E, 0xDC, 0x43, 0x0A, 0xB8, 0x58] =
     [0xB6, 0x43, 0x23, 0x54, 0x7B, 0x2F, 0x21, 0x55, 0xE8, 0x55, 0xF5, 0x71, 0x68, 0xA2, 0x0F, 0xA2]"
  by (simp add: aes_eval)

lemma sk_round_12:
  "aes_round [0x2A, 0x26, 0x9A, 0x4D, 0x4E, 0x1E, 0xEB, 0x18, 0xCD, 0x46, 0x1F, 0x68, 0x86, 0x55, 0xC3, 0x20]
     [0xB6, 0x43, 0x23, 0x54, 0x7B, 0x2F, 0x21, 0x55, 0xE8, 0x55, 0xF5, 0x71, 0x68, 0xA2, 0x0F, 0xA2] =
     [0x55, 0x49, 0x58, 0x18, 0x45, 0x66, 0xBA, 0xB1, 0x74, 0x3F, 0xED, 0x21, 0x7C, 0x9B, 0x83, 0x55]"
  by (simp add: aes_eval)

lemma sk_round_13:
  "aes_round [0x9D, 0x76, 0xBC, 0xE0, 0x13, 0x25, 0x70, 0xC9, 0x01, 0x55, 0x7C, 0x22, 0x9A, 0xF7, 0x25, 0xAF]
     [0x55, 0x49, 0x58, 0x18, 0x45, 0x66, 0xBA, 0xB1, 0x74, 0x3F, 0xED, 0x21, 0x7C, 0x9B, 0x83, 0x55] =
     [0x82, 0xEF, 0xC6, 0x7A, 0x11, 0x23, 0x44, 0xA3, 0xA0, 0x99, 0x6D, 0x7A, 0xFE, 0x6B, 0xE1, 0xB1]"
  by (simp add: aes_eval)

lemma sk_round_14:
  "final_round [0x02, 0x19, 0xE3, 0xF5, 0x4C, 0x07, 0x08, 0xED, 0x81, 0x41, 0x17, 0x85, 0x07, 0x14, 0xD4, 0xA5]
     [0x82, 0xEF, 0xC6, 0x7A, 0x11, 0x23, 0x44, 0xA3, 0xA0, 0x99, 0x6D, 0x7A, 0xFE, 0x6B, 0xE1, 0xB1] =
     [0x11, 0x3F, 0xDF, 0x3D, 0xCE, 0xE9, 0xF0, 0x37, 0x61, 0x3E, 0xA3, 0x8F, 0xBC, 0xCB, 0xCF, 0x7F]"
  by (simp add: aes_eval)

lemmas sk_rounds =
  sk_round_0 sk_round_1 sk_round_2 sk_round_3 sk_round_4
  sk_round_5 sk_round_6 sk_round_7 sk_round_8 sk_round_9
  sk_round_10 sk_round_11 sk_round_12 sk_round_13 sk_round_14

lemma sk_cipher:
  "cipher (key_expansion (utf8_encode KEY_A))
     [0x73, 0x6A, 0x2F, 0x62, 0x66, 0x66, 0x0C, 0x0D, 0x02, 0x03, 0x00, 0x01, 0x06, 0x07, 0x04, 0x05] =
     [0x11, 0x3F, 0xDF, 0x3D, 0xCE, 0xE9, 0xF0, 0x37, 0x61, 0x3E, 0xA3, 0x8F, 0xBC, 0xCB, 0xCF, 0x7F]"
  unfolding sk_keys cipher_def by (simp add: sk_rounds)

text \<open>
  The token of \<open>sk-abc\<close> is
  \<open>000102030405060708090a0b0c0d0e0f:113fdf3dcee9f037613ea38fbccbcf7f\<close>.
\<close>

lemma TOKEN_SK_eq:
  "TOKEN_SK =
     [0x30, 0x30, 0x30, 0x31, 0x30, 0x32, 0x30, 0x33, 0x30, 0x34, 0x30, 0x35, 0x30, 0x36, 0x30, 0x37, 0x30, 0x38, 0x30, 0x39, 0x30, 0x61, 0x30, 0x62, 0x30, 0x63, 0x30, 0x64, 0x30, 0x65, 0x30, 0x66, 0x3A, 0x31, 0x31, 0x33, 0x66, 0x64, 0x66, 0x33, 0x64, 0x63, 0x65, 0x65, 0x39, 0x66, 0x30, 0x33, 0x37, 0x36, 0x31, 0x33, 0x65, 0x61, 0x33, 0x38, 0x66, 0x62, 0x63, 0x63, 0x62, 0x63, 0x66, 0x37, 0x66]"
proof -
  have "aes256cbc_encrypt (utf8_encode KEY_A) (randomBytes rng_count 16) (utf8_encode SK_ABC) =
      [0x11, 0x3F, 0xDF, 0x3D, 0xCE, 0xE9, 0xF0, 0x37, 0x61, 0x3E, 0xA3, 0x8F, 0xBC, 0xCB, 0xCF, 0x7F]"
    unfolding aes256cbc_encrypt_def randomBytes_count utf8_encode_SK_ABC
    by (simp add: pkcs7_pad_def blocks_def replicate_numeral xor_block_16 sk_cipher)
  then show ?thesis
    by (simp add: TOKEN_SK_def randomBytes_count hex_encode_def hex_digit_def COLON_def)
qed

text \<open>The two blocks of a string of 22 characters under the same key, round by round.\<close>

lemma cut1_round_0:
  "add_round_key [0x61, 0x61, 0x61, 0x61, 0x61, 0x61, 0x61, 0x61, 0x61, 0x61, 0x61, 0x61, 0x61, 0x61, 0x61, 0x61]
     [0x61, 0x60, 0x63, 0x62, 0x65, 0x64, 0x67, 0x66, 0x69, 0x68, 0x6B, 0x6A, 0x6D, 0x6C, 0x6F, 0x0E] =
     [0x00, 0x01, 0x02, 0x03, 0x04, 0x05, 0x06, 0x07, 0x08, 0x09, 0x0A, 0x0B, 0x0C, 0x0D, 0x0E, 0x6F]"
  by (simp add:  aes_eval)

lemma cut1_round_1:
  "aes_round [0x61, 0x61, 0x61, 0x61, 0x61, 0x61, 0x61, 0x61, 0x61, 0x61, 0x61, 0x61, 0x61, 0x61, 0x61, 0x61]
     [0x00, 0x01, 0x02, 0x03, 0x04, 0x05, 0x06, 0x07, 0x08, 0x09, 0x0A, 0x0B, 0x0C, 0x0D, 0x0E, 0x6F] =
     [0xD5, 0xD5, 0x44, 0x83, 0x4D, 0x0C, 0x52, 0x30, 0xD1, 0xB8, 0x3C, 0x00, 0x46, 0xFD, 0x40, 0x3D]"
  by (simp add: aes_eval)

lemma cut1_round_2:
  "aes_round [0x8F, 0x8E, 0x8E, 0x8E, 0xEE, 0xEF, 0xEF, 0xEF, 0x8F, 0x8E, 0x8E, 0x8E, 0xEE, 0xEF, 0xEF, 0xEF]
     [0xD5, 0xD5, 0x44, 0x83, 0x4D, 0x0C, 0x52, 0x30, 0xD1, 0xB8, 0x3C, 0x00, 0x46, 0xFD, 0x40, 0x3D] =
     [0x5C, 0x6B, 0xD7, 0xD0, 0x62, 0x23, 0x5D, 0x77, 0x10, 0x31, 0xDE, 0x8B, 0x3C, 0xD0, 0x13, 0xC4]"
  by (simp add: aes_eval)

lemma cut1_round_3:
  "aes_round [0x49, 0xBE, 0xBE, 0xBE, 0x28, 0xDF, 0xDF, 0xDF, 0x49, 0xBE, 0xBE, 0xBE, 0x28, 0xDF, 0xDF, 0xDF]
     [0x5C, 0x6B, 0xD7, 0xD0, 0x62, 0x23, 0x5D, 0x77, 0x10, 0x31, 0xDE, 0x8B, 0x3C, 0xD0, 0x13, 0xC4] =
     [0xB6, 0x83, 0xCC, 0x63, 0x38, 0x17, 0xD8, 0x60, 0xAD, 0x73, 0x1C, 0x74, 0x15, 0x23, 0x94, 0xB0]"
  by (simp add: aes_eval)

lemma cut1_round_4:
  "aes_round [0x13, 0x10, 0x10, 0xBA, 0xFD, 0xFF, 0xFF, 0x55, 0x72, 0x71, 0x71, 0xDB, 0x9C, 0x9E, 0x9E, 0x34]
     [0xB6, 0x83, 0xCC, 0x63, 0x38, 0x17, 0xD8, 0x60, 0xAD, 0x73, 0x1C, 0x74, 0x15, 0x23, 0x94, 0xB0] =
     [0xFF, 0xFD, 0xBF, 0xD1, 0xA0, 0x60, 0x25, 0x1C, 0xB2, 0xA5, 0x3F, 0xA9, 0xF2, 0x35, 0x44, 0x6D]"
  by (simp add: aes_eval)

lemma cut1_round_5:
  "aes_round [0x97, 0xB5, 0xB5, 0xA6, 0xBF, 0x6A, 0x6A, 0x79, 0xF6, 0xD4, 0xD4, 0xC7, 0xDE, 0x0B, 0x0B, 0x18]
     [0xFF, 0xFD, 0xBF, 0xD1, 0xA0, 0x60, 0x25, 0x1C, 0xB2, 0xA5, 0x3F, 0xA9, 0xF2, 0x35, 0x44, 0x6D] =
     [0x99, 0xBB, 0xDD, 0x41, 0x4B, 0x95, 0xF8, 0x23, 0xAD, 0x50, 0xDA, 0x23, 0xC7, 0xB8, 0xC6, 0x4E]"
  by (simp add: aes_eval)

lemma cut1_round_6:
  "aes_round [0x3C, 0x3B, 0xBD, 0xA7, 0xC1, 0xC4, 0x42, 0xF2, 0xB3, 0xB5, 0x33, 0x29, 0x2F, 0x2B, 0xAD, 0x1D]
     [0x99, 0xBB, 0xDD, 0x41, 0x4B, 0x95, 0xF8, 0x23, 0xAD, 0x50, 0xDA, 0x23, 0xC7, 0xB8, 0xC6, 0x4E] =
     [0xFD, 0x57, 0xA6, 0xAD, 0x7E, 0x95, 0x4F, 0xC6, 0xD1, 0x86, 0x39, 0x6C, 0xFA, 0xC7, 0x69, 0xAB]"
  by (simp add: aes_eval)

lemma cut1_round_7:
  "aes_round [0x82, 0x44, 0x20, 0x02, 0x3D, 0x2E, 0x4A, 0x7B, 0xCB, 0xFA, 0x9E, 0xBC, 0x15, 0xF1, 0x95, 0xA4]
     [0xFD, 0x57, 0xA6, 0xAD, 0x7E, 0x95, 0x4F, 0xC6, 0xD1, 0x86, 0x39, 0x6C, 0xFA, 0xC7, 0x69, 0xAB] =
     [0x24, 0x10, 0xDC, 0x02, 0x60, 0xD0, 0xB0, 0xF9, 0x76, 0x8B, 0xE9, 0x6F, 0x76, 0xAD, 0x00, 0xAC]"
  by (simp add: aes_eval)

lemma cut1_round_8:
  "aes_round [0x95, 0x11, 0xF4, 0xFE, 0x54, 0xD5, 0xB6, 0x0C, 0xE7, 0x60, 0x85, 0x25, 0xC8, 0x4B, 0x28, 0x38]
     [0x24, 0x10, 0xDC, 0x02, 0x60, 0xD0, 0xB0, 0xF9, 0x76, 0x8B, 0xE9, 0x6F, 0x76, 0xAD, 0x00, 0xAC] =
     [0xE6, 0x74, 0x26, 0xF3, 0xBC, 0xAD, 0x04, 0xD7, 0x2C, 0x61, 0x8F, 0x57, 0xB2, 0x66, 0xEC, 0x16]"
  by (simp add: aes_eval)

lemma cut1_round_9:
  "aes_round [0x6A, 0xF7, 0x14, 0x05, 0x57, 0xD9, 0x5E, 0x7E, 0x9C, 0x23, 0xC0, 0xC2, 0x89, 0xD2, 0x55, 0x66]
     [0xE6, 0x74, 0x26, 0xF3, 0xBC, 0xAD, 0x04, 0xD7, 0x2C, 0x61, 0x8F, 0x57, 0xB2, 0x66, 0xEC, 0x16] =
     [0xFD, 0x9A, 0x20, 0xE4, 0x74, 0x3D, 0x44, 0xEA, 0xD2, 0x38, 0x65, 0x89, 0xE3, 0x8C, 0xE2, 0xE9]"
  by (simp add: aes_eval)

lemma cut1_round_10:
  "aes_round [0x30, 0xED, 0xC7, 0x59, 0x64, 0x38, 0x71, 0x55, 0x83, 0x58, 0xF4, 0x70, 0x4B, 0x13, 0xDC, 0x48]
     [0xFD, 0x9A, 0x20, 0xE4, 0x74, 0x3D, 0x44, 0xEA, 0xD2, 0x38, 0x65, 0x89, 0xE3, 0x8C, 0xE2, 0xE9] =
     [0xA2, 0x3E, 0x0C, 0xF3, 0xA3, 0x7E, 0x74, 0xB5, 0x6E, 0x60, 0xC2, 0x72, 0x06, 0xE3, 0xB1, 0x8D]"
  by (simp add: aes_eval)

lemma cut1_round_11:
  "aes_round [0xD9, 0x8A, 0x92, 0x57, 0x8E, 0x53, 0xCC, 0x29, 0x12, 0x70, 0x0C, 0xEB, 0x9B, 0xA2, 0x59, 0x8D]
     [0xA2, 0x3E, 0x0C, 0xF3, 0xA3, 0x7E, 0x74, 0xB5, 0x6E, 0x60, 0xC2, 0x72, 0x06, 0xE3, 0xB1, 0x8D] =
     [0xDB, 0x7F, 0xF6, 0x75, 0x34, 0xAC, 0x8A, 0x35, 0x2F, 0x01, 0x01, 0x0F, 0x5A, 0x5F, 0x7B, 0x9C]"
  by (simp add: aes_eval)

lemma cut1_round_12:
  "aes_round [0x2A, 0x26, 0x9A, 0x4D, 0x4E, 0x1E, 0xEB, 0x18, 0xCD, 0x46, 0x1F, 0x68, 0x86, 0x55, 0xC3, 0x20]
     [0xDB, 0x7F, 0xF6, 0x75, 0x34, 0xAC, 0x8A, 0x35, 0x2F, 0x01, 0x01, 0x0F, 0x5A, 0x5F, 0x7B, 0x9C] =
     [0x49, 0xFC, 0x33, 0xD7, 0x46, 0x00, 0x71, 0x4C, 0x79, 0x86, 0xE0, 0xED, 0x84, 0xA0, 0xC9, 0xB9]"
  by (simp add: aes_eval)

lemma cut1_round_13:
  "aes_round [0x9D, 0x76, 0xBC, 0xE0, 0x13, 0x25, 0x70, 0xC9, 0x01, 0x55, 0x7C, 0x22, 0x9A, 0xF7, 0x25, 0xAF]
     [0x49, 0xFC, 0x33, 0xD7, 0x46, 0x00, 0x71, 0x4C, 0x79, 0x86, 0xE0, 0xED, 0x84, 0xA0, 0xC9, 0xB9] =
     [0xF9, 0xE5, 0xC7, 0x83, 0xB8, 0x85, 0xDD, 0xA2, 0xA7, 0x4F, 0xCC, 0x92, 0x19, 0x78, 0x68, 0xF7]"
  by (simp add: aes_eval)

lemma cut1_round_14:
  "final_round [0x02, 0x19, 0xE3, 0xF5, 0x4C, 0x07, 0x08, 0xED, 0x81, 0x41, 0x17, 0x85, 0x07, 0x14, 0xD4, 0xA5]
     [0xF9, 0xE5, 0xC7, 0x83, 0xB8, 0x85, 0xDD, 0xA2, 0xA7, 0x4F, 0xCC, 0x92, 0x19, 0x78, 0x68, 0xF7] =
     [0x9B, 0x8E, 0xA8, 0x9D, 0x20, 0x83, 0x4D, 0x01, 0xDD, 0xFD, 0xD1, 0xBF, 0xD3, 0xCD, 0x15, 0xEA]"
  by (simp add: aes_eval)

lemmas cut1_rounds =
  cut1_round_0 cut1_round_1 cut1_round_2 cut1_round_3 cut1_round_4
  cut1_round_5 cut1_round_6 cut1_round_7 cut1_round_8 cut1_round_9
  cut1_round_10 cut1_round_11 cut1_round_12 cut1_round_13 cut1_round_14

lemma cut1_cipher:
  "cipher (key_expansion (utf8_encode KEY_A))
     [0x61, 0x60, 0x63, 0x62, 0x65, 0x64, 0x67, 0x66, 0x69, 0x68, 0x6B, 0x6A, 0x6D, 0x6C, 0x6F, 0x0E] =
     [0x9B, 0x8E, 0xA8, 0x9D, 0x20, 0x83, 0x4D, 0x01, 0xDD, 0xFD, 0xD1, 0xBF, 0xD3, 0xCD, 0x15, 0xEA]"
  unfolding sk_keys cipher_def by (simp add: cut1_rounds)

text \<open>The second block.\<close>

lemma cut2_round_0:
  "add_round_key [0x61, 0x61, 0x61, 0x61, 0x61, 0x61, 0x61, 0x61, 0x61, 0x61, 0x61, 0x61, 0x61, 0x61, 0x61, 0x61]
     [0xFA, 0xEF, 0xC9, 0xFC, 0x41, 0xE2, 0x47, 0x0B, 0xD7, 0xF7, 0xDB, 0xB5, 0xD9, 0xC7, 0x1F, 0xE0] =
     [0x9B, 0x8E, 0xA8, 0x9D, 0x20, 0x83, 0x26, 0x6A, 0xB6, 0x96, 0xBA, 0xD4, 0xB8, 0xA6, 0x7E, 0x81]"
  by (simp add:  aes_eval)

lemma cut2_round_1:
  "aes_round [0x61, 0x61, 0x61, 0x61, 0x61, 0x61, 0x61, 0x61, 0x61, 0x61, 0x61, 0x61, 0x61, 0x61, 0x61, 0x61]
     [0x9B, 0x8E, 0xA8, 0x9D, 0x20, 0x83, 0x26, 0x6A, 0xB6, 0x96, 0xBA, 0xD4, 0xB8, 0xA6, 0x7E, 0x81] =
     [0x9E, 0xBD, 0x7E, 0x5D, 0x12, 0xBD, 0x59, 0x7C, 0x51, 0x38, 0x92, 0x51, 0x2D, 0x75, 0x39, 0xAB]"
  by (simp add: aes_eval)

lemma cut2_round_2:
  "aes_round [0x8F, 0x8E, 0x8E, 0x8E, 0xEE, 0xEF, 0xEF, 0xEF, 0x8F, 0x8E, 0x8E, 0x8E, 0xEE, 0xEF, 0xEF, 0xEF]
     [0x9E, 0xBD, 0x7E, 0x5D, 0x12, 0xBD, 0x59, 0x7C, 0x51, 0x38, 0x92, 0x51, 0x2D, 0x75, 0x39, 0xAB] =
     [0x3A, 0xC2, 0xC7, 0x62, 0x30, 0x52, 0xD1, 0x22, 0x69, 0x60, 0x0F, 0xA8, 0xD1, 0x54, 0xA8, 0x94]"
  by (simp add: aes_eval)

lemma cut2_round_3:
  "aes_round [0x49, 0xBE, 0xBE, 0xBE, 0x28, 0xDF, 0xDF, 0xDF, 0x49, 0xBE, 0xBE, 0xBE, 0x28, 0xDF, 0xDF, 0xDF]
     [0x3A, 0xC2, 0xC7, 0x62, 0x30, 0x52, 0xD1, 0x22, 0x69, 0x60, 0x0F, 0xA8, 0xD1, 0x54, 0xA8, 0x94] =
     [0x06, 0x86, 0xB4, 0x17, 0x23, 0x97, 0x71, 0x8E, 0x95, 0xC5, 0x5E, 0x75, 0xC7, 0x2B, 0xE5, 0x19]"
  by (simp add: aes_eval)

lemma cut2_round_4:
  "aes_round [0x13, 0x10, 0x10, 0xBA, 0xFD, 0xFF, 0xFF, 0x55, 0x72, 0x71, 0x71, 0xDB, 0x9C, 0x9E, 0x9E, 0x34]
     [0x06, 0x86, 0xB4, 0x17, 0x23, 0x97, 0x71, 0x8E, 0x95, 0xC5, 0x5E, 0x75, 0xC7, 0x2B, 0xE5, 0x19] =
     [0xC2, 0x48, 0x20, 0x68, 0x69, 0x0E, 0xDD, 0xBB, 0xBA, 0x37, 0x80, 0xEB, 0xF9, 0xB3, 0xFD, 0xA3]"
  by (simp add: aes_eval)

lemma cut2_round_5:
  "aes_round [0x97, 0xB5, 0xB5, 0xA6, 0xBF, 0x6A, 0x6A, 0x79, 0xF6, 0xD4, 0xD4, 0xC7, 0xDE, 0x0B, 0x0B, 0x18]
     [0xC2, 0x48, 0x20, 0x68, 0x69, 0x0E, 0xDD, 0xBB, 0xBA, 0x37, 0x80, 0xEB, 0xF9, 0xB3, 0xFD, 0xA3] =
     [0xFC, 0x9B, 0xA4, 0xBB, 0xF2, 0x05, 0x6E, 0x2D, 0xEF, 0xD2, 0x1D, 0xD5, 0x29, 0x87, 0x79, 0xF2]"
  by (simp add: aes_eval)

lemma cut2_round_6:
  "aes_round [0x3C, 0x3B, 0xBD, 0xA7, 0xC1, 0xC4, 0x42, 0xF2, 0xB3, 0xB5, 0x33, 0x29, 0x2F, 0x2B, 0xAD, 0x1D]
     [0xFC, 0x9B, 0xA4, 0xBB, 0xF2, 0x05, 0x6E, 0x2D, 0xEF, 0xD2, 0x1D, 0xD5, 0x29, 0x87, 0x79, 0xF2] =
     [0xD7, 0x23, 0xB5, 0xAA, 0x50, 0x17, 0x2C, 0xBE, 0xBE, 0x47, 0x1A, 0xA6, 0xDE, 0x1F, 0x3C, 0x64]"
  by (simp add: aes_eval)

lemma cut2_round_7:
  "aes_round [0x82, 0x44, 0x20, 0x02, 0x3D, 0x2E, 0x4A, 0x7B, 0xCB, 0xFA, 0x9E, 0xBC, 0x15, 0xF1, 0x95, 0xA4]
     [0xD7, 0x23, 0xB5, 0xAA, 0x50, 0x17, 0x2C, 0xBE, 0xBE, 0x47, 0x1A, 0xA6, 0xDE, 0x1F, 0x3C, 0x64] =
     [0x74, 0x0F, 0x44, 0xC4, 0x27, 0xAC, 0x9B, 0x86, 0xAC, 0x05, 0xA8, 0x07, 0x10, 0x17, 0x20, 0x9C]"
  by (simp add: aes_eval)

lemma cut2_round_8:
  "aes_round [0x95, 0x11, 0xF4, 0xFE, 0x54, 0xD5, 0xB6, 0x0C, 0xE7, 0x60, 0x85, 0x25, 0xC8, 0x4B, 0x28, 0x38]
     [0x74, 0x0F, 0x44, 0xC4, 0x27, 0xAC, 0x9B, 0x86, 0xAC, 0x05, 0xA8, 0x07, 0x10, 0x17, 0x20, 0x9C] =
     [0x1E, 0x39, 0x11, 0xA7, 0xC1, 0x11, 0x40, 0xA7, 0x8A, 0x63, 0x1E, 0xEE, 0x0C, 0x94, 0xE8, 0x8E]"
  by (simp add: aes_eval)

lemma cut2_round_9:
  "aes_round [0x6A, 0xF7, 0x14, 0x05, 0x57, 0xD9, 0x5E, 0x7E, 0x9C, 0x23, 0xC0, 0xC2, 0x89, 0xD2, 0x55, 0x66]
     [0x1E, 0x39, 0x11, 0xA7, 0xC1, 0x11, 0x40, 0xA7, 0x8A, 0x63, 0x1E, 0xEE, 0x0C, 0x94, 0xE8, 0x8E] =
     [0x78, 0x15, 0x2B, 0x51, 0x76, 0xA6, 0x14, 0x2E, 0xD8, 0xD8, 0x67, 0x58, 0x79, 0x3B, 0xD3, 0x34]"
  by (simp add: aes_eval)

lemma cut2_round_10:
  "aes_round [0x30, 0xED, 0xC7, 0x59, 0x64, 0x38, 0x71, 0x55, 0x83, 0x58, 0xF4, 0x70, 0x4B, 0x13, 0xDC, 0x48]
     [0x78, 0x15, 0x2B, 0x51, 0x76, 0xA6, 0x14, 0x2E, 0xD8, 0xD8, 0x67, 0x58, 0x79, 0x3B, 0xD3, 0x34] =
     [0xA2, 0x95, 0x66, 0x17, 0x00, 0xB9, 0x8C, 0xA3, 0xBC, 0xDF, 0xDD, 0xA2, 0x47, 0x68, 0x62, 0xFE]"
  by (simp add: aes_eval)

lemma cut2_round_11:
  "aes_round [0xD9, 0x8A, 0x92, 0x57, 0x8E, 0x53, 0xCC, 0x29, 0x12, 0x70, 0x0C, 0xEB, 0x9B, 0xA2, 0x59, 0x8D]
     [0xA2, 0x95, 0x66, 0x17, 0x00, 0xB9, 0x8C, 0xA3, 0xBC, 0xDF, 0xDD, 0xA2, 0x47, 0x68, 0x62, 0xFE] =
     [0x2D, 0xFF, 0xB1, 0xE3, 0xAB, 0x02, 0x75, 0x43, 0x2E, 0xC0, 0x54, 0x26, 0xE0, 0xC0, 0x55, 0x4C]"
  by (simp add: aes_eval)

lemma cut2_round_12:
  "aes_round [0x2A, 0x26, 0x9A, 0x4D, 0x4E, 0x1E, 0xEB, 0x18, 0xCD, 0x46, 0x1F, 0x68, 0x86, 0x55, 0xC3, 0x20]
     [0x2D, 0xFF, 0xB1, 0xE3, 0xAB, 0x02, 0x75, 0x43, 0x2E, 0xC0, 0x54, 0x26, 0xE0, 0xC0, 0x55, 0x4C] =
     [0x11, 0x59, 0x0E, 0x3B, 0xB2, 0x1D, 0xE3, 0xDA, 0xA8, 0x41, 0x31, 0x7D, 0x0F, 0xD3, 0x17, 0x66]"
  by (simp add: aes_eval)

lemma cut2_round_13:
  "aes_round [0x9D, 0x76, 0xBC, 0xE0, 0x13, 0x25, 0x70, 0xC9, 0x01, 0x55, 0x7C, 0x22, 0x9A, 0xF7, 0x25, 0xAF]
     [0x11, 0x59, 0x0E, 0x3B, 0xB2, 0x1D, 0xE3, 0xDA, 0xA8, 0x41, 0x31, 0x7D, 0x0F, 0xD3, 0x17, 0x66] =
     [0x81, 0xC6, 0x5A, 0x78, 0xF1, 0xE6, 0x02, 0x3C, 0xC8, 0xEA, 0x6C, 0x1C, 0xDE, 0xC0, 0xA0, 0x0A]"
  by (simp add: aes_eval)

lemma cut2_round_14:
  "final_round [0x02, 0x19, 0xE3, 0xF5, 0x4C, 0x07, 0x08, 0xED, 0x81, 0x41, 0x17, 0x85, 0x07, 0x14, 0xD4, 0xA5]
     [0x81, 0xC6, 0x5A, 0x78, 0xF1, 0xE6, 0x02, 0x3C, 0xC8, 0xEA, 0x6C, 0x1C, 0xDE, 0xC0, 0xA0, 0x0A] =
     [0x0E, 0x97, 0xB3, 0x92, 0xED, 0x80, 0xE8, 0x51, 0x69, 0xFB, 0xA9, 0x6E, 0x1A, 0xA0, 0xA3, 0x39]"
  by (simp add: aes_eval)

lemmas cut2_rounds =
  cut2_round_0 cut2_round_1 cut2_round_2 cut2_round_3 cut2_round_4
  cut2_round_5 cut2_round_6 cut2_round_7 cut2_round_8 cut2_round_9
  cut2_round_10 cut2_round_11 cut2_round_12 cut2_round_13 cut2_round_14

lemma cut2_cipher:
  "cipher (key_expansion (utf8_encode KEY_A))
     [0xFA, 0xEF, 0xC9, 0xFC, 0x41, 0xE2, 0x47, 0x0B, 0xD7, 0xF7, 0xDB, 0xB5, 0xD9, 0xC7, 0x1F, 0xE0] =
     [0x0E, 0x97, 0xB3, 0x92, 0xED, 0x80, 0xE8, 0x51, 0x69, 0xFB, 0xA9, 0x6E, 0x1A, 0xA0, 0xA3, 0x39]"
  unfolding sk_keys cipher_def by (simp add: cut2_rounds)

lemma upt_2: "[0..<2] = [0, 1]"
  by (simp add: upt_conv_Cons numeral_2_eq_2)

lemma utf8_encode_PLAIN_22:
  "utf8_encode PLAIN_22 =
     [0x61, 0x61, 0x61, 0x61, 0x61, 0x61, 0x61, 0x61, 0x61, 0x61, 0x61, 0x61, 0x61, 0x61, 0x61, 0x01, 0x61, 0x61, 0x61, 0x61, 0x61, 0x61]"
  by (simp add: PLAIN_22_def replicate_numeral is_lead_def is_trail_def utf8_cp_def
      word_le_nat_alt)

text \<open>
  The token of the string of 22 characters is
  \<open>000102030405060708090a0b0c0d0e0f:9b8ea89d20834d01ddfdd1bfd3cd15ea0e97b392ed80e85169fba96e1aa0a339\<close>.
\<close>

lemma encrypt_PLAIN_22: "encrypt KEY_A rng_count PLAIN_22 = Inr TOKEN_22"
proof -
  have "aes256cbc_encrypt (utf8_encode KEY_A) (randomBytes rng_count 16) (utf8_encode PLAIN_22) =
      [0x9B, 0x8E, 0xA8, 0x9D, 0x20, 0x83, 0x4D, 0x01, 0xDD, 0xFD, 0xD1, 0xBF, 0xD3, 0xCD, 0x15, 0xEA, 0x0E, 0x97, 0xB3, 0x92, 0xED, 0x80, 0xE8, 0x51, 0x69, 0xFB, 0xA9, 0x6E, 0x1A, 0xA0, 0xA3, 0x39]"
    unfolding aes256cbc_encrypt_def randomBytes_count utf8_encode_PLAIN_22
    by (simp add: pkcs7_pad_def blocks_def replicate_numeral upt_2 xor_block_16 cut1_cipher
        cut2_cipher)
  then show ?thesis
    by (simp add: encrypt_def Let_def createCipheriv_def IV_LENGTH_def randomBytes_count
        utf8_encode_KEY_A TOKEN_22_def hex_encode_def hex_digit_def COLON_def)
qed


section \<open>The encryption helpers\<close>

lemma length_randomBytes: "length (randomBytes rng n) = n"
  by (simp add: randomBytes_def)

lemma split_token:
  "split_on COLON (hex_encode iv @ COLON # hex_encode ct) = [hex_encode iv, hex_encode ct]"
  by (simp add: split_on_first split_on_no_sep colon_notin_hex)

lemma decrypt_body_encrypt:
  assumes "length (utf8_encode KEY) = 32"
  shows "encrypt KEY rng s = Inr (hex_encode (randomBytes rng 16) @ COLON #
           hex_encode (aes256cbc_encrypt (utf8_encode KEY) (randomBytes rng 16) (utf8_encode s)))"
    and "decrypt_encrypt KEY rng s = Inr (utf8_decode (utf8_encode s))"
proof -
  show e: "encrypt KEY rng s = Inr (hex_encode (randomBytes rng 16) @ COLON #
           hex_encode (aes256cbc_encrypt (utf8_encode KEY) (randomBytes rng 16) (utf8_encode s)))"
    using assms by (simp add: encrypt_def Let_def IV_LENGTH_def createCipheriv_def length_randomBytes)
  show "decrypt_encrypt KEY rng s = Inr (utf8_decode (utf8_encode s))"
    using assms
    by (simp add: decrypt_encrypt_def e decrypt_def decrypt_body_def split_token Let_def
        hex_decode_hex_encode createDecipheriv_def createCipheriv_def length_randomBytes
        length_hex_encode aes256cbc_roundtrip)
qed

lemma utf8_encode_Cons:
  "\<not> is_lead c \<Longrightarrow> \<not> is_trail c \<Longrightarrow> utf8_encode (c # cs) = utf8_cp (unat c) @ utf8_encode cs"
  by (cases cs) simp_all

lemma ascii_not_surrogate: "c < 0x80 \<Longrightarrow> \<not> is_lead c \<and> \<not> is_trail c"
  by (auto simp: is_lead_def is_trail_def word_le_nat_alt word_less_nat_alt)

lemma utf8_encode_ascii: "ascii a \<Longrightarrow> length (utf8_encode (a @ r)) = length a + length (utf8_encode r)"
proof (induction a)
  case Nil
  then show ?case by simp
next
  case (Cons c a)
  then have c: "c < 0x80" and a: "ascii a" by (simp_all add: ascii_def)
  then have "unat c < 0x80" by (simp add: word_less_nat_alt)
  then have "utf8_cp (unat c) = [of_nat (unat c)]" by (simp add: utf8_cp_def)
  then show ?case using Cons.IH [OF a] ascii_not_surrogate [OF c]
    by (simp add: utf8_encode_Cons)
qed

lemma length_utf8_ascii: "ascii a \<Longrightarrow> length (utf8_encode a) = length a"
  using utf8_encode_ascii [of a "[]"] by simp

lemma ascii_well_formed: "ascii a \<Longrightarrow> well_formed a"
proof (induction a rule: well_formed.induct)
  case 1
  then show ?case by simp
next
  case (2 c)
  then show ?case using ascii_not_surrogate [of c] by (simp add: ascii_def)
next
  case (3 c d cs)
  then show ?case using ascii_not_surrogate [of c] by (simp add: ascii_def)
qed

lemma ascii_KEY_A: "ascii KEY_A"
  by (simp add: ascii_def KEY_A_def list_all_iff)

lemma length_KEY_A: "length (utf8_encode KEY_A) = 32"
  by (simp add: length_utf8_ascii ascii_KEY_A) (simp add: KEY_A_def)

lemma ascii_SK_ABC: "ascii SK_ABC"
  by (simp add: ascii_def SK_ABC_def)

lemma encrypt_SK: "encrypt KEY_A rng_count SK_ABC = Inr TOKEN_SK"
  using decrypt_body_encrypt(1) [OF length_KEY_A] by (simp add: TOKEN_SK_def)

lemma decrypt_SK: "decrypt KEY_A TOKEN_SK = Inr SK_ABC"
  using decrypt_body_encrypt(2) [OF length_KEY_A, of rng_count SK_ABC]
  by (simp add: decrypt_encrypt_def encrypt_SK utf8_roundtrip ascii_well_formed ascii_SK_ABC)

lemma first_colon:
  "COLON \<in> set t \<Longrightarrow> split_on COLON t = nonce_part t # split_on COLON (cipher_part t)"
proof (induction t)
  case Nil
  then show ?case by simp
next
  case (Cons x t)
  then show ?case
    by (cases "x = COLON") (auto simp: nonce_part_def cipher_part_def)
qed

lemma no_colon: "length (split_on COLON t) < 2 \<longleftrightarrow> COLON \<notin> set t"
proof
  assume "length (split_on COLON t) < 2"
  show "COLON \<notin> set t"
  proof
    assume "COLON \<in> set t"
    from first_colon [OF this] split_on_nonempty [of COLON "cipher_part t"]
    have "2 \<le> length (split_on COLON t)" by (cases "split_on COLON (cipher_part t)") simp_all
    with \<open>length (split_on COLON t) < 2\<close> show False by simp
  qed
next
  assume "COLON \<notin> set t"
  then show "length (split_on COLON t) < 2" by (simp add: split_on_no_sep)
qed

lemma parts_of_token:
  assumes "COLON \<in> set t"
  shows "hd (split_on COLON t) = nonce_part t"
    and "join_with COLON (tl (split_on COLON t)) = cipher_part t"
  using first_colon [OF assms] by (simp_all add: join_split)

subsection \<open>Round trip\<close>

text \<open>
  A string with a surrogate that is not half of a pair does not come back: \<open>update\<close>
  writes the surrogate as U+FFFD, and U+FFFD is what \<open>decrypt\<close> returns.
\<close>

theorem roundtrip_lone_surrogate:
  "decrypt_encrypt KEY_A rng_count [0xD800] = Inr [0xFFFD]"
  using decrypt_body_encrypt(2) [OF length_KEY_A, of rng_count "[0xD800]"]
  by (simp add: is_lead_def is_trail_def utf8_cp_def between_def utf16_cp_def REPLACEMENT_def)

text \<open>
  Claim C2, for well-formed strings and a key of 32 bytes: \<open>decrypt(encrypt(s))\<close> is
  \<open>s\<close>; \<open>encrypt\<close> returns the hexadecimal digits of a nonce of 16 bytes taken from the
  source of randomness, a colon, and the hexadecimal digits of the AES-256-CBC ciphertext of
  the UTF-8 bytes of \<open>s\<close>; and \<open>decrypt\<close> takes the text before the first colon of a
  token as nonce and all the text after it as ciphertext.
\<close>

theorem encrypt_decrypt_roundtrip:
  assumes "length (utf8_encode KEY) = 32" and "well_formed s"
  shows "decrypt_encrypt KEY rng s = Inr s
    \<and> encrypt KEY rng s =
        Inr (hex_encode (randomBytes rng 16) @ COLON #
             hex_encode (aes256cbc_encrypt (utf8_encode KEY) (randomBytes rng 16) (utf8_encode s)))
    \<and> length (randomBytes rng 16) = 16
    \<and> (\<forall>t. COLON \<in> set t \<longrightarrow>
          hd (split_on COLON t) = nonce_part t
          \<and> join_with COLON (tl (split_on COLON t)) = cipher_part t)"
  using assms decrypt_body_encrypt [OF assms(1), of rng s]
  by (simp add: utf8_roundtrip length_randomBytes parts_of_token)

text \<open>The round trip of \<open>sk-abc\<close> under the key of 32 letters \<open>a\<close>.\<close>

theorem encrypt_decrypt_roundtrip_witness:
  "length (utf8_encode KEY_A) = 32 \<and> well_formed SK_ABC
   \<and> decrypt_encrypt KEY_A rng_count SK_ABC = Inr SK_ABC"
  using encrypt_decrypt_roundtrip [of KEY_A SK_ABC rng_count] length_KEY_A
    ascii_well_formed [OF ascii_SK_ABC]
  by simp

text \<open>
  For every string and a key of 32 bytes, what comes back is the string with U+FFFD in the
  place of every surrogate that is not half of a pair.
\<close>

lemma roundtrip_toWellFormed:
  assumes "length (utf8_encode KEY) = 32"
  shows "decrypt_encrypt KEY rng s = Inr (toWellFormed s)"
  using decrypt_body_encrypt(2) [OF assms, of rng s] by (simp add: utf8_decode_encode)

subsection \<open>Failures of \<open>decrypt\<close>\<close>

lemma unpad_cases: "pkcs7_unpad bs = Inl BadDecrypt \<or> (\<exists>p. pkcs7_unpad bs = Inr p)"
  by (simp add: pkcs7_unpad_def Let_def)

lemma aes256cbc_decrypt_cases:
  "aes256cbc_decrypt key iv ct = Inl WrongFinalBlockLength
   \<or> aes256cbc_decrypt key iv ct = Inl BadDecrypt
   \<or> (\<exists>p. aes256cbc_decrypt key iv ct = Inr p)"
  using unpad_cases [of "concat (cbc_dec (key_expansion key) iv (blocks ct))"]
  by (auto simp: aes256cbc_decrypt_def)

lemma aes256cbc_decrypt_fails:
  "(\<exists>e. aes256cbc_decrypt key iv ct = Inl e) \<longleftrightarrow>
     ct = [] \<or> length ct mod 16 \<noteq> 0
     \<or> pkcs7_unpad (concat (cbc_dec (key_expansion key) iv (blocks ct))) = Inl BadDecrypt"
  using unpad_cases [of "concat (cbc_dec (key_expansion key) iv (blocks ct))"]
  by (auto simp: aes256cbc_decrypt_def)

lemma decrypt_body_colon:
  assumes "COLON \<in> set t"
  shows "decrypt_body KEY t =
    (case createDecipheriv (utf8_encode KEY) (hex_decode (nonce_part t)) of
       Inl e \<Rightarrow> Inl e
     | Inr (key, iv') \<Rightarrow>
         if odd (length (cipher_part t)) then Inl InvalidHexLength
         else (case aes256cbc_decrypt key iv' (hex_decode (cipher_part t)) of
                 Inl e \<Rightarrow> Inl e
               | Inr decrypted \<Rightarrow> Inr (utf8_decode decrypted)))"
proof -
  have "\<not> length (split_on COLON t) < 2" using assms by (simp add: no_colon)
  then show ?thesis
    by (simp add: decrypt_body_def Let_def parts_of_token [OF assms])
qed

lemma decrypt_no_colon: "COLON \<notin> set t \<Longrightarrow> decrypt KEY t = Inl FailedToDecrypt"
  by (simp add: decrypt_def decrypt_body_def Let_def split_on_no_sep)

lemma decrypt_colon:
  assumes "COLON \<in> set t"
  shows "decrypt KEY t =
    (if length (hex_decode (nonce_part t)) \<noteq> 16 \<or> length (utf8_encode KEY) \<noteq> 32
        \<or> odd (length (cipher_part t)) then Inl FailedToDecrypt
     else (case aes256cbc_decrypt (utf8_encode KEY) (hex_decode (nonce_part t))
                  (hex_decode (cipher_part t)) of
             Inl e \<Rightarrow> Inl FailedToDecrypt
           | Inr decrypted \<Rightarrow> Inr (utf8_decode decrypted)))"
  by (simp add: decrypt_def decrypt_body_colon [OF assms] createDecipheriv_def createCipheriv_def
      split: sum.splits)

lemma parts_append:
  "COLON \<notin> set a \<Longrightarrow> nonce_part (a @ COLON # r) = a \<and> cipher_part (a @ COLON # r) = r"
  by (induction a) (auto simp: nonce_part_def cipher_part_def)

lemma parts_TOKEN_SK:
  "COLON \<in> set (TOKEN_SK @ z)"
  "nonce_part (TOKEN_SK @ z) = hex_encode (randomBytes rng_count 16)"
  "cipher_part (TOKEN_SK @ z) =
     hex_encode (aes256cbc_encrypt (utf8_encode KEY_A) (randomBytes rng_count 16) (utf8_encode SK_ABC)) @ z"
  using parts_append [OF colon_notin_hex, of "randomBytes rng_count 16"]
  by (simp_all add: TOKEN_SK_def)

lemma decrypt_TOKEN_SK_ZZ: "decrypt KEY_A TOKEN_SK_ZZ = Inr SK_ABC"
  unfolding TOKEN_SK_ZZ_def
  by (simp add: decrypt_colon [OF parts_TOKEN_SK(1)] parts_TOKEN_SK length_KEY_A
      hex_decode_hex_encode_append hex_decode_hex_encode length_hex_encode length_randomBytes
      unhex_def Let_def aes256cbc_roundtrip utf8_roundtrip ascii_well_formed ascii_SK_ABC)

lemma spec_fails_TOKEN_SK_ZZ: "spec_decrypt_fails KEY_A TOKEN_SK_ZZ"
proof -
  have "\<not> hex_string (cipher_part (TOKEN_SK @ [0x7A, 0x7A]))"
    by (simp add: parts_TOKEN_SK hex_string_def hex_char_def)
  then show ?thesis
    using parts_of_token [OF parts_TOKEN_SK(1), of "[0x7A, 0x7A]"]
    by (simp add: spec_decrypt_fails_def Let_def TOKEN_SK_ZZ_def)
qed

text \<open>What \<open>decrypt\<close> does with a token is fixed by the bytes decoded from its parts.\<close>

lemma decrypt_cong:
  assumes "COLON \<in> set t" and "COLON \<in> set t'"
    and "hex_decode (nonce_part t) = hex_decode (nonce_part t')"
    and "hex_decode (cipher_part t) = hex_decode (cipher_part t')"
    and "even (length (cipher_part t)) = even (length (cipher_part t'))"
  shows "decrypt KEY t = decrypt KEY t'"
  by (simp add: decrypt_colon assms)

lemma spec_fails_part:
  assumes "COLON \<in> set t" and "\<not> hex_string (cipher_part t)"
  shows "spec_decrypt_fails KEY t"
  using assms parts_of_token [OF assms(1)] by (simp add: spec_decrypt_fails_def Let_def)

lemma parts_TOKEN_SK_WIDE:
  "COLON \<in> set TOKEN_SK_WIDE"
  "nonce_part TOKEN_SK_WIDE = nonce_part TOKEN_SK"
  "hex_decode (cipher_part TOKEN_SK_WIDE) = hex_decode (cipher_part TOKEN_SK)"
  "even (length (cipher_part TOKEN_SK_WIDE)) = even (length (cipher_part TOKEN_SK))"
  "\<not> hex_string (cipher_part TOKEN_SK_WIDE)"
  by (simp_all add: TOKEN_SK_WIDE_def TOKEN_SK_eq nonce_part_def cipher_part_def COLON_def
      unhex_def Let_def hex_string_def hex_char_def)

lemma decrypt_TOKEN_SK_WIDE: "decrypt KEY_A TOKEN_SK_WIDE = Inr SK_ABC"
  using decrypt_cong [of TOKEN_SK_WIDE TOKEN_SK KEY_A] parts_TOKEN_SK_WIDE
    parts_TOKEN_SK(1) [of "[]"]
  by (simp add: decrypt_SK)

text \<open>
  The first block of the ciphertext of the string of 22 characters, decrypted alone: its
  plaintext ends with the byte 01, which is a valid padding of one byte.
\<close>

lemma unpad_first_block:
  "pkcs7_unpad (concat (cbc_dec (key_expansion (utf8_encode KEY_A))
       [0x00, 0x01, 0x02, 0x03, 0x04, 0x05, 0x06, 0x07, 0x08, 0x09, 0x0A, 0x0B, 0x0C, 0x0D, 0x0E, 0x0F]
       (blocks [0x9B, 0x8E, 0xA8, 0x9D, 0x20, 0x83, 0x4D, 0x01, 0xDD, 0xFD, 0xD1, 0xBF, 0xD3, 0xCD, 0x15, 0xEA]))) =
     Inr [0x61, 0x61, 0x61, 0x61, 0x61, 0x61, 0x61, 0x61, 0x61, 0x61, 0x61, 0x61, 0x61, 0x61, 0x61]"
proof -
  have "inv_cipher (key_expansion (utf8_encode KEY_A))
      (cipher (key_expansion (utf8_encode KEY_A))
         [0x61, 0x60, 0x63, 0x62, 0x65, 0x64, 0x67, 0x66, 0x69, 0x68, 0x6B, 0x6A, 0x6D, 0x6C, 0x6F, 0x0E]) =
      [0x61, 0x60, 0x63, 0x62, 0x65, 0x64, 0x67, 0x66, 0x69, 0x68, 0x6B, 0x6A, 0x6D, 0x6C, 0x6F, 0x0E]"
    by (rule inv_cipher_cipher) simp
  then have "inv_cipher (key_expansion (utf8_encode KEY_A))
      [0x9B, 0x8E, 0xA8, 0x9D, 0x20, 0x83, 0x4D, 0x01, 0xDD, 0xFD, 0xD1, 0xBF, 0xD3, 0xCD, 0x15, 0xEA] =
      [0x61, 0x60, 0x63, 0x62, 0x65, 0x64, 0x67, 0x66, 0x69, 0x68, 0x6B, 0x6A, 0x6D, 0x6C, 0x6F, 0x0E]"
    by (simp only: cut1_cipher)
  then show ?thesis
    by (simp add: blocks_def xor_block_16 pkcs7_unpad_def)
qed

lemma parts_TOKEN_22_ZZ:
  "COLON \<in> set TOKEN_22_ZZ"
  "hex_decode (nonce_part TOKEN_22_ZZ) =
     [0x00, 0x01, 0x02, 0x03, 0x04, 0x05, 0x06, 0x07, 0x08, 0x09, 0x0A, 0x0B, 0x0C, 0x0D, 0x0E, 0x0F]"
  "hex_decode (cipher_part TOKEN_22_ZZ) =
     [0x9B, 0x8E, 0xA8, 0x9D, 0x20, 0x83, 0x4D, 0x01, 0xDD, 0xFD, 0xD1, 0xBF, 0xD3, 0xCD, 0x15, 0xEA]"
  "even (length (cipher_part TOKEN_22_ZZ))"
  "\<not> hex_string (cipher_part TOKEN_22_ZZ)"
  by (simp_all add: TOKEN_22_ZZ_def TOKEN_22_def nonce_part_def cipher_part_def COLON_def
      unhex_def Let_def hex_string_def hex_char_def)

lemma decrypt_TOKEN_22_ZZ: "decrypt KEY_A TOKEN_22_ZZ = Inr (take 15 PLAIN_22)"
  by (simp add: decrypt_colon [OF parts_TOKEN_22_ZZ(1)] parts_TOKEN_22_ZZ(2-4) length_KEY_A
      aes256cbc_decrypt_def unpad_first_block PLAIN_22_def replicate_numeral)

lemma decrypt_TOKEN_AB:
  "decrypt KEY_A TOKEN_AB = Inl FailedToDecrypt \<and> \<not> spec_decrypt_fails KEY_A TOKEN_AB"
proof -
  have n: "COLON \<notin> set (replicate 32 (0x30 :: 16 word))" by (simp add: COLON_def)
  have s: "split_on COLON TOKEN_AB = [[0x61, 0x62], replicate 32 0x30]"
    using split_on_no_sep [OF n] by (simp add: TOKEN_AB_def COLON_def)
  have "hex_string [0x61, 0x62]" by (simp add: hex_string_def hex_char_def)
  moreover have "hex_string (replicate 32 0x30)"
    by (simp add: hex_string_def hex_char_def list_all_iff)
  ultimately show ?thesis
    by (simp add: decrypt_def decrypt_body_def spec_decrypt_fails_def cipher_rejects_def s
        unhex_def Let_def createDecipheriv_def createCipheriv_def)
qed

text \<open>
  Claim C5 as it is written does not hold of \<open>decrypt\<close>, with the key of 32 letters \<open>a\<close>:

  \<^item> the token \<open>ab:00000000000000000000000000000000\<close> has two parts, both of them
    hexadecimal digits in pairs, and no cipher ever sees it: its nonce is one byte,
    \<open>createDecipheriv\<close> throws, and \<open>decrypt\<close> fails;

  \<^item> the token made of \<open>sk-abc\<close>, followed by \<open>zz\<close>, has a part that is not hexadecimal
    digits, and \<open>decrypt\<close> returns \<open>sk-abc\<close>; so does that token with U+3031 in the place
    of a digit \<open>1\<close>;

  \<^item> the token that \<open>encrypt\<close> makes of a string of 22 characters, with \<open>zz\<close> between the
    two blocks of its ciphertext, has a part that is not hexadecimal digits, and
    \<open>decrypt\<close> returns the first 15 characters of the string: a part of the plaintext.
\<close>

theorem decrypt_failures_not_as_listed:
  "decrypt KEY_A TOKEN_AB = Inl FailedToDecrypt \<and> \<not> spec_decrypt_fails KEY_A TOKEN_AB
   \<and> spec_decrypt_fails KEY_A TOKEN_SK_ZZ \<and> decrypt KEY_A TOKEN_SK_ZZ = Inr SK_ABC
   \<and> spec_decrypt_fails KEY_A TOKEN_SK_WIDE \<and> decrypt KEY_A TOKEN_SK_WIDE = Inr SK_ABC
   \<and> encrypt KEY_A rng_count PLAIN_22 = Inr TOKEN_22
   \<and> spec_decrypt_fails KEY_A TOKEN_22_ZZ
   \<and> decrypt KEY_A TOKEN_22_ZZ = Inr (take 15 PLAIN_22) \<and> length PLAIN_22 = 22"
  using decrypt_TOKEN_AB decrypt_TOKEN_SK_ZZ spec_fails_TOKEN_SK_ZZ decrypt_TOKEN_SK_WIDE
    spec_fails_part [OF parts_TOKEN_SK_WIDE(1) parts_TOKEN_SK_WIDE(5)]
    spec_fails_part [OF parts_TOKEN_22_ZZ(1) parts_TOKEN_22_ZZ(5)]
    encrypt_PLAIN_22 decrypt_TOKEN_22_ZZ
  by (simp add: PLAIN_22_def)

lemma decrypt_well_formed:
  "decrypt KEY (hex_encode iv @ COLON # hex_encode ct) =
     (if length iv \<noteq> 16 \<or> length (utf8_encode KEY) \<noteq> 32 \<or> ct = [] \<or> length ct mod 16 \<noteq> 0
      then Inl FailedToDecrypt
      else (case pkcs7_unpad (concat (cbc_dec (key_expansion (utf8_encode KEY)) iv (blocks ct))) of
              Inl e \<Rightarrow> Inl FailedToDecrypt
            | Inr plain \<Rightarrow> Inr (utf8_decode plain)))"
proof -
  have c: "COLON \<in> set (hex_encode iv @ COLON # hex_encode ct)" by simp
  show ?thesis
    using parts_append [OF colon_notin_hex, of iv "hex_encode ct"]
    by (simp add: decrypt_colon [OF c] hex_decode_hex_encode length_hex_encode
        aes256cbc_decrypt_def)
qed

text \<open>
  Claim C5, with the failures the code has, for a key of 32 bytes. \<open>decrypt\<close> fails, with
  the one error it throws, exactly when the token has no colon, or the hexadecimal digits
  at the start of the text before the first colon are not 16 bytes, or the text after the
  first colon has an odd length, or the hexadecimal digits at its start are no bytes at all
  or not a whole number of blocks, or the padding of the last block of these bytes is
  rejected. When it does not fail, it returns the text decoded from what the cipher gives
  for the bytes that were decoded from the token. Decoding hexadecimal digits does not
  fail: it stops at the first pair that is not two digits, so that the bytes decoded may be
  the leading blocks of a ciphertext only. For a token written as \<open>encrypt\<close> writes it,
  the hexadecimal digits of a nonce, a colon and the hexadecimal digits of a ciphertext,
  the bytes are all of the nonce and all of the ciphertext.
\<close>

theorem decrypt_fails_iff:
  assumes "length (utf8_encode KEY) = 32"
  shows "(decrypt KEY t = Inl FailedToDecrypt \<longleftrightarrow>
      COLON \<notin> set t
      \<or> length (hex_decode (nonce_part t)) \<noteq> 16
      \<or> odd (length (cipher_part t))
      \<or> hex_decode (cipher_part t) = []
      \<or> length (hex_decode (cipher_part t)) mod 16 \<noteq> 0
      \<or> pkcs7_unpad (concat (cbc_dec (key_expansion (utf8_encode KEY)) (hex_decode (nonce_part t))
            (blocks (hex_decode (cipher_part t))))) = Inl BadDecrypt)
   \<and> (decrypt KEY t = Inl FailedToDecrypt
       \<or> (\<exists>plain. aes256cbc_decrypt (utf8_encode KEY) (hex_decode (nonce_part t))
                      (hex_decode (cipher_part t)) = Inr plain
                    \<and> decrypt KEY t = Inr (utf8_decode plain)))
   \<and> (unhex x = None \<or> unhex y = None \<longrightarrow> hex_decode (hex_encode bs @ x # y # r) = bs)
   \<and> decrypt KEY (hex_encode iv @ COLON # hex_encode ct) =
       (if length iv \<noteq> 16 \<or> ct = [] \<or> length ct mod 16 \<noteq> 0 then Inl FailedToDecrypt
        else (case pkcs7_unpad (concat (cbc_dec (key_expansion (utf8_encode KEY)) iv (blocks ct))) of
                Inl e \<Rightarrow> Inl FailedToDecrypt
              | Inr plain \<Rightarrow> Inr (utf8_decode plain)))"
proof -
  have 1: "(decrypt KEY t = Inl FailedToDecrypt \<longleftrightarrow>
      COLON \<notin> set t
      \<or> length (hex_decode (nonce_part t)) \<noteq> 16
      \<or> odd (length (cipher_part t))
      \<or> hex_decode (cipher_part t) = []
      \<or> length (hex_decode (cipher_part t)) mod 16 \<noteq> 0
      \<or> pkcs7_unpad (concat (cbc_dec (key_expansion (utf8_encode KEY)) (hex_decode (nonce_part t))
            (blocks (hex_decode (cipher_part t))))) = Inl BadDecrypt)
   \<and> (decrypt KEY t = Inl FailedToDecrypt
       \<or> (\<exists>plain. aes256cbc_decrypt (utf8_encode KEY) (hex_decode (nonce_part t))
                      (hex_decode (cipher_part t)) = Inr plain
                    \<and> decrypt KEY t = Inr (utf8_decode plain)))"
  proof (cases "COLON \<in> set t")
    case False
    then show ?thesis by (simp add: decrypt_no_colon)
  next
    case True
    show ?thesis
      using aes256cbc_decrypt_fails [of "utf8_encode KEY" "hex_decode (nonce_part t)"
          "hex_decode (cipher_part t)"] True assms
      by (auto simp: decrypt_colon [OF True] split: sum.splits)
  qed
  have 2: "unhex x = None \<or> unhex y = None \<longrightarrow> hex_decode (hex_encode bs @ x # y # r) = bs"
    by (auto simp: hex_decode_hex_encode_append split: option.splits)
  have 3: "decrypt KEY (hex_encode iv @ COLON # hex_encode ct) =
       (if length iv \<noteq> 16 \<or> ct = [] \<or> length ct mod 16 \<noteq> 0 then Inl FailedToDecrypt
        else (case pkcs7_unpad (concat (cbc_dec (key_expansion (utf8_encode KEY)) iv (blocks ct))) of
                Inl e \<Rightarrow> Inl FailedToDecrypt
              | Inr plain \<Rightarrow> Inr (utf8_decode plain)))"
    using assms by (simp add: decrypt_well_formed)
  show ?thesis
    by (rule conjI [OF conjunct1 [OF 1] conjI [OF conjunct2 [OF 1] conjI [OF 2 3]]])
qed

text \<open>
  With the key of 32 letters \<open>a\<close>: the string \<open>abcd\<close> has no colon and \<open>decrypt\<close> fails on
  it; the hexadecimal digits of the bytes of \<open>sk-abc\<close> followed by \<open>zz\<close> are decoded to
  those bytes; and of the token \<open>000102030405060708090a0b0c0d0e0f:9b8ea89d20834d01ddfdd1bfd3cd15ea\<close>,
  written as \<open>encrypt\<close> writes it, \<open>decrypt\<close> returns 15 letters \<open>a\<close>.
\<close>

theorem decrypt_fails_iff_witness:
  "length (utf8_encode KEY_A) = 32
   \<and> COLON \<notin> set ABCD \<and> decrypt KEY_A ABCD = Inl FailedToDecrypt
   \<and> (unhex 0x7A = None \<or> unhex 0x7A = None)
   \<and> hex_decode (hex_encode (utf8_encode SK_ABC) @ [0x7A, 0x7A]) = utf8_encode SK_ABC
   \<and> decrypt KEY_A
       (hex_encode [0x00, 0x01, 0x02, 0x03, 0x04, 0x05, 0x06, 0x07, 0x08, 0x09, 0x0A, 0x0B, 0x0C, 0x0D, 0x0E, 0x0F]
        @ COLON # hex_encode [0x9B, 0x8E, 0xA8, 0x9D, 0x20, 0x83, 0x4D, 0x01, 0xDD, 0xFD, 0xD1, 0xBF, 0xD3, 0xCD, 0x15, 0xEA]) =
       Inr [0x61, 0x61, 0x61, 0x61, 0x61, 0x61, 0x61, 0x61, 0x61, 0x61, 0x61, 0x61, 0x61, 0x61, 0x61]"
  using decrypt_fails_iff [OF length_KEY_A, of ABCD "0x7A" "0x7A" "utf8_encode SK_ABC" "[]"
      "[0x00, 0x01, 0x02, 0x03, 0x04, 0x05, 0x06, 0x07, 0x08, 0x09, 0x0A, 0x0B, 0x0C, 0x0D, 0x0E, 0x0F]"
      "[0x9B, 0x8E, 0xA8, 0x9D, 0x20, 0x83, 0x4D, 0x01, 0xDD, 0xFD, 0xD1, 0xBF, 0xD3, 0xCD, 0x15, 0xEA]"]
    length_KEY_A
  by (simp add: ABCD_def COLON_def unhex_def Let_def unpad_first_block)

subsection \<open>The check of the key at startup\<close>

lemma trim_id: "s \<noteq> [] \<Longrightarrow> \<not> is_space (hd s) \<Longrightarrow> \<not> is_space (last s) \<Longrightarrow> trim s = s"
proof -
  assume a: "s \<noteq> []" "\<not> is_space (hd s)" "\<not> is_space (last s)"
  then have "dropWhile is_space s = s" by (cases s) simp_all
  moreover have "dropWhile is_space (rev s) = rev s"
    using a by (cases "rev s") (simp_all add: hd_rev [symmetric])
  ultimately show ?thesis by (simp add: trim_def)
qed

lemma not_space_letters: "\<not> is_space 0x61" "\<not> is_space 0xE9"
  by (simp_all add: is_space_def)

lemma trim_KEY_A: "trim KEY_A = KEY_A"
  by (rule trim_id) (simp_all add: KEY_A_def not_space_letters)

lemma trim_KEY_ACCENT: "trim KEY_ACCENT = KEY_ACCENT"
  by (rule trim_id) (simp_all add: KEY_ACCENT_def not_space_letters)

lemma length_KEY_ACCENT: "length (utf8_encode KEY_ACCENT) = 33"
proof -
  have "ascii (replicate 31 0x61)" by (simp add: ascii_def list_all_iff)
  from utf8_encode_ascii [OF this, of "[0xE9]"] show ?thesis
    by (simp add: KEY_ACCENT_def is_lead_def is_trail_def utf8_cp_def)
qed

text \<open>
  Claim C9 at a key of 31 letters \<open>a\<close> and one accented letter: it is 32 characters and 33
  bytes. The check of lines 14 to 17 counts characters and lets the process go on with
  it, and \<open>encrypt\<close> then fails on the size of the key.
\<close>

theorem key_of_32_characters_33_bytes:
  "startup_check (Some KEY_ACCENT) = Running KEY_ACCENT
   \<and> length (utf8_encode KEY_ACCENT) = 33
   \<and> encrypt KEY_ACCENT rng_count SK_ABC = Inl InvalidKeyLength"
  by (simp add: startup_check_def trim_KEY_ACCENT length_KEY_ACCENT encrypt_def Let_def
      createCipheriv_def length_randomBytes IV_LENGTH_def) (simp add: KEY_ACCENT_def)

lemma decrypt_body_key_length:
  "length (utf8_encode KEY) = 32 \<Longrightarrow> decrypt_body KEY t \<noteq> Inl InvalidKeyLength"
  using aes256cbc_decrypt_cases [of "utf8_encode KEY" "hex_decode (hd (split_on COLON t))"
      "hex_decode (join_with COLON (tl (split_on COLON t)))"]
  by (auto simp: decrypt_body_def Let_def createDecipheriv_def createCipheriv_def
      split: sum.splits)

text \<open>
  What the check does ensure: the process exits with code 1 exactly when the key is not
  set or, trimmed, is not 32 characters long (UTF-16 code units; the empty key is one of
  these). When the check has passed and each character of the key is one byte, the key is
  32 bytes, \<open>encrypt\<close> does not fail and \<open>decrypt\<close> does not fail on the size of the key.
\<close>

theorem startup_check_key:
  "(startup_check env = Exit 1 \<longleftrightarrow>
      (case env of None \<Rightarrow> True | Some raw \<Rightarrow> length (trim raw) \<noteq> 32))
   \<and> (startup_check env = Running k \<longrightarrow> env = Some raw \<longrightarrow> k = trim raw \<and> length k = 32)
   \<and> (startup_check env = Running k \<and> ascii k \<longrightarrow>
        length (utf8_encode k) = 32
        \<and> (\<exists>token. encrypt k rng s = Inr token)
        \<and> decrypt_body k t \<noteq> Inl InvalidKeyLength)"
proof -
  have "length (utf8_encode k) = 32" if "startup_check env = Running k" "ascii k"
    using that by (auto simp: startup_check_def length_utf8_ascii split: option.splits if_splits)
  then show ?thesis
    using decrypt_body_encrypt(1) [of k rng s] decrypt_body_key_length [of k t]
    by (auto simp: startup_check_def split: option.splits)
qed

text \<open>The key of 32 letters \<open>a\<close> passes the check and is 32 bytes.\<close>

theorem startup_check_key_witness:
  "startup_check (Some KEY_A) = Running KEY_A \<and> ascii KEY_A
   \<and> length (utf8_encode KEY_A) = 32
   \<and> (\<exists>token. encrypt KEY_A rng_count SK_ABC = Inr token)
   \<and> decrypt_body KEY_A TOKEN_AB \<noteq> Inl InvalidKeyLength
   \<and> startup_check None = Exit 1"
proof -
  have r: "startup_check (Some KEY_A) = Running KEY_A"
    by (simp add: startup_check_def trim_KEY_A) (simp add: KEY_A_def)
  show ?thesis
    using startup_check_key [of "Some KEY_A" KEY_A KEY_A rng_count SK_ABC TOKEN_AB]
      startup_check_key [of None KEY_A KEY_A rng_count SK_ABC TOKEN_AB] r ascii_KEY_A
    by simp
qed

section \<open>The bot: sessions and stored data\<close>

lemma TOKEN_SK_nonempty: "TOKEN_SK \<noteq> []"
  by (simp add: TOKEN_SK_def)

lemma TOKEN_SK_truthy: "truthy (Some TOKEN_SK) = Some TOKEN_SK"
  by (simp add: truthy_def TOKEN_SK_nonempty)

lemma truthy_Some: "truthy v = Some x \<longleftrightarrow> v = Some x \<and> x \<noteq> []"
  by (auto simp: truthy_def split: option.splits)

lemma truthy_None: "truthy v = None \<longleftrightarrow> v = None \<or> v = Some []"
  by (auto simp: truthy_def split: option.splits)

lemmas bot_defs = run_def start_def command_done_def interactionCreate_def handleChatCommand_def
  start_session_def saveUserData_end_def emit_def set_user_def get_user_def Let_def

lemma BOT_KEY_eq:
  "BOT_KEY =
     \<lparr>userData = [U1 \<mapsto> \<lparr>promptId = None, openaiKey = Some TOKEN_SK\<rparr>],
      DATA_FILE = [U1 \<mapsto> \<lparr>promptId = None, openaiKey = Some TOKEN_SK\<rparr>],
      ACTIVE_SESSIONS = {}, collectors = [],
      outputs = [LogMessage DataSaved, LogMessage (KeySavedLog U1), InteractionReply KeySaved]\<rparr>"
  by (simp add: BOT_KEY_def bot_defs encrypt_SK)

lemma BOT_PROMPT_eq:
  "BOT_PROMPT =
     \<lparr>userData = [U1 \<mapsto> \<lparr>promptId = Some BE_BRIEF, openaiKey = Some TOKEN_SK\<rparr>],
      DATA_FILE = [U1 \<mapsto> \<lparr>promptId = Some BE_BRIEF, openaiKey = Some TOKEN_SK\<rparr>],
      ACTIVE_SESSIONS = {}, collectors = [],
      outputs = [LogMessage DataSaved, LogMessage (KeySavedLog U1), InteractionReply KeySaved,
                 LogMessage DataSaved, LogMessage (PromptSavedLog U1 8),
                 InteractionReply (PromptSaved U1 8)]\<rparr>"
  by (simp add: BOT_PROMPT_def BOT_KEY_eq bot_defs charLimit_def BE_BRIEF_def)

lemma BOT_CHAT_eq:
  "BOT_CHAT =
     \<lparr>userData = [U1 \<mapsto> \<lparr>promptId = Some BE_BRIEF, openaiKey = Some TOKEN_SK\<rparr>],
      DATA_FILE = [U1 \<mapsto> \<lparr>promptId = Some BE_BRIEF, openaiKey = Some TOKEN_SK\<rparr>],
      ACTIVE_SESSIONS = {U1},
      collectors = [\<lparr>c_userId = U1, c_channelId = C1, c_prompt = BE_BRIEF, c_openaiKey = SK_ABC,
                     collected = [], ended = False\<rparr>],
      outputs = [LogMessage DataSaved, LogMessage (KeySavedLog U1), InteractionReply KeySaved,
                 LogMessage DataSaved, LogMessage (PromptSavedLog U1 8),
                 InteractionReply (PromptSaved U1 8),
                 InteractionReply (SystemPrompt BE_BRIEF), DeleteReplyAfter 60000]\<rparr>"
  by (simp add: BOT_CHAT_def BOT_PROMPT_eq bot_defs TOKEN_SK_nonempty decrypt_SK
      truthy_def BE_BRIEF_def)


subsection \<open>The collector\<close>

lemmas collector_defs = handleCollect_def on_collect_def stop_def on_end_def emit_def Let_def

lemma stop_live:
  assumes "i < length (collectors s)" and "\<not> ended (collectors s ! i)"
  shows "stop i reason s =
    s\<lparr>collectors := (collectors s)[i := (collectors s ! i)\<lparr>ended := True\<rparr>],
      ACTIVE_SESSIONS := ACTIVE_SESSIONS s - {c_userId (collectors s ! i)},
      outputs := outputs s @
        [LogMessage (SessionEndLog (c_userId (collectors s ! i))
           (length (collected (collectors s ! i)))),
         ChannelSend (c_channelId (collectors s ! i))
           (SessionExpired (c_userId (collectors s ! i)))]\<rparr>"
  using assms by (simp add: stop_def on_end_def)

lemma handleCollect_exit:
  assumes "i < length (collectors s)" and "\<not> ended (collectors s ! i)"
    and "toLowerCase (trim content) \<in> set EXIT_WORDS"
  shows "handleCollect i (c_userId (collectors s ! i)) (c_channelId (collectors s ! i)) content s =
    s\<lparr>collectors := (collectors s)[i := (collectors s ! i)
          \<lparr>collected := collected (collectors s ! i) @ [content], ended := True\<rparr>],
      ACTIVE_SESSIONS := ACTIVE_SESSIONS s - {c_userId (collectors s ! i)},
      outputs := outputs s @
        [MessageReply SessionEnded,
         LogMessage (SessionEndLog (c_userId (collectors s ! i))
           (Suc (length (collected (collectors s ! i))))),
         ChannelSend (c_channelId (collectors s ! i))
           (SessionExpired (c_userId (collectors s ! i)))]\<rparr>"
  using assms by (simp add: collector_defs)

lemma handleCollect_length [simp]:
  "length (collectors (handleCollect j a ch m s)) = length (collectors s)"
  by (simp add: collector_defs)

lemma handleCollect_other:
  "j \<noteq> i \<Longrightarrow> collectors (handleCollect j a ch m s) ! i = collectors s ! i"
  by (simp add: collector_defs)

lemma handleCollect_ids:
  "c_userId (collectors (handleCollect j a ch m s) ! i) = c_userId (collectors s ! i)
   \<and> c_channelId (collectors (handleCollect j a ch m s) ! i) = c_channelId (collectors s ! i)"
  by (cases "j = i"; cases "i < length (collectors s)") (simp_all add: collector_defs)

lemma handleCollect_sessions: "ACTIVE_SESSIONS (handleCollect j a ch m s) \<subseteq> ACTIVE_SESSIONS s"
  by (auto simp: collector_defs)

lemma handleCollect_outputs: "\<exists>os. outputs (handleCollect j a ch m s) = outputs s @ os"
  by (simp add: collector_defs)

lemma handleCollect_ends:
  assumes "i < length (collectors s)" and "\<not> ended (collectors s ! i)"
    and "ended (collectors (handleCollect j a ch m s) ! i)"
  shows "j = i \<and> a = c_userId (collectors s ! i) \<and> ch = c_channelId (collectors s ! i)
    \<and> toLowerCase (trim m) \<in> set EXIT_WORDS"
  using assms by (cases "j = i") (auto simp: collector_defs split: if_splits)

lemma fold_length [simp]:
  "length (collectors (fold (\<lambda>j. handleCollect j a ch m) js s)) = length (collectors s)"
  by (induction js arbitrary: s) simp_all

lemma fold_other:
  "i \<notin> set js \<Longrightarrow> collectors (fold (\<lambda>j. handleCollect j a ch m) js s) ! i = collectors s ! i"
  by (induction js arbitrary: s) (simp_all add: handleCollect_other)

lemma fold_sessions:
  "ACTIVE_SESSIONS (fold (\<lambda>j. handleCollect j a ch m) js s) \<subseteq> ACTIVE_SESSIONS s"
proof (induction js arbitrary: s)
  case Nil
  then show ?case by simp
next
  case (Cons j js)
  then show ?case using handleCollect_sessions [of j a ch m s] by fastforce
qed

lemma fold_outputs:
  "\<exists>os. outputs (fold (\<lambda>j. handleCollect j a ch m) js s) = outputs s @ os"
proof (induction js arbitrary: s)
  case Nil
  then show ?case by simp
next
  case (Cons j js)
  obtain os1 where "outputs (handleCollect j a ch m s) = outputs s @ os1"
    using handleCollect_outputs by blast
  moreover obtain os2 where "outputs (fold (\<lambda>j. handleCollect j a ch m) js (handleCollect j a ch m s))
      = outputs (handleCollect j a ch m s) @ os2"
    using Cons.IH by blast
  ultimately show ?case by simp
qed

lemma fold_ends:
  assumes "i < length (collectors s)" and "\<not> ended (collectors s ! i)"
    and "ended (collectors (fold (\<lambda>j. handleCollect j a ch m) js s) ! i)"
  shows "a = c_userId (collectors s ! i) \<and> ch = c_channelId (collectors s ! i)
    \<and> toLowerCase (trim m) \<in> set EXIT_WORDS"
  using assms
proof (induction js arbitrary: s)
  case Nil
  then show ?case by simp
next
  case (Cons j js)
  show ?case
  proof (cases "ended (collectors (handleCollect j a ch m s) ! i)")
    case True
    with Cons.prems show ?thesis using handleCollect_ends by blast
  next
    case False
    have "a = c_userId (collectors (handleCollect j a ch m s) ! i)
      \<and> ch = c_channelId (collectors (handleCollect j a ch m s) ! i)
      \<and> toLowerCase (trim m) \<in> set EXIT_WORDS"
      using Cons.IH [of "handleCollect j a ch m s"] Cons.prems False by simp
    then show ?thesis by (simp add: handleCollect_ids)
  qed
qed

lemma messageCreate_exit:
  assumes "i < length (collectors s)" and "\<not> ended (collectors s ! i)"
    and "toLowerCase (trim content) \<in> set EXIT_WORDS"
  shows "c_userId (collectors s ! i) \<notin> ACTIVE_SESSIONS
           (messageCreate (c_userId (collectors s ! i)) (c_channelId (collectors s ! i)) content s)"
    and "ended (collectors
           (messageCreate (c_userId (collectors s ! i)) (c_channelId (collectors s ! i)) content s) ! i)"
    and "LogMessage (SessionEndLog (c_userId (collectors s ! i))
           (length (collected (collectors s ! i)) + 1))
         \<in> set (outputs
           (messageCreate (c_userId (collectors s ! i)) (c_channelId (collectors s ! i)) content s))"
proof -
  let ?u = "c_userId (collectors s ! i)" and ?ch = "c_channelId (collectors s ! i)"
  let ?f = "\<lambda>j. handleCollect j ?u ?ch content"
  let ?n = "length (collectors s)"
  define s1 where "s1 = fold ?f [0..<i] s"
  define s2 where "s2 = handleCollect i ?u ?ch content s1"
  have split: "[0..<?n] = [0..<i] @ i # [Suc i..<?n]"
    using assms(1) by (metis le_add1 le_add_same_cancel1 less_imp_add_positive upt_add_eq_append upt_conv_Cons)
  have m: "messageCreate ?u ?ch content s = fold ?f [Suc i..<?n] s2"
    by (simp add: messageCreate_def split s1_def s2_def)
  have c1: "collectors s1 ! i = collectors s ! i"
    unfolding s1_def by (rule fold_other) simp
  have l1: "i < length (collectors s1)" using assms(1) by (simp add: s1_def)
  have e1: "\<not> ended (collectors s1 ! i)" using assms(2) c1 by simp
  have s2: "s2 = s1\<lparr>collectors := (collectors s1)[i := (collectors s ! i)
          \<lparr>collected := collected (collectors s ! i) @ [content], ended := True\<rparr>],
      ACTIVE_SESSIONS := ACTIVE_SESSIONS s1 - {?u},
      outputs := outputs s1 @
        [MessageReply SessionEnded,
         LogMessage (SessionEndLog ?u (Suc (length (collected (collectors s ! i))))),
         ChannelSend ?ch (SessionExpired ?u)]\<rparr>"
    using handleCollect_exit [OF l1 e1 assms(3)] by (simp add: s2_def c1)
  have "?u \<notin> ACTIVE_SESSIONS s2" by (simp add: s2)
  then show "?u \<notin> ACTIVE_SESSIONS (messageCreate ?u ?ch content s)"
    using fold_sessions [of ?u ?ch content "[Suc i..<?n]" s2] by (auto simp: m)
  have "collectors (fold ?f [Suc i..<?n] s2) ! i = collectors s2 ! i"
    by (rule fold_other) simp
  then show "ended (collectors (messageCreate ?u ?ch content s) ! i)"
    using l1 by (simp add: m s2)
  obtain os where "outputs (fold ?f [Suc i..<?n] s2) = outputs s2 @ os"
    using fold_outputs by blast
  then show "LogMessage (SessionEndLog ?u (length (collected (collectors s ! i)) + 1))
         \<in> set (outputs (messageCreate ?u ?ch content s))"
    by (simp add: m s2)
qed

lemma not_space_exit: "trim EXIT = EXIT"
  by (rule trim_id) (simp_all add: EXIT_def is_space_def)

lemma exit_word: "toLowerCase (trim EXIT) \<in> set EXIT_WORDS"
  by (simp add: not_space_exit) (simp add: EXIT_def toLowerCase_def EXIT_WORDS_def)

lemma hello_word: "trim HELLO = HELLO" "toLowerCase HELLO \<notin> set EXIT_WORDS"
proof -
  show "trim HELLO = HELLO" by (rule trim_id) (simp_all add: HELLO_def is_space_def)
  show "toLowerCase HELLO \<notin> set EXIT_WORDS"
    by (simp add: HELLO_def toLowerCase_def EXIT_WORDS_def)
qed

lemma BOT_HELLO_eq:
  "BOT_HELLO =
     BOT_CHAT\<lparr>collectors := [\<lparr>c_userId = U1, c_channelId = C1, c_prompt = BE_BRIEF,
                    c_openaiKey = SK_ABC, collected = [HELLO], ended = False\<rparr>],
       outputs := outputs BOT_CHAT @
         [SendTyping C1, Request SK_ABC BE_BRIEF HELLO, MessageReply (Completion HI_THERE)]\<rparr>"
  by (simp add: BOT_HELLO_def run_def messageCreate_def collector_defs BOT_CHAT_eq hello_word
      on_response_def truthy_def HI_THERE_def)

lemma on_response_frame:
  "collectors (on_response r s) = collectors s"
  "ACTIVE_SESSIONS (on_response r s) = ACTIVE_SESSIONS s"
  "userData (on_response r s) = userData s"
  by (simp_all add: on_response_def emit_def)

lemma resume_collectors: "\<exists>extra. collectors (resume written k s) = collectors s @ extra"
proof (cases k)
  case (AwaitSave snapshot r)
  then show ?thesis
    by (cases r) (simp_all add: start_session_def saveUserData_end_def emit_def split: option.splits)
qed

lemma interactionCreate_collectors:
  "\<exists>extra. collectors (fst (interactionCreate KEY rng userId ch cmd s)) = collectors s @ extra"
  by (cases cmd)
    (simp_all add: interactionCreate_def handleChatCommand_def start_session_def emit_def
      set_user_def Let_def split: option.splits sum.splits)

lemma command_done_collectors:
  "\<exists>extra. collectors (command_done KEY rng written userId ch cmd s) = collectors s @ extra"
proof -
  obtain s1 k where i: "interactionCreate KEY rng userId ch cmd s = (s1, k)" by fastforce
  obtain e1 where e1: "collectors s1 = collectors s @ e1"
    using interactionCreate_collectors [of KEY rng userId ch cmd s] i by auto
  show ?thesis
  proof (cases k)
    case None
    then show ?thesis using i e1 by (simp add: command_done_def)
  next
    case (Some k')
    obtain e2 where "collectors (resume written k' s1) = collectors s1 @ e2"
      using resume_collectors by blast
    then show ?thesis using i e1 Some by (simp add: command_done_def)
  qed
qed

lemma step_ends:
  assumes "i < length (collectors s)" and "\<not> ended (collectors s ! i)"
    and "ended (collectors (step KEY ev s) ! i)"
  shows "ev = Timer i
    \<or> (\<exists>content. ev = Message (c_userId (collectors s ! i)) (c_channelId (collectors s ! i)) content
          \<and> toLowerCase (trim content) \<in> set EXIT_WORDS)"
proof (cases ev)
  case (Command rng written userId ch cmd)
  obtain extra where "collectors (command_done KEY rng written userId ch cmd s) = collectors s @ extra"
    using command_done_collectors by blast
  then have "collectors (step KEY ev s) ! i = collectors s ! i"
    using assms(1) Command by (simp add: nth_append)
  with assms show ?thesis by simp
next
  case (Message a ch m)
  then show ?thesis
    using fold_ends [OF assms(1,2), of a ch m "[0..<length (collectors s)]"] assms(3)
    by (simp add: messageCreate_def)
next
  case (Timer j)
  then show ?thesis using assms
    by (cases "j = i") (auto simp: stop_def on_end_def Let_def split: if_splits)
next
  case (Response r)
  then show ?thesis using assms by (simp add: on_response_frame)
qed

lemma messageCreate_collected:
  assumes "i < length (collectors s)" and "\<not> ended (collectors s ! i)"
  shows "collected (collectors
           (messageCreate (c_userId (collectors s ! i)) (c_channelId (collectors s ! i)) content s) ! i)
         = collected (collectors s ! i) @ [content]"
proof -
  let ?u = "c_userId (collectors s ! i)" and ?ch = "c_channelId (collectors s ! i)"
  let ?f = "\<lambda>j. handleCollect j ?u ?ch content"
  let ?n = "length (collectors s)"
  have split: "[0..<?n] = [0..<i] @ i # [Suc i..<?n]"
    using assms(1) by (metis le_add1 le_add_same_cancel1 less_imp_add_positive upt_add_eq_append upt_conv_Cons)
  have c1: "collectors (fold ?f [0..<i] s) ! i = collectors s ! i"
    by (rule fold_other) simp
  have "collectors (fold ?f [Suc i..<?n] (handleCollect i ?u ?ch content (fold ?f [0..<i] s))) ! i
      = collectors (handleCollect i ?u ?ch content (fold ?f [0..<i] s)) ! i"
    by (rule fold_other) simp
  then show ?thesis
    using assms c1 by (simp add: messageCreate_def split) (simp add: collector_defs)
qed

subsection \<open>The end of a session\<close>

text \<open>
  Claim C6: when a collector that has not ended is stopped, for whatever reason, the
  entry of its user is removed from \<open>ACTIVE_SESSIONS\<close> and the number of messages
  collected is logged. The timer stops it with the reason \<open>time\<close>; a message of the user
  in the channel whose trimmed, lower-case content is \<open>exit\<close> or \<open>stop\<close> stops it, and is
  counted. Whatever the event that ends a collector, afterwards the user has no entry and
  the log has the size of \<open>collected\<close>. With one message forwarded before the exit
  message, the count is 2.
\<close>

theorem collector_end_releases_and_logs:
  assumes "i < length (collectors s)" and "\<not> ended (collectors s ! i)"
  shows "c_userId (collectors s ! i) \<notin> ACTIVE_SESSIONS (stop i reason s)
    \<and> outputs (stop i reason s) = outputs s @
        [LogMessage (SessionEndLog (c_userId (collectors s ! i))
           (length (collected (collectors s ! i)))),
         ChannelSend (c_channelId (collectors s ! i)) (SessionExpired (c_userId (collectors s ! i)))]
    \<and> step KEY (Timer i) s = stop i ''time'' s
    \<and> (toLowerCase (trim content) \<in> set EXIT_WORDS \<longrightarrow>
         ended (collectors (step KEY (Message (c_userId (collectors s ! i))
                  (c_channelId (collectors s ! i)) content) s) ! i)
         \<and> (length (collected (collectors s ! i)) = 1 \<longrightarrow>
              LogMessage (SessionEndLog (c_userId (collectors s ! i)) 2)
              \<in> set (outputs (step KEY (Message (c_userId (collectors s ! i))
                         (c_channelId (collectors s ! i)) content) s))))
    \<and> (ended (collectors (step KEY ev s) ! i) \<longrightarrow>
         c_userId (collectors s ! i) \<notin> ACTIVE_SESSIONS (step KEY ev s)
         \<and> LogMessage (SessionEndLog (c_userId (collectors s ! i))
              (length (collected (collectors (step KEY ev s) ! i))))
            \<in> set (outputs (step KEY ev s)))"
proof -
  let ?u = "c_userId (collectors s ! i)" and ?ch = "c_channelId (collectors s ! i)"
  have a: "?u \<notin> ACTIVE_SESSIONS (stop i reason s)"
    and b: "outputs (stop i reason s) = outputs s @
        [LogMessage (SessionEndLog ?u (length (collected (collectors s ! i)))),
         ChannelSend ?ch (SessionExpired ?u)]"
    by (simp_all add: stop_live [OF assms])
  have c: "step KEY (Timer i) s = stop i ''time'' s" by simp
  have d: "ended (collectors (step KEY (Message ?u ?ch content) s) ! i)
      \<and> (length (collected (collectors s ! i)) = 1 \<longrightarrow>
           LogMessage (SessionEndLog ?u 2) \<in> set (outputs (step KEY (Message ?u ?ch content) s)))"
    if "toLowerCase (trim content) \<in> set EXIT_WORDS"
    using messageCreate_exit(2,3) [OF assms that] by (auto simp: numeral_2_eq_2)
  have e: "?u \<notin> ACTIVE_SESSIONS (step KEY ev s)
      \<and> LogMessage (SessionEndLog ?u (length (collected (collectors (step KEY ev s) ! i))))
          \<in> set (outputs (step KEY ev s))"
    if "ended (collectors (step KEY ev s) ! i)"
  proof -
    from step_ends [OF assms that] consider "ev = Timer i"
      | content where "ev = Message ?u ?ch content" "toLowerCase (trim content) \<in> set EXIT_WORDS"
      by blast
    then show ?thesis
    proof cases
      case 1
      then show ?thesis using assms by (simp add: stop_live [OF assms])
    next
      case 2
      then show ?thesis
        using messageCreate_exit(1,3) [OF assms 2(2)] messageCreate_collected [OF assms, of content]
        by simp
    qed
  qed
  from a b c d e show ?thesis by blast
qed

text \<open>
  \<open>U1\<close> has sent \<open>hello\<close> and has received \<open>hi there\<close>; then \<open>U1\<close> sends \<open>exit\<close>: the
  session ends, \<open>U1\<close> has no entry and the count in the log is 2.
\<close>

theorem collector_end_releases_and_logs_witness:
  "0 < length (collectors BOT_HELLO) \<and> \<not> ended (collectors BOT_HELLO ! 0)
   \<and> MessageReply (Completion HI_THERE) \<in> set (outputs BOT_HELLO)
   \<and> toLowerCase (trim EXIT) \<in> set EXIT_WORDS
   \<and> ended (collectors (step KEY_A (Message U1 C1 EXIT) BOT_HELLO) ! 0)
   \<and> U1 \<notin> ACTIVE_SESSIONS (step KEY_A (Message U1 C1 EXIT) BOT_HELLO)
   \<and> LogMessage (SessionEndLog U1 2) \<in> set (outputs (step KEY_A (Message U1 C1 EXIT) BOT_HELLO))
   \<and> U1 \<notin> ACTIVE_SESSIONS (step KEY_A (Timer 0) BOT_HELLO)"
proof -
  have l: "0 < length (collectors BOT_HELLO)" and e: "\<not> ended (collectors BOT_HELLO ! 0)"
    by (simp_all add: BOT_HELLO_eq)
  have c: "collectors BOT_HELLO ! 0 = \<lparr>c_userId = U1, c_channelId = C1, c_prompt = BE_BRIEF,
                    c_openaiKey = SK_ABC, collected = [HELLO], ended = False\<rparr>"
    by (simp add: BOT_HELLO_eq)
  show ?thesis
    using collector_end_releases_and_logs [OF l e, of "''time''" KEY_A EXIT "Message U1 C1 EXIT"]
      exit_word l e
    by (simp add: c) (simp add: BOT_HELLO_eq)
qed

subsection \<open>Failures of the backend\<close>

text \<open>
  Claim C7: a request that fails and a response that cannot be read each give one reply,
  the notice of the failure, and change neither the collectors nor the sessions, so the
  collector goes on collecting. A collector that has not ended is ended by an event
  exactly when the event is its timer, or a message of its user in its channel whose
  trimmed, lower-case content is \<open>exit\<close> or \<open>stop\<close>.
\<close>

theorem backend_failure_keeps_session:
  "(r = RequestError \<or> r = Unparsable \<longrightarrow>
      collectors (step KEY (Response r) s) = collectors s
      \<and> ACTIVE_SESSIONS (step KEY (Response r) s) = ACTIVE_SESSIONS s
      \<and> outputs (step KEY (Response r) s) = outputs s @
          [MessageReply (if r = RequestError then CommunicationError else InvalidResponse)])
   \<and> (i < length (collectors s) \<and> \<not> ended (collectors s ! i) \<longrightarrow>
        (ended (collectors (step KEY ev s) ! i) \<longleftrightarrow>
           ev = Timer i
           \<or> (\<exists>content. ev = Message (c_userId (collectors s ! i))
                               (c_channelId (collectors s ! i)) content
                 \<and> toLowerCase (trim content) \<in> set EXIT_WORDS)))"
proof -
  have a: "collectors (step KEY (Response r) s) = collectors s
      \<and> ACTIVE_SESSIONS (step KEY (Response r) s) = ACTIVE_SESSIONS s
      \<and> outputs (step KEY (Response r) s) = outputs s @
          [MessageReply (if r = RequestError then CommunicationError else InvalidResponse)]"
    if "r = RequestError \<or> r = Unparsable"
    using that by (auto simp: on_response_def emit_def)
  have b: "ended (collectors (step KEY ev s) ! i) \<longleftrightarrow>
           ev = Timer i
           \<or> (\<exists>content. ev = Message (c_userId (collectors s ! i))
                               (c_channelId (collectors s ! i)) content
                 \<and> toLowerCase (trim content) \<in> set EXIT_WORDS)"
    if l: "i < length (collectors s)" and e: "\<not> ended (collectors s ! i)"
  proof
    assume "ended (collectors (step KEY ev s) ! i)"
    from step_ends [OF l e this] show "ev = Timer i
           \<or> (\<exists>content. ev = Message (c_userId (collectors s ! i))
                               (c_channelId (collectors s ! i)) content
                 \<and> toLowerCase (trim content) \<in> set EXIT_WORDS)" .
  next
    assume "ev = Timer i
           \<or> (\<exists>content. ev = Message (c_userId (collectors s ! i))
                               (c_channelId (collectors s ! i)) content
                 \<and> toLowerCase (trim content) \<in> set EXIT_WORDS)"
    then show "ended (collectors (step KEY ev s) ! i)"
      using messageCreate_exit(2) [OF l e] l by (auto simp: stop_live [OF l e])
  qed
  from a b show ?thesis by blast
qed

text \<open>
  In the chat of \<open>U1\<close>, a failed request and an unreadable response leave the collector
  running, and a response without content does too; \<open>exit\<close> ends it.
\<close>

theorem backend_failure_keeps_session_witness:
  "0 < length (collectors BOT_CHAT) \<and> \<not> ended (collectors BOT_CHAT ! 0)
   \<and> \<not> ended (collectors (step KEY_A (Response RequestError) BOT_CHAT) ! 0)
   \<and> \<not> ended (collectors (step KEY_A (Response Unparsable) BOT_CHAT) ! 0)
   \<and> outputs (step KEY_A (Response RequestError) BOT_CHAT) =
       outputs BOT_CHAT @ [MessageReply CommunicationError]
   \<and> outputs (step KEY_A (Response Unparsable) BOT_CHAT) =
       outputs BOT_CHAT @ [MessageReply InvalidResponse]
   \<and> \<not> ended (collectors (step KEY_A (Message U1 C1 HELLO) BOT_CHAT) ! 0)
   \<and> ended (collectors (step KEY_A (Message U1 C1 EXIT) BOT_CHAT) ! 0)
   \<and> ended (collectors (step KEY_A (Timer 0) BOT_CHAT) ! 0)"
proof -
  have l: "0 < length (collectors BOT_CHAT)" and e: "\<not> ended (collectors BOT_CHAT ! 0)"
    and c: "c_userId (collectors BOT_CHAT ! 0) = U1" "c_channelId (collectors BOT_CHAT ! 0) = C1"
    by (simp_all add: BOT_CHAT_eq)
  have h: "toLowerCase (trim HELLO) \<notin> set EXIT_WORDS" by (simp add: hello_word)
  show ?thesis
    using backend_failure_keeps_session [of RequestError KEY_A BOT_CHAT 0 "Response RequestError"]
      backend_failure_keeps_session [of Unparsable KEY_A BOT_CHAT 0 "Response Unparsable"]
      backend_failure_keeps_session [of Unparsable KEY_A BOT_CHAT 0 "Message U1 C1 HELLO"]
      backend_failure_keeps_session [of Unparsable KEY_A BOT_CHAT 0 "Message U1 C1 EXIT"]
      backend_failure_keeps_session [of Unparsable KEY_A BOT_CHAT 0 "Timer 0"]
      l e h exit_word
    by (simp add: c)
qed

subsection \<open>The notice at the end of a session\<close>

text \<open>
  Claim C4 at the chat of \<open>U1\<close>. When the timer ends the session, the channel is sent the
  notice that the session of \<open>U1\<close> has expired. When \<open>U1\<close> sends \<open>exit\<close>, the message is
  answered with the acknowledgment, and the channel is sent the same notice of expiry.
\<close>

theorem exit_sends_expiry_notice:
  "outputs (step KEY_A (Timer 0) BOT_CHAT) =
     outputs BOT_CHAT @ [LogMessage (SessionEndLog U1 0), ChannelSend C1 (SessionExpired U1)]
   \<and> outputs (step KEY_A (Message U1 C1 EXIT) BOT_CHAT) =
     outputs BOT_CHAT @ [MessageReply SessionEnded, LogMessage (SessionEndLog U1 1),
                         ChannelSend C1 (SessionExpired U1)]"
  by (simp add: messageCreate_def collector_defs BOT_CHAT_eq exit_word)

subsection \<open>Writing the prompt\<close>

lemma stored_prompt_set_get [simp]:
  "stored_prompt (set_user userId (get_user s userId) s) v = stored_prompt s v"
  by (simp add: stored_prompt_def set_user_def get_user_def split: option.splits)

lemma stored_key_set_get [simp]:
  "stored_key (set_user userId (get_user s userId) s) v = stored_key s v"
  by (simp add: stored_key_def set_user_def get_user_def split: option.splits)

text \<open>
  Claim C8: \<open>setprompt\<close> with a prompt of at most 4000 characters, 4000 among them, stores
  the prompt, writes the data (the file holds it when the write succeeds) and tells the
  user that it is saved; with more than 4000 characters, 4001 among them, it tells the
  user that the prompt is too long and changes neither the stored prompts nor the file.
\<close>

theorem setprompt_limit:
  "(length p \<le> 4000 \<longrightarrow>
      stored_prompt (command_done KEY rng written userId ch (SetPrompt p) s) userId = Some p
      \<and> (written \<longrightarrow> DATA_FILE (command_done KEY rng written userId ch (SetPrompt p) s) =
                        userData (command_done KEY rng written userId ch (SetPrompt p) s))
      \<and> outputs (command_done KEY rng written userId ch (SetPrompt p) s) = outputs s @
          [LogMessage (if written then DataSaved else DataSaveFailed),
           LogMessage (PromptSavedLog userId (length p)),
           InteractionReply (PromptSaved userId (length p))])
   \<and> (4000 < length p \<longrightarrow>
        (\<forall>v. stored_prompt (command_done KEY rng written userId ch (SetPrompt p) s) v =
              stored_prompt s v)
        \<and> DATA_FILE (command_done KEY rng written userId ch (SetPrompt p) s) = DATA_FILE s
        \<and> outputs (command_done KEY rng written userId ch (SetPrompt p) s) = outputs s @
            [InteractionReply (PromptTooLong userId (length p))])"
  by (simp add: command_done_def interactionCreate_def charLimit_def Let_def emit_def
      saveUserData_end_def)
    (simp add: stored_prompt_def set_user_def get_user_def split: option.splits)

text \<open>
  \<open>U1\<close> has saved \<open>be brief\<close>: a prompt of 4000 letters replaces it, a prompt of 4001
  letters does not.
\<close>

theorem setprompt_limit_witness:
  "length (replicate 4000 (0x61 :: 16 word)) \<le> 4000
   \<and> stored_prompt (command_done KEY_A rng_count True U1 C1
        (SetPrompt (replicate 4000 0x61)) BOT_PROMPT) U1 = Some (replicate 4000 0x61)
   \<and> 4000 < length LONG_PROMPT
   \<and> stored_prompt (command_done KEY_A rng_count True U1 C1 (SetPrompt LONG_PROMPT) BOT_PROMPT) U1
       = Some BE_BRIEF
   \<and> outputs (command_done KEY_A rng_count True U1 C1 (SetPrompt LONG_PROMPT) BOT_PROMPT)
       = outputs BOT_PROMPT @ [InteractionReply (PromptTooLong U1 4001)]"
proof -
  have "stored_prompt BOT_PROMPT U1 = Some BE_BRIEF"
    by (simp add: BOT_PROMPT_eq stored_prompt_def)
  then show ?thesis
    using setprompt_limit [of "replicate 4000 0x61" KEY_A rng_count True U1 C1 BOT_PROMPT]
      setprompt_limit [of LONG_PROMPT KEY_A rng_count True U1 C1 BOT_PROMPT]
    by (simp add: LONG_PROMPT_def)
qed

subsection \<open>A prompt given with \<open>chat\<close>\<close>

lemma stored_prompt_emit [simp]: "stored_prompt (emit os s) v = stored_prompt s v"
  by (simp add: stored_prompt_def emit_def)

lemma interactionCreate_Chat:
  "interactionCreate KEY rng userId ch (Chat p) s =
     handleChatCommand KEY userId ch p (set_user userId (get_user s userId) s)"
  by (simp add: interactionCreate_def Let_def)

lemma handleChatCommand_no_key:
  assumes "truthy (stored_key s userId) = None"
  shows "handleChatCommand KEY userId ch p s =
    (emit [InteractionReply (if userId \<in> ACTIVE_SESSIONS s then AlreadyActive userId
                            else NoSavedKey)] s, None)"
  using assms by (simp add: handleChatCommand_def stored_key_def)

lemma truthy_nonempty: "x \<noteq> [] \<Longrightarrow> truthy (Some x) = Some x"
  by (simp add: truthy_def)

lemma stored_key_truthy:
  "stored_key s userId = Some token \<Longrightarrow> token \<noteq> [] \<Longrightarrow>
   truthy (case userData s userId of None \<Rightarrow> None | Some u \<Rightarrow> openaiKey u) = Some token"
  by (simp add: stored_key_def truthy_def)

text \<open>
  \<open>U1\<close> has a key that \<open>decrypt\<close> reads and a chat that has not ended; \<open>chat\<close> with the
  prompt \<open>hello\<close> is refused and the stored prompt stays \<open>be brief\<close>.
\<close>

theorem chat_prompt_during_session:
  "stored_key BOT_CHAT U1 = Some TOKEN_SK \<and> decrypt KEY_A TOKEN_SK = Inr SK_ABC
   \<and> stored_prompt (command_done KEY_A rng_count True U1 C1 (Chat (Some HELLO)) BOT_CHAT) U1
       = Some BE_BRIEF
   \<and> outputs (command_done KEY_A rng_count True U1 C1 (Chat (Some HELLO)) BOT_CHAT)
       = outputs BOT_CHAT @ [InteractionReply (AlreadyActive U1)]"
  by (simp add: decrypt_SK BOT_CHAT_eq stored_key_def stored_prompt_def command_done_def
      interactionCreate_def handleChatCommand_def emit_def set_user_def get_user_def)

text \<open>
  Claim C10, for a user without a session: when the user has a stored key that
  \<open>decrypt\<close> reads, \<open>chat\<close> with a prompt that is not empty stores the prompt in place of
  the stored one and hands the data to the write before there is a session and a
  collector; when the write has ended (the file holds the data when it succeeded) the
  session starts with that prompt, and the prompt is still stored when the collector has
  been stopped. When the user has no stored key, the command is answered with the notice
  of the missing key, and no stored prompt, session, collector or file changes.
\<close>

theorem chat_prompt_is_stored:
  "(userId \<notin> ACTIVE_SESSIONS s \<and> stored_key s userId = Some token \<and> token \<noteq> []
      \<and> decrypt KEY token = Inr key \<and> p \<noteq> [] \<longrightarrow>
      (\<exists>s1. interactionCreate KEY rng userId ch (Chat (Some p)) s =
               (s1, Some (AwaitSave (userData s1) (StartSession userId ch p key)))
             \<and> stored_prompt s1 userId = Some p
             \<and> ACTIVE_SESSIONS s1 = ACTIVE_SESSIONS s \<and> collectors s1 = collectors s)
      \<and> stored_prompt (command_done KEY rng written userId ch (Chat (Some p)) s) userId = Some p
      \<and> (written \<longrightarrow> DATA_FILE (command_done KEY rng written userId ch (Chat (Some p)) s) =
                        userData (command_done KEY rng written userId ch (Chat (Some p)) s))
      \<and> userId \<in> ACTIVE_SESSIONS (command_done KEY rng written userId ch (Chat (Some p)) s)
      \<and> collectors (command_done KEY rng written userId ch (Chat (Some p)) s) =
          collectors s @ [\<lparr>c_userId = userId, c_channelId = ch, c_prompt = p, c_openaiKey = key,
                           collected = [], ended = False\<rparr>]
      \<and> stored_prompt (stop (length (collectors s)) reason
                         (command_done KEY rng written userId ch (Chat (Some p)) s)) userId = Some p)
   \<and> (truthy (stored_key s userId) = None \<longrightarrow>
        (\<forall>v. stored_prompt (command_done KEY rng written userId ch (Chat (Some p)) s) v =
              stored_prompt s v)
        \<and> DATA_FILE (command_done KEY rng written userId ch (Chat (Some p)) s) = DATA_FILE s
        \<and> ACTIVE_SESSIONS (command_done KEY rng written userId ch (Chat (Some p)) s) =
            ACTIVE_SESSIONS s
        \<and> collectors (command_done KEY rng written userId ch (Chat (Some p)) s) = collectors s
        \<and> (userId \<notin> ACTIVE_SESSIONS s \<longrightarrow>
             outputs (command_done KEY rng written userId ch (Chat (Some p)) s) =
               outputs s @ [InteractionReply NoSavedKey]))"
proof -
  let ?s0 = "set_user userId (get_user s userId) s"
  have a: ?thesis if n: "truthy (stored_key s userId) = None"
  proof -
    have "truthy (stored_key ?s0 userId) = None" using n by simp
    then have "command_done KEY rng written userId ch (Chat (Some p)) s =
        emit [InteractionReply (if userId \<in> ACTIVE_SESSIONS ?s0 then AlreadyActive userId
                                else NoSavedKey)] ?s0"
      by (simp add: command_done_def interactionCreate_Chat handleChatCommand_no_key)
    moreover have "stored_key s userId \<noteq> Some token \<or> token = []"
      using n by (auto simp: truthy_def split: if_splits)
    ultimately show ?thesis
      by (simp add: stored_prompt_emit) (simp add: emit_def set_user_def)
  qed
  have b: ?thesis
    if h: "userId \<notin> ACTIVE_SESSIONS s" "stored_key s userId = Some token" "token \<noteq> []"
      "decrypt KEY token = Inr key" "p \<noteq> []"
  proof -
    have k: "truthy (case userData ?s0 userId of None \<Rightarrow> None | Some u \<Rightarrow> openaiKey u) = Some token"
      using h(2,3) stored_key_set_get [of userId s userId] stored_key_truthy [of ?s0 userId token]
      by simp
    have t: "truthy (stored_key s userId) \<noteq> None" using h(2,3) by (simp add: truthy_def)
    have a: "userId \<notin> ACTIVE_SESSIONS ?s0" using h(1) by (simp add: set_user_def)
    have i: "interactionCreate KEY rng userId ch (Chat (Some p)) s =
        (set_user userId ((get_user ?s0 userId)\<lparr>promptId := Some p\<rparr>) ?s0,
         Some (AwaitSave (userData (set_user userId ((get_user ?s0 userId)\<lparr>promptId := Some p\<rparr>) ?s0))
                 (StartSession userId ch p key)))"
      using a h(4,5) k
      by (simp add: interactionCreate_Chat handleChatCommand_def Let_def truthy_nonempty)
    show ?thesis
      using t h(5) unfolding command_done_def i
      by (simp add: start_session_def saveUserData_end_def emit_def truthy_def stop_def on_end_def
          nth_append)
        (simp add: set_user_def stored_prompt_def)
  qed
  show ?thesis using a b by blast
qed

text \<open>
  \<open>U1\<close> has saved a key and no prompt and has no session: \<open>chat\<close> with \<open>be brief\<close> stores
  the prompt and starts the session. A user without data is told to save a key, and no
  prompt is stored.
\<close>

theorem chat_prompt_is_stored_witness:
  "U1 \<notin> ACTIVE_SESSIONS BOT_KEY \<and> stored_key BOT_KEY U1 = Some TOKEN_SK \<and> TOKEN_SK \<noteq> []
   \<and> decrypt KEY_A TOKEN_SK = Inr SK_ABC \<and> BE_BRIEF \<noteq> []
   \<and> stored_prompt BOT_KEY U1 = None
   \<and> stored_prompt (command_done KEY_A rng_count True U1 C1 (Chat (Some BE_BRIEF)) BOT_KEY) U1
       = Some BE_BRIEF
   \<and> U1 \<in> ACTIVE_SESSIONS (command_done KEY_A rng_count True U1 C1 (Chat (Some BE_BRIEF)) BOT_KEY)
   \<and> truthy (stored_key (start Map.empty) U1) = None
   \<and> stored_prompt (command_done KEY_A rng_count True U1 C1 (Chat (Some BE_BRIEF))
        (start Map.empty)) U1 = None
   \<and> outputs (command_done KEY_A rng_count True U1 C1 (Chat (Some BE_BRIEF)) (start Map.empty))
       = [InteractionReply NoSavedKey]"
proof -
  have 1: "U1 \<notin> ACTIVE_SESSIONS BOT_KEY" "stored_key BOT_KEY U1 = Some TOKEN_SK"
    "stored_prompt BOT_KEY U1 = None"
    by (simp_all add: BOT_KEY_eq stored_key_def stored_prompt_def)
  have 2: "truthy (stored_key (start Map.empty) U1) = None"
    "stored_prompt (start Map.empty) U1 = None" "outputs (start Map.empty) = []"
    "U1 \<notin> ACTIVE_SESSIONS (start Map.empty)"
    by (simp_all add: start_def stored_key_def stored_prompt_def truthy_def)
  have 3: "BE_BRIEF \<noteq> []" by (simp add: BE_BRIEF_def)
  show ?thesis
    using chat_prompt_is_stored [of U1 BOT_KEY TOKEN_SK KEY_A SK_ABC BE_BRIEF rng_count C1 True
        "''user''"]
      chat_prompt_is_stored [of U1 "start Map.empty" TOKEN_SK KEY_A SK_ABC BE_BRIEF rng_count C1 True
        "''user''"]
      1 2 3 TOKEN_SK_nonempty decrypt_SK
    by simp
qed

subsection \<open>A prompt over the limit\<close>

text \<open>
  Claim C3 at a prompt of 4001 letters. After \<open>setkey\<close>, \<open>setprompt\<close> refuses the
  prompt and nothing is stored; \<open>chat\<close> with the same prompt stores it, in \<open>userData\<close>
  and in the file.
\<close>

theorem chat_stores_prompt_over_limit:
  "charLimit < length LONG_PROMPT
   \<and> stored_prompt (run KEY_A [Command rng_count True U1 C1 (SetKey SK_ABC),
                               Command rng_count True U1 C1 (SetPrompt LONG_PROMPT)]
                       (start Map.empty)) U1 = None
   \<and> stored_prompt (run KEY_A [Command rng_count True U1 C1 (SetKey SK_ABC),
                               Command rng_count True U1 C1 (Chat (Some LONG_PROMPT))]
                       (start Map.empty)) U1 = Some LONG_PROMPT
   \<and> DATA_FILE (run KEY_A [Command rng_count True U1 C1 (SetKey SK_ABC),
                           Command rng_count True U1 C1 (Chat (Some LONG_PROMPT))]
                   (start Map.empty)) U1
       = Some \<lparr>promptId = Some LONG_PROMPT, openaiKey = Some TOKEN_SK\<rparr>"
proof -
  have k: "run KEY_A [Command rng_count True U1 C1 (SetKey SK_ABC)] (start Map.empty) = BOT_KEY"
    by (simp add: BOT_KEY_def)
  have r: "run KEY_A [Command rng_count True U1 C1 (SetKey SK_ABC), e] (start Map.empty)
      = step KEY_A e BOT_KEY" for e
    using k by (simp add: run_def)
  have l: "length LONG_PROMPT = 4001" "LONG_PROMPT \<noteq> []" by (simp_all add: LONG_PROMPT_def)
  show ?thesis
    unfolding r
    by (simp add: l charLimit_def BOT_KEY_eq command_done_def interactionCreate_def
        handleChatCommand_def start_session_def saveUserData_end_def emit_def set_user_def
        get_user_def stored_prompt_def truthy_def TOKEN_SK_nonempty decrypt_SK)
qed

subsection \<open>Two sessions of one user\<close>

text \<open>
  Claim C1 at two \<open>chat\<close> commands of \<open>U1\<close>, each with a prompt, \<open>U1\<close> having a key
  and no session. Handled one after the other, the second is refused and \<open>U1\<close> has one
  collector. When the second is received while the first waits for its write, both pass
  the test of line 144, and \<open>U1\<close> has one entry in \<open>ACTIVE_SESSIONS\<close> and two collectors
  that have not ended; a message of \<open>U1\<close> is then collected twice.
\<close>

theorem two_chats_two_sessions:
  "length (live (run KEY_A [Command rng_count True U1 C1 (Chat (Some BE_BRIEF)),
                            Command rng_count True U1 C1 (Chat (Some HELLO))] BOT_KEY) U1) = 1
   \<and> U1 \<notin> ACTIVE_SESSIONS BOT_KEY
   \<and> ACTIVE_SESSIONS (two_chats KEY_A rng_count U1 C1 (Some BE_BRIEF) (Some HELLO) BOT_KEY) = {U1}
   \<and> length (live (two_chats KEY_A rng_count U1 C1 (Some BE_BRIEF) (Some HELLO) BOT_KEY) U1) = 2
   \<and> map collected (collectors (step KEY_A (Message U1 C1 HELLO)
        (two_chats KEY_A rng_count U1 C1 (Some BE_BRIEF) (Some HELLO) BOT_KEY)))
       = [[HELLO], [HELLO]]"
  by (simp add: run_def two_chats_def live_def BOT_KEY_eq command_done_def interactionCreate_def
      handleChatCommand_def start_session_def saveUserData_end_def emit_def set_user_def
      get_user_def truthy_def TOKEN_SK_nonempty decrypt_SK BE_BRIEF_def messageCreate_def
      collector_defs hello_word)

subsection \<open>Commands handled in turn\<close>

text \<open>
  The frame of the steps of a command, and the one way into \<open>ACTIVE_SESSIONS\<close>: a
  \<open>chat\<close> command of the user that has passed the test of line 144, with a key that
  \<open>decrypt\<close> accepts.
\<close>

lemma set_user_frame [simp]:
  "ACTIVE_SESSIONS (set_user u x s) = ACTIVE_SESSIONS s"
  "collectors (set_user u x s) = collectors s"
  "outputs (set_user u x s) = outputs s"
  "DATA_FILE (set_user u x s) = DATA_FILE s"
  by (simp_all add: set_user_def)

lemma emit_frame [simp]:
  "ACTIVE_SESSIONS (emit os s) = ACTIVE_SESSIONS s"
  "collectors (emit os s) = collectors s"
  "userData (emit os s) = userData s"
  "DATA_FILE (emit os s) = DATA_FILE s"
  by (simp_all add: emit_def)

lemma chat_refused_when_active:
  assumes "userId \<in> ACTIVE_SESSIONS s"
  shows "command_done KEY rng written userId ch (Chat p) s =
           emit [InteractionReply (AlreadyActive userId)] (set_user userId (get_user s userId) s)"
    and "ACTIVE_SESSIONS (command_done KEY rng written userId ch (Chat p) s) = ACTIVE_SESSIONS s"
    and "collectors (command_done KEY rng written userId ch (Chat p) s) = collectors s"
    and "DATA_FILE (command_done KEY rng written userId ch (Chat p) s) = DATA_FILE s"
    and "stored_prompt (command_done KEY rng written userId ch (Chat p) s) v = stored_prompt s v"
    and "stored_key (command_done KEY rng written userId ch (Chat p) s) v = stored_key s v"
proof -
  show c: "command_done KEY rng written userId ch (Chat p) s =
           emit [InteractionReply (AlreadyActive userId)] (set_user userId (get_user s userId) s)"
    using assms by (simp add: command_done_def interactionCreate_Chat handleChatCommand_def)
  show "ACTIVE_SESSIONS (command_done KEY rng written userId ch (Chat p) s) = ACTIVE_SESSIONS s"
    and "collectors (command_done KEY rng written userId ch (Chat p) s) = collectors s"
    and "DATA_FILE (command_done KEY rng written userId ch (Chat p) s) = DATA_FILE s"
    and "stored_prompt (command_done KEY rng written userId ch (Chat p) s) v = stored_prompt s v"
    by (simp_all add: c)
  have "stored_key (emit os s') v = stored_key s' v" for os s'
    by (simp add: stored_key_def)
  then show "stored_key (command_done KEY rng written userId ch (Chat p) s) v = stored_key s v"
    by (simp add: c)
qed

lemma start_session_sessions:
  "ACTIVE_SESSIONS (start_session userId ch p key s) \<subseteq> insert userId (ACTIVE_SESSIONS s)"
  by (auto simp: start_session_def emit_def split: option.splits)

lemma saveUserData_end_frame [simp]:
  "ACTIVE_SESSIONS (saveUserData_end w snap s) = ACTIVE_SESSIONS s"
  "collectors (saveUserData_end w snap s) = collectors s"
  "userData (saveUserData_end w snap s) = userData s"
  by (simp_all add: saveUserData_end_def emit_def)

lemma command_sessions:
  assumes "v \<in> ACTIVE_SESSIONS (command_done KEY rng written userId ch cmd s)"
    and "v \<notin> ACTIVE_SESSIONS s"
  shows "v = userId \<and> (\<exists>p token key. cmd = Chat p
            \<and> truthy (stored_key s userId) = Some token \<and> decrypt KEY token = Inr key)"
proof (cases cmd)
  case (Chat p)
  let ?s0 = "set_user userId (get_user s userId) s"
  have k: "(case userData ?s0 userId of None \<Rightarrow> None | Some u \<Rightarrow> openaiKey u) = stored_key s userId"
    using stored_key_set_get [of userId s userId] by (simp add: stored_key_def)
  show ?thesis
    using assms start_session_sessions [of userId ch _ _ ?s0]
    unfolding Chat command_done_def interactionCreate_Chat handleChatCommand_def k
    by (auto simp: Let_def start_session_def emit_def saveUserData_end_def
        split: if_splits option.splits sum.splits)
qed (use assms in \<open>auto simp: command_done_def interactionCreate_def Let_def
      split: option.splits sum.splits if_splits\<close>)

lemma session_starts_only_by_chat:
  assumes "v \<in> ACTIVE_SESSIONS (step KEY ev s)" and "v \<notin> ACTIVE_SESSIONS s"
  shows "\<exists>rng written ch p token key. ev = Command rng written v ch (Chat p)
            \<and> truthy (stored_key s v) = Some token \<and> decrypt KEY token = Inr key"
proof (cases ev)
  case (Command rng written userId ch cmd)
  then show ?thesis using command_sessions [of v KEY rng written userId ch cmd s] assms by auto
next
  case (Message a ch m)
  then show ?thesis
    using assms fold_sessions [of a ch m "[0..<length (collectors s)]" s]
    by (auto simp: messageCreate_def)
next
  case (Timer i)
  then show ?thesis using assms by (auto simp: stop_def on_end_def Let_def split: if_splits)
next
  case (Response r)
  then show ?thesis using assms by (simp add: on_response_frame)
qed

text \<open>The invariant of \<open>one_session\<close> is kept by every step.\<close>

lemma length_filter_update:
  assumes "i < length xs"
  shows "length (filter P (xs[i := y])) + (if P (xs ! i) then 1 else 0)
       = length (filter P xs) + (if P y then 1 else 0)"
proof -
  have "xs[i := y] = take i xs @ y # drop (Suc i) xs"
    using assms by (rule upd_conv_take_nth_drop)
  moreover have "xs = take i xs @ xs ! i # drop (Suc i) xs"
    using assms by (rule id_take_nth_drop)
  ultimately have "length (filter P (xs[i := y])) + (if P (xs ! i) then 1 else 0)
      = length (filter P (take i xs @ y # drop (Suc i) xs)) + (if P (xs ! i) then 1 else 0)"
    and "length (filter P xs) = length (filter P (take i xs @ xs ! i # drop (Suc i) xs))"
    by simp_all
  then show ?thesis by simp
qed

lemma one_session_I:
  assumes "\<And>u. length (live s u) \<le> 1" and "\<And>u. 0 < length (live s u) \<Longrightarrow> u \<in> ACTIVE_SESSIONS s"
  shows "one_session s"
  using assms by (auto simp: one_session_def)

lemma one_session_D:
  assumes "one_session s"
  shows "length (live s u) \<le> 1" and "0 < length (live s u) \<Longrightarrow> u \<in> ACTIVE_SESSIONS s"
  using assms by (auto simp: one_session_def)

lemma one_session_same:
  assumes "one_session s" and "\<And>u. length (live s' u) = length (live s u)"
    and "ACTIVE_SESSIONS s' = ACTIVE_SESSIONS s"
  shows "one_session s'"
  using assms unfolding one_session_def by (metis length_greater_0_conv)

lemma one_session_stop:
  assumes "one_session s"
  shows "one_session (stop i reason s)"
proof (cases "i < length (collectors s) \<and> \<not> ended (collectors s ! i)")
  case False
  then show ?thesis using assms by (auto simp: stop_def)
next
  case True
  let ?c = "collectors s ! i"
  let ?s' = "stop i reason s"
  have s': "collectors ?s' = (collectors s)[i := ?c\<lparr>ended := True\<rparr>]"
    "ACTIVE_SESSIONS ?s' = ACTIVE_SESSIONS s - {c_userId ?c}"
    using True by (simp_all add: stop_live)
  have n: "length (live ?s' u) + (if c_userId ?c = u then 1 else 0) = length (live s u)" for u
    using length_filter_update [of i "collectors s" "\<lambda>c. c_userId c = u \<and> \<not> ended c"
        "?c\<lparr>ended := True\<rparr>"] True
    by (simp add: live_def s')
  show ?thesis
  proof (rule one_session_I)
    fix u
    show "length (live ?s' u) \<le> 1" using n [of u] one_session_D(1) [OF assms, of u] by simp
    assume p: "0 < length (live ?s' u)"
    have "c_userId ?c \<noteq> u"
    proof
      assume "c_userId ?c = u"
      then have "Suc (length (live ?s' u)) = length (live s u)" using n [of u] by simp
      with one_session_D(1) [OF assms, of u] p show False by linarith
    qed
    moreover have "0 < length (live s u)"
      using p n [of u] by (simp del: length_greater_0_conv split: if_splits)
    then have "u \<in> ACTIVE_SESSIONS s" by (rule one_session_D(2) [OF assms])
    ultimately show "u \<in> ACTIVE_SESSIONS ?s'" by (simp add: s')
  qed
qed

lemma one_session_emit: "one_session (emit os s) = one_session s"
  by (simp add: one_session_def live_def emit_def)

lemma one_session_collected:
  assumes "one_session s" and "i < length (collectors s)"
  shows "one_session (s\<lparr>collectors := (collectors s)[i := (collectors s ! i)\<lparr>collected := x\<rparr>]\<rparr>)"
proof (rule one_session_same [OF assms(1)])
  fix u
  show "length (live (s\<lparr>collectors := (collectors s)[i := (collectors s ! i)\<lparr>collected := x\<rparr>]\<rparr>) u)
      = length (live s u)"
    using length_filter_update [of i "collectors s" "\<lambda>c. c_userId c = u \<and> \<not> ended c"
        "(collectors s ! i)\<lparr>collected := x\<rparr>"] assms(2)
    by (simp add: live_def)
qed simp

lemma one_session_handleCollect:
  assumes "one_session s"
  shows "one_session (handleCollect j a ch m s)"
proof (cases "j < length (collectors s) \<and> \<not> ended (collectors s ! j) \<and> a = c_userId (collectors s ! j)
    \<and> ch = c_channelId (collectors s ! j)")
  case False
  then show ?thesis using assms by (auto simp: handleCollect_def Let_def)
next
  case True
  let ?s1 = "s\<lparr>collectors := (collectors s)[j := (collectors s ! j)
      \<lparr>collected := collected (collectors s ! j) @ [m]\<rparr>]\<rparr>"
  have 1: "one_session ?s1" using assms True by (simp add: one_session_collected)
  have "handleCollect j a ch m s = on_collect j m ?s1"
    using True by (simp add: handleCollect_def Let_def)
  moreover have "one_session (on_collect j m ?s1)"
    using 1 one_session_stop [of "emit [MessageReply SessionEnded] ?s1" j "''user''"]
    by (simp only: on_collect_def Let_def one_session_emit split: if_splits) simp
  ultimately show ?thesis by simp
qed

lemma one_session_fold:
  "one_session s \<Longrightarrow> one_session (fold (\<lambda>j. handleCollect j a ch m) js s)"
  by (induction js arbitrary: s) (simp_all add: one_session_handleCollect)

lemma one_session_start_session:
  assumes "one_session s" and "userId \<notin> ACTIVE_SESSIONS s"
  shows "one_session (start_session userId ch p key s)"
proof (cases "truthy p")
  case None
  then show ?thesis using assms by (simp add: start_session_def one_session_emit)
next
  case (Some x)
  have e: "live s userId = []"
    using assms one_session_D(2) [OF assms(1), of userId] by auto
  show ?thesis
  proof (rule one_session_I)
    fix u
    show "length (live (start_session userId ch p key s) u) \<le> 1"
      using one_session_D(1) [OF assms(1), of u] e
      by (cases "u = userId") (simp_all add: start_session_def Some live_def)
    assume "0 < length (live (start_session userId ch p key s) u)"
    then show "u \<in> ACTIVE_SESSIONS (start_session userId ch p key s)"
      using one_session_D(2) [OF assms(1), of u]
      by (cases "u = userId") (simp_all add: start_session_def Some live_def)
  qed
qed

lemma one_session_frame:
  assumes "one_session s" and "collectors s' = collectors s"
    and "ACTIVE_SESSIONS s' = ACTIVE_SESSIONS s"
  shows "one_session s'"
  using assms by (simp add: one_session_def live_def)

lemma one_session_command:
  assumes "one_session s"
  shows "one_session (command_done KEY rng written userId ch cmd s)"
proof (cases cmd)
  case (Chat p)
  let ?s0 = "set_user userId (get_user s userId) s"
  have 0: "one_session ?s0" by (rule one_session_frame [OF assms]) simp_all
  have 1: "one_session (saveUserData_end w snap (set_user userId x ?s0))" for w snap x
    by (rule one_session_frame [OF assms]) simp_all
  show ?thesis
    unfolding Chat command_done_def interactionCreate_Chat handleChatCommand_def
    using 0 1
    by (auto simp: Let_def one_session_emit one_session_start_session
        split: option.splits sum.splits)
qed (auto intro!: one_session_frame [OF assms]
      simp: command_done_def interactionCreate_def Let_def split: option.splits sum.splits)

text \<open>
  When every command is handled to its end before the next event, a user never has more
  than one collector that has not ended, and has an entry in \<open>ACTIVE_SESSIONS\<close> while
  there is one.
\<close>

lemma one_session_step: "one_session s \<Longrightarrow> one_session (step KEY ev s)"
  by (cases ev)
    (simp_all add: one_session_command messageCreate_def one_session_fold one_session_stop
      on_response_def one_session_emit)

lemma one_session_run: "one_session s \<Longrightarrow> one_session (run KEY evs s)"
  unfolding run_def by (induction evs arbitrary: s) (simp_all add: one_session_step)

lemma one_session_start: "one_session (start loaded)"
  by (simp add: one_session_def live_def start_def)

end
